(* ===== verification/Prelude.thy ===== *)
theory Prelude
  imports Main "HOL-Library.Word" "HOL-Library.Monad_Syntax"
begin

text \<open>
  Shared vocabulary of the scan development.  \<open>int32\<close> is the C \<open>int\<close> the kernels
  and the CPU oracle compute with; addition on it wraps modulo \<open>2 ^ 32\<close>, as the
  GPU's integer unit does.  A \<open>store\<close> is a flat array of such values, addressed by
  \<open>nat\<close>; the C pointers \<open>out\<close> and \<open>in\<close> are base addresses into it, so that
  aliasing between them is explicit.  This theory also holds the abstract
  specification of a scan (\<open>incl_scan\<close>, \<open>excl_scan\<close>, and their segmented form
  \<open>periodic\<close>) and the list lemmas the component theories share.
\<close>

named_theorems scan_simps "evaluation rules of the reference scans"

type_synonym int32 = "32 word"
type_synonym store = "int32 list"

section \<open>Reference scans\<close>

text \<open>What a scan promises: position \<open>i\<close> of an inclusive scan is the sum of the
  first \<open>i + 1\<close> inputs, of an exclusive scan the sum of the first \<open>i\<close>.\<close>

definition incl_scan :: "'a::monoid_add list \<Rightarrow> 'a list" where
  "incl_scan xs = map (\<lambda>i. sum_list (take (Suc i) xs)) [0..<length xs]"

definition excl_scan :: "'a::monoid_add list \<Rightarrow> 'a list" where
  "excl_scan xs = map (\<lambda>i. sum_list (take i xs)) [0..<length xs]"

text \<open>The running-sum form that sequential loops compute.\<close>

fun scan_incl_from :: "'a::monoid_add \<Rightarrow> 'a list \<Rightarrow> 'a list" where
  "scan_incl_from s [] = []"
| "scan_incl_from s (x # xs) = (s + x) # scan_incl_from (s + x) xs"

fun scan_excl_from :: "'a::monoid_add \<Rightarrow> 'a list \<Rightarrow> 'a list" where
  "scan_excl_from s [] = []"
| "scan_excl_from s (x # xs) = s # scan_excl_from (s + x) xs"

text \<open>A segmented (periodic) scan: \<open>f\<close> applied to consecutive segments of
  length \<open>P\<close>, the running sum reset at every segment.\<close>

function periodic :: "('a list \<Rightarrow> 'b list) \<Rightarrow> nat \<Rightarrow> 'a list \<Rightarrow> 'b list" where
  "periodic f P xs =
     (if P = 0 \<or> xs = [] then [] else f (take P xs) @ periodic f P (drop P xs))"
  by pat_completeness auto
termination
  by (relation "measure (\<lambda>(f, P, xs). length xs)") auto

declare periodic.simps [simp del]

text \<open>Writing a list of values to consecutive addresses of a store, one
  \<open>out[k] = v\<close> at a time.\<close>

fun write_list :: "'a list \<Rightarrow> nat \<Rightarrow> 'a list \<Rightarrow> 'a list" where
  "write_list mem a [] = mem"
| "write_list mem a (y # ys) = write_list (mem[a := y]) (Suc a) ys"

section \<open>Counting loops\<close>

text \<open>\<open>for (i = i0; i < N; i++) body;\<close> over an explicit state: the host loops of
  the N-body program are instances.\<close>

function for_loop :: "nat \<Rightarrow> nat \<Rightarrow> (nat \<Rightarrow> 's \<Rightarrow> 's) \<Rightarrow> 's \<Rightarrow> 's" where
  "for_loop i N body s = (if i < N then for_loop (Suc i) N body (body i s) else s)"
  by pat_completeness auto
termination by (relation "measure (\<lambda>(i, N, _, _). N - i)") auto

declare for_loop.simps [simp del]

section \<open>Lemmas on the reference scans\<close>

lemma length_incl_scan [simp]: "length (incl_scan xs) = length xs"
  by (simp add: incl_scan_def)

lemma length_excl_scan [simp]: "length (excl_scan xs) = length xs"
  by (simp add: excl_scan_def)

lemma nth_incl_scan [simp]:
  "i < length xs \<Longrightarrow> incl_scan xs ! i = sum_list (take (Suc i) xs)"
  by (simp add: incl_scan_def)

lemma nth_excl_scan [simp]:
  "i < length xs \<Longrightarrow> excl_scan xs ! i = sum_list (take i xs)"
  by (simp add: excl_scan_def)

lemma incl_scan_Nil [simp, scan_simps]: "incl_scan [] = []"
  by (simp add: incl_scan_def)

lemma excl_scan_Nil [simp, scan_simps]: "excl_scan [] = []"
  by (simp add: excl_scan_def)

lemma length_scan_incl_from [simp]: "length (scan_incl_from s xs) = length xs"
  by (induction xs arbitrary: s) auto

lemma length_scan_excl_from [simp]: "length (scan_excl_from s xs) = length xs"
  by (induction xs arbitrary: s) auto

lemma nth_scan_incl_from:
  "i < length xs \<Longrightarrow> scan_incl_from s xs ! i = s + sum_list (take (Suc i) xs)"
proof (induction xs arbitrary: s i)
  case Nil
  then show ?case by simp
next
  case (Cons x xs)
  then show ?case by (cases i) (simp_all add: add.assoc)
qed

lemma nth_scan_excl_from:
  "i < length xs \<Longrightarrow> scan_excl_from s xs ! i = s + sum_list (take i xs)"
proof (induction xs arbitrary: s i)
  case Nil
  then show ?case by simp
next
  case (Cons x xs)
  then show ?case by (cases i) (simp_all add: add.assoc)
qed

lemma scan_incl_from_0 [scan_simps]: "scan_incl_from 0 xs = incl_scan xs"
  by (rule nth_equalityI) (simp_all add: nth_scan_incl_from)

lemma scan_excl_from_0 [scan_simps]: "scan_excl_from 0 xs = excl_scan xs"
  by (rule nth_equalityI) (simp_all add: nth_scan_excl_from)

lemma length_periodic:
  assumes len: "\<And>ys. length (f ys) = length ys" and P: "0 < P"
  shows "length (periodic f P xs) = length xs"
proof (induction "length xs" arbitrary: xs rule: less_induct)
  case less
  show ?case
  proof (cases "xs = []")
    case True
    then show ?thesis by (simp add: periodic.simps)
  next
    case False
    with P have "length (drop P xs) < length xs" by simp
    then have "length (periodic f P (drop P xs)) = length xs - P"
      using less by simp
    with False P show ?thesis
      by (subst periodic.simps) (simp add: len)
  qed
qed

section \<open>Lemmas on stores\<close>

lemma length_write_list [simp]: "length (write_list mem a ys) = length mem"
  by (induction ys arbitrary: mem a) auto

lemma nth_write_list_outside:
  "p < a \<or> a + length ys \<le> p \<Longrightarrow> write_list mem a ys ! p = mem ! p"
  by (induction ys arbitrary: mem a) auto

lemma write_list_splice:
  "a + length ys \<le> length mem \<Longrightarrow>
   write_list mem a ys = take a mem @ ys @ drop (a + length ys) mem"
proof (induction ys arbitrary: mem a)
  case Nil
  then show ?case by simp
next
  case (Cons y ys)
  then have "write_list (mem[a := y]) (Suc a) ys
      = take (Suc a) (mem[a := y]) @ ys @ drop (Suc a + length ys) (mem[a := y])"
    by simp
  also have "take (Suc a) (mem[a := y]) = take a mem @ [y]"
    using Cons.prems by (simp add: take_Suc_conv_app_nth)
  finally show ?case by simp
qed

lemma write_list_append:
  "write_list mem a (xs @ ys) = write_list (write_list mem a xs) (a + length xs) ys"
  by (induction xs arbitrary: mem a) auto

lemma take_drop_write_list:
  "a + length ys \<le> length mem \<Longrightarrow> take (length ys) (drop a (write_list mem a ys)) = ys"
  by (simp add: write_list_splice)

lemma take_drop_unroll:
  "i + j < length src \<Longrightarrow> j < period \<Longrightarrow>
   take (period - j) (drop (i + j) src) = src ! (i + j) # take (period - Suc j) (drop (i + Suc j) src)"
  by (simp add: Cons_nth_drop_Suc[symmetric] take_Cons' )

lemma write_list_frame_after:
  "po \<le> pi \<or> pi + N \<le> po \<Longrightarrow> i + length ys \<le> k \<Longrightarrow> k < N \<Longrightarrow>
   write_list mem (po + i) ys ! (pi + k) = mem ! (pi + k)"
  by (rule nth_write_list_outside) auto

lemma nth_periodic:
  assumes len: "\<And>ys. length (f ys) = length ys" and P: "0 < P"
  shows "k < length xs \<Longrightarrow>
         periodic f P xs ! k = f (take P (drop (k - k mod P) xs)) ! (k mod P)"
proof (induction "length xs" arbitrary: xs k rule: less_induct)
  case less
  have xs: "xs \<noteq> []" using less.prems by auto
  have unf: "periodic f P xs = f (take P xs) @ periodic f P (drop P xs)"
    using xs P by (simp add: periodic.simps [of f P xs])
  show ?case
  proof (cases "k < P")
    case True
    then show ?thesis using less.prems by (simp add: unf nth_append len)
  next
    case False
    then have kP: "P \<le> k" by simp
    have IH: "periodic f P (drop P xs) ! (k - P)
        = f (take P (drop ((k - P) - (k - P) mod P) (drop P xs))) ! ((k - P) mod P)"
      using less.hyps [of "drop P xs" "k - P"] less.prems kP P by simp
    have m: "(k - P) mod P = k mod P" using kP by (simp add: le_mod_geq)
    have "k mod P \<le> k - P" using m [symmetric] by simp
    then have d: "P + (k - P - k mod P) = k - k mod P" using kP by linarith
    show ?thesis
      using kP less.prems IH m d by (simp add: unf nth_append len min_def add.commute)
  qed
qed

lemma nth_write_list_inside:
  "a + length ys \<le> length mem \<Longrightarrow> k < length ys \<Longrightarrow> write_list mem a ys ! (a + k) = ys ! k"
  by (simp add: write_list_splice nth_append)

lemma mod_index_in_segment:
  assumes "0 < P" "k < length xs"
  shows "k mod P < length (take P (drop (k - k mod P) xs))"
proof -
  have "k mod P < P" "k mod P \<le> k" using assms(1) by simp_all
  moreover from assms(2) \<open>k mod P \<le> k\<close> have "k mod P < length xs - (k - k mod P)"
    by linarith
  ultimately show ?thesis by simp
qed

lemma nth_periodic_excl_scan:
  "0 < P \<Longrightarrow> k < length xs \<Longrightarrow>
   periodic excl_scan P xs ! k = sum_list (take (k mod P) (drop (k - k mod P) xs))"
  using mod_index_in_segment [of P k xs] by (simp add: nth_periodic take_take)

lemma nth_periodic_incl_scan:
  "0 < P \<Longrightarrow> k < length xs \<Longrightarrow>
   periodic incl_scan P xs ! k = sum_list (take (Suc (k mod P)) (drop (k - k mod P) xs))"
  using mod_index_in_segment [of P k xs] by (simp add: nth_periodic take_take Suc_leI min_absorb1)

lemma sum_list_take_drop:
  "b + m \<le> length xs \<Longrightarrow> sum_list (take m (drop b xs)) = (\<Sum>j = b..<b + m. xs ! j)"
proof -
  assume bm: "b + m \<le> length xs"
  have l: "length (take m (drop b xs)) = m" using bm by simp
  have "sum_list (take m (drop b xs)) = (\<Sum>i = 0..<m. take m (drop b xs) ! i)"
    by (simp only: sum_list_sum_nth l)
  also have "\<dots> = (\<Sum>i = 0..<m. xs ! (i + b))"
    using bm by (intro sum.cong) (simp_all add: add.commute)
  also have "\<dots> = (\<Sum>j = b..<b + m. xs ! j)"
    using sum.shift_bounds_nat_ivl [of "\<lambda>j. xs ! j" 0 b m] by (simp add: add.commute)
  finally show ?thesis .
qed

lemma buffer_segment_sum:
  "b + m \<le> N \<Longrightarrow> pi + N \<le> length mem \<Longrightarrow>
   sum_list (take m (drop b (take N (drop pi mem)))) = (\<Sum>j = b..<b + m. mem ! (pi + j))"
  by (simp add: sum_list_take_drop)

lemma periodic_cong:
  assumes "\<And>ys. length ys \<le> P \<Longrightarrow> f ys = g ys"
  shows "periodic f P xs = periodic g P xs"
proof (induction "length xs" arbitrary: xs rule: less_induct)
  case less
  show ?case
  proof (cases "P = 0 \<or> xs = []")
    case True
    then show ?thesis by (simp add: periodic.simps [of f P xs] periodic.simps [of g P xs])
  next
    case False
    then have "periodic f P (drop P xs) = periodic g P (drop P xs)"
      using less by simp
    with False assms show ?thesis
      by (simp add: periodic.simps [of f P xs] periodic.simps [of g P xs])
  qed
qed

lemma sum_take_chunks:
  "w \<le> n \<Longrightarrow> w * P \<le> length xs \<Longrightarrow>
   sum_list (take w (map (\<lambda>v. sum_list (take P (drop (v * P) xs))) [0..<n])) = sum_list (take (w * P) xs)"
proof (induction w)
  case 0
  then show ?case by simp
next
  case (Suc w)
  have "take (Suc w * P) xs = take (w * P) xs @ take P (drop (w * P) xs)"
    using take_add [of "w * P" P xs] by (simp add: add.commute)
  then show ?case using Suc by (simp add: take_Suc_conv_app_nth)
qed

lemma sum_list_take_split:
  "a \<le> n \<Longrightarrow> sum_list (take n xs) = sum_list (take a xs) + sum_list (take (n - a) (drop a xs))"
  using take_add [of a "n - a" xs] by simp

lemma dvd_step_le:
  "(B::nat) dvd i \<Longrightarrow> B dvd N \<Longrightarrow> i < N \<Longrightarrow> i + B \<le> N"
proof -
  assume a: "B dvd i" "B dvd N" "i < N"
  then have "B dvd N - i" by (simp add: dvd_diff_nat)
  then have "B \<le> N - i" using a(3) by (simp add: dvd_imp_le)
  then show ?thesis using a(3) by linarith
qed

lemma periodic_segment:
  assumes len: "\<And>ys. length (f ys) = length ys" and B: "0 < B"
    and i: "B dvd i" "i + B \<le> length xs"
  shows "take B (drop i (periodic f B xs)) = f (take B (drop i xs))"
proof (rule nth_equalityI)
  show "length (take B (drop i (periodic f B xs))) = length (f (take B (drop i xs)))"
    using i B by (simp add: len length_periodic)
  fix k assume "k < length (take B (drop i (periodic f B xs)))"
  then have k: "k < B" using i B by (simp add: len length_periodic)
  have m: "(i + k) mod B = k" using i(1) k by (auto simp: mod_add_left_eq [symmetric])
  show "take B (drop i (periodic f B xs)) ! k = f (take B (drop i xs)) ! k"
    using k i B m by (simp add: len length_periodic nth_periodic [OF len B])
qed

lemma sum_list_update_add:
  "b < length xs \<Longrightarrow> sum_list (xs[b := xs ! b + (d::nat)]) = sum_list xs + d"
  by (induction xs arbitrary: b) (auto split: nat.splits)

lemma sum_list_map_update_less:
  "b < length xs \<Longrightarrow> g x < g (xs ! b) \<Longrightarrow>
   sum_list (map g (xs[b := x])) < sum_list (map (g :: nat \<Rightarrow> nat) xs)"
  by (induction xs arbitrary: b) (auto split: nat.splits)

lemma write_segment_nth:
  "i + length vs \<le> length out \<Longrightarrow> take (length vs) (drop i spec) = vs \<Longrightarrow> p < length out \<Longrightarrow>
   write_list out i vs ! p = (if i \<le> p \<and> p < i + length vs then spec ! p else out ! p)"
proof -
  assume len: "i + length vs \<le> length out" and vs: "take (length vs) (drop i spec) = vs"
    and p: "p < length out"
  have lspec: "length vs \<le> length spec - i"
    using arg_cong [OF vs, of length] by simp
  have "vs ! (p - i) = spec ! p" if "i \<le> p" "p < i + length vs"
  proof -
    have "vs ! (p - i) = take (length vs) (drop i spec) ! (p - i)" using vs by simp
    also have "\<dots> = spec ! p" using that lspec by simp
    finally show ?thesis .
  qed
  then show ?thesis using len p by (auto simp: write_list_splice nth_append)
qed

lemma shift_right_incl_scan:
  "length xs = n \<Longrightarrow>
   map (\<lambda>tid. if 0 < tid then incl_scan xs ! (tid - 1) else 0) [0..<n] = excl_scan xs"
  by (rule nth_equalityI) auto


section \<open>Lemmas on C ints\<close>

text \<open>A C \<open>int\<close> computed as a mathematical integer in range reads back unchanged.\<close>

lemma sint32_word_of_int:
  "- (2 ^ 31) \<le> x \<Longrightarrow> x < 2 ^ 31 \<Longrightarrow> sint (word_of_int x :: int32) = x"
  by (simp add: sint_sbintrunc' signed_take_bit_int_eq_self)


section \<open>Lemmas on counting loops\<close>

lemma for_loop_empty [simp]: "N \<le> i \<Longrightarrow> for_loop i N body s = s"
  by (simp add: for_loop.simps)

lemma for_loop_Suc_end:
  "i \<le> N \<Longrightarrow> for_loop i (Suc N) body s = body N (for_loop i N body s)"
proof (induction "N - i" arbitrary: i s)
  case 0
  then have "i = N" by simp
  then show ?case by (simp add: for_loop.simps)
next
  case (Suc d)
  then have i: "i < N" by simp
  have "for_loop i (Suc N) body s = for_loop (Suc i) (Suc N) body (body i s)"
    using i by (simp add: for_loop.simps)
  also have "\<dots> = body N (for_loop (Suc i) N body (body i s))"
    using Suc.hyps(1) [of "Suc i"] Suc.hyps(2) i by simp
  also have "for_loop (Suc i) N body (body i s) = for_loop i N body s"
    using i by (simp add: for_loop.simps [of i N])
  finally show ?case .
qed

lemma for_loop_0_Suc [simp]: "for_loop 0 (Suc N) body s = body N (for_loop 0 N body s)"
  by (simp add: for_loop_Suc_end)

lemma for_loop_induct_0:
  assumes "P 0 s" "\<And>i t. i < N \<Longrightarrow> P i t \<Longrightarrow> P (Suc i) (body i t)"
  shows "P N (for_loop 0 N body s)"
  using assms(2) by (induction N) (simp_all add: assms(1))


text \<open>One more element of a prefix-updated list, as a loop writing index \<open>M\<close> makes it.\<close>

lemma map_prefix_update:
  "M < N \<Longrightarrow> v = f M \<Longrightarrow> (map (\<lambda>j. if j < M then f j else g j) [0..<N])[M := v] =
             map (\<lambda>j. if j < Suc M then f j else g j) [0..<N]"
  by (auto simp: list_eq_iff_nth_eq nth_list_update)

end
