(* ===== verification/CpuScan.thy ===== *)
theory CpuScan
  imports Prelude
begin

text \<open>
  The CPU reference scans of \<open>src/scan/warp/testScanBlock.cu\<close>:
  \<open>ScanExclusiveCPUPeriodic\<close>, \<open>ScanInclusiveCPUPeriodic\<close> (templated on the
  period), and the dispatchers \<open>ScanCPU32\<close> and \<open>ScanCPUBlock\<close>.  The arrays
  \<open>out\<close> and \<open>in\<close> are base addresses \<open>po\<close> and \<open>pi\<close> into one store, each
  buffer \<open>N\<close> elements long (the harness allocates \<open>N*sizeof(T)\<close>); an access
  past the end of a buffer is undefined behaviour in C and \<open>None\<close> here.  The
  outer \<open>for\<close> loop advances by \<open>period\<close>, which the C code never checks to be
  non-zero, so it is a \<open>partial_function (option)\<close>; the inner loop is bounded
  by \<open>period\<close> and is a terminating \<open>function\<close>.  The C running total
  \<open>sum\<close> is called \<open>psum\<close> (\<open>sum\<close> is a HOL constant), \<open>next\<close> is \<open>nxt\<close>.
\<close>

datatype ScanType = Inclusive | Exclusive

section \<open>Buffer access\<close>

definition load :: "store \<Rightarrow> nat \<Rightarrow> nat \<Rightarrow> nat \<Rightarrow> int32 option" where
  "load mem base N k =
     (if k < N \<and> base + k < length mem then Some (mem ! (base + k)) else None)"

definition store :: "store \<Rightarrow> nat \<Rightarrow> nat \<Rightarrow> nat \<Rightarrow> int32 \<Rightarrow> store option" where
  "store mem base N k v =
     (if k < N \<and> base + k < length mem then Some (mem[base + k := v]) else None)"

section \<open>The periodic scans\<close>

text \<open>Inner loop of \<open>ScanExclusiveCPUPeriodic\<close>: \<open>next = in[i+j]\<close> is read
  before \<open>out[i+j] = sum\<close> is written ("in case we are doing this in place").\<close>

function ScanExclusiveCPUPeriodic_inner ::
  "nat \<Rightarrow> nat \<Rightarrow> nat \<Rightarrow> nat \<Rightarrow> nat \<Rightarrow> nat \<Rightarrow> int32 \<Rightarrow> store \<Rightarrow> store option" where
  "ScanExclusiveCPUPeriodic_inner period po pi N i j psum mem =
     (if j < period then
        do {
          nxt \<leftarrow> load mem pi N (i + j);
          mem' \<leftarrow> store mem po N (i + j) psum;
          ScanExclusiveCPUPeriodic_inner period po pi N i (Suc j) (psum + nxt) mem'
        }
      else Some mem)"
  by pat_completeness auto
termination
  by (relation "measure (\<lambda>(period, po, pi, N, i, j, sum, mem). period - j)") auto

text \<open>Inner loop of \<open>ScanInclusiveCPUPeriodic\<close>: \<open>sum += in[i+j]; out[i+j] = sum\<close>.\<close>

function ScanInclusiveCPUPeriodic_inner ::
  "nat \<Rightarrow> nat \<Rightarrow> nat \<Rightarrow> nat \<Rightarrow> nat \<Rightarrow> nat \<Rightarrow> int32 \<Rightarrow> store \<Rightarrow> store option" where
  "ScanInclusiveCPUPeriodic_inner period po pi N i j psum mem =
     (if j < period then
        do {
          x \<leftarrow> load mem pi N (i + j);
          mem' \<leftarrow> store mem po N (i + j) (psum + x);
          ScanInclusiveCPUPeriodic_inner period po pi N i (Suc j) (psum + x) mem'
        }
      else Some mem)"
  by pat_completeness auto
termination
  by (relation "measure (\<lambda>(period, po, pi, N, i, j, sum, mem). period - j)") auto

declare ScanExclusiveCPUPeriodic_inner.simps [simp del]
declare ScanInclusiveCPUPeriodic_inner.simps [simp del]

text \<open>The outer loop both functions share:
  \<open>for (i = 0; i < N; i += period) { int sum = 0; \<dots> }\<close>, the inner loop a parameter.\<close>

type_synonym inner_loop =
  "nat \<Rightarrow> nat \<Rightarrow> nat \<Rightarrow> nat \<Rightarrow> nat \<Rightarrow> nat \<Rightarrow> int32 \<Rightarrow> store \<Rightarrow> store option"

partial_function (option) cpu_periodic_outer ::
  "inner_loop \<Rightarrow> nat \<Rightarrow> nat \<Rightarrow> nat \<Rightarrow> nat \<Rightarrow> nat \<Rightarrow> store \<Rightarrow> store option" where
  "cpu_periodic_outer inner period po pi N i mem =
     (if i < N then
        do {
          mem' \<leftarrow> inner period po pi N i 0 0 mem;
          cpu_periodic_outer inner period po pi N (i + period) mem'
        }
      else Some mem)"

definition ScanExclusiveCPUPeriodic :: "nat \<Rightarrow> nat \<Rightarrow> nat \<Rightarrow> nat \<Rightarrow> store \<Rightarrow> store option" where
  "ScanExclusiveCPUPeriodic period po pi N mem =
     cpu_periodic_outer ScanExclusiveCPUPeriodic_inner period po pi N 0 mem"

definition ScanInclusiveCPUPeriodic :: "nat \<Rightarrow> nat \<Rightarrow> nat \<Rightarrow> nat \<Rightarrow> store \<Rightarrow> store option" where
  "ScanInclusiveCPUPeriodic period po pi N mem =
     cpu_periodic_outer ScanInclusiveCPUPeriodic_inner period po pi N 0 mem"

section \<open>Dispatchers\<close>

text \<open>The inner \<open>switch ( scantype )\<close> that every dispatcher repeats.\<close>

definition ScanCPUPeriodic :: "ScanType \<Rightarrow> nat \<Rightarrow> nat \<Rightarrow> nat \<Rightarrow> nat \<Rightarrow> store \<Rightarrow> store option" where
  "ScanCPUPeriodic scantype period po pi N mem =
     (case scantype of
        Exclusive \<Rightarrow> ScanExclusiveCPUPeriodic period po pi N mem
      | Inclusive \<Rightarrow> ScanInclusiveCPUPeriodic period po pi N mem)"

definition ScanCPU32 :: "ScanType \<Rightarrow> nat \<Rightarrow> nat \<Rightarrow> nat \<Rightarrow> store \<Rightarrow> store option" where
  "ScanCPU32 scantype po pi N mem = ScanCPUPeriodic scantype 32 po pi N mem"

text \<open>\<open>ScanCPUBlock\<close> switches on the (C \<open>int\<close>) thread count; every inner
  \<open>switch\<close> returns, so no case falls through, and any other count takes
  \<open>default: return\<close> and leaves \<open>out\<close> as it was.\<close>

definition ScanCPUBlock :: "ScanType \<Rightarrow> nat \<Rightarrow> nat \<Rightarrow> nat \<Rightarrow> int \<Rightarrow> store \<Rightarrow> store option" where
  "ScanCPUBlock scantype po pi N numThreads mem =
     (if numThreads = 256 then ScanCPUPeriodic scantype 256 po pi N mem
      else if numThreads = 512 then ScanCPUPeriodic scantype 512 po pi N mem
      else if numThreads = 1024 then ScanCPUPeriodic scantype 1024 po pi N mem
      else Some mem)"

section \<open>Loop lemmas\<close>

lemma store_frame:
  "po \<le> pi \<or> pi + N \<le> po \<Longrightarrow> a < k \<Longrightarrow> k < N \<Longrightarrow> a < N \<Longrightarrow>
   mem[po + a := v] ! (pi + k) = mem ! (pi + k)"
  by auto

lemma excl_inner_spec:
  assumes "length src = N" "i + period \<le> N" "pi + N \<le> length mem" "po + N \<le> length mem"
    "po \<le> pi \<or> pi + N \<le> po" "j \<le> period"
    "\<forall>k. i + j \<le> k \<longrightarrow> k < N \<longrightarrow> mem ! (pi + k) = src ! k"
  shows "ScanExclusiveCPUPeriodic_inner period po pi N i j s mem =
         Some (write_list mem (po + (i + j)) (scan_excl_from s (take (period - j) (drop (i + j) src))))"
  using assms
proof (induction period po pi N i j s mem rule: ScanExclusiveCPUPeriodic_inner.induct)
  case (1 period po pi N i j s mem)
  show ?case
  proof (cases "j < period")
    case False
    with "1.prems" show ?thesis by (simp add: ScanExclusiveCPUPeriodic_inner.simps)
  next
    case True
    let ?x = "src ! (i + j)"
    let ?mem' = "mem[po + (i + j) := s]"
    have ld: "load mem pi N (i + j) = Some ?x" using "1.prems" True by (simp add: load_def)
    have st: "store mem po N (i + j) s = Some ?mem'" using "1.prems" True by (simp add: store_def)
    have frame: "\<forall>k. i + Suc j \<le> k \<longrightarrow> k < N \<longrightarrow> ?mem' ! (pi + k) = src ! k"
      using "1.prems" True by (simp add: store_frame)
    note IH = "1.IH"[OF True ld st]
    have IH': "ScanExclusiveCPUPeriodic_inner period po pi N i (Suc j) (s + ?x) ?mem' =
      Some (write_list ?mem' (po + (i + Suc j))
        (scan_excl_from (s + ?x) (take (period - Suc j) (drop (i + Suc j) src))))"
      using IH "1.prems" frame True by simp
    have unroll: "take (period - j) (drop (i + j) src)
        = ?x # take (period - Suc j) (drop (i + Suc j) src)"
      using "1.prems" True by (simp add: take_drop_unroll)
    show ?thesis
      using ld st IH' True unfolding unroll
      by (simp add: ScanExclusiveCPUPeriodic_inner.simps [of period po pi N i j s mem])
  qed
qed

lemma incl_inner_spec:
  assumes "length src = N" "i + period \<le> N" "pi + N \<le> length mem" "po + N \<le> length mem"
    "po \<le> pi \<or> pi + N \<le> po" "j \<le> period"
    "\<forall>k. i + j \<le> k \<longrightarrow> k < N \<longrightarrow> mem ! (pi + k) = src ! k"
  shows "ScanInclusiveCPUPeriodic_inner period po pi N i j s mem =
         Some (write_list mem (po + (i + j)) (scan_incl_from s (take (period - j) (drop (i + j) src))))"
  using assms
proof (induction period po pi N i j s mem rule: ScanInclusiveCPUPeriodic_inner.induct)
  case (1 period po pi N i j s mem)
  show ?case
  proof (cases "j < period")
    case False
    with "1.prems" show ?thesis by (simp add: ScanInclusiveCPUPeriodic_inner.simps)
  next
    case True
    let ?x = "src ! (i + j)"
    let ?mem' = "mem[po + (i + j) := s + ?x]"
    have ld: "load mem pi N (i + j) = Some ?x" using "1.prems" True by (simp add: load_def)
    have st: "store mem po N (i + j) (s + ?x) = Some ?mem'" using "1.prems" True by (simp add: store_def)
    have frame: "\<forall>k. i + Suc j \<le> k \<longrightarrow> k < N \<longrightarrow> ?mem' ! (pi + k) = src ! k"
      using "1.prems" True by (simp add: store_frame)
    have IH: "ScanInclusiveCPUPeriodic_inner period po pi N i (Suc j) (s + ?x) ?mem' =
      Some (write_list ?mem' (po + (i + Suc j))
        (scan_incl_from (s + ?x) (take (period - Suc j) (drop (i + Suc j) src))))"
      using "1.IH" [OF True ld st] "1.prems" frame True by simp
    have unroll: "take (period - j) (drop (i + j) src)
        = ?x # take (period - Suc j) (drop (i + Suc j) src)"
      using "1.prems" True by (simp add: take_drop_unroll)
    show ?thesis
      using ld st IH True unfolding unroll
      by (simp add: ScanInclusiveCPUPeriodic_inner.simps [of period po pi N i j s mem])
  qed
qed

lemma cpu_periodic_outer_spec:
  assumes inner: "\<And>i mem. i + period \<le> N \<Longrightarrow> length mem = L \<Longrightarrow>
       \<forall>k. i \<le> k \<longrightarrow> k < N \<longrightarrow> mem ! (pi + k) = src ! k \<Longrightarrow>
       inner period po pi N i 0 0 mem = Some (write_list mem (po + i) (f (take period (drop i src))))"
    and len_f: "\<And>ys. length (f ys) = length ys"
    and P: "0 < period" and src: "length src = N" and nooverlap: "po \<le> pi \<or> pi + N \<le> po"
  shows "i \<le> N \<Longrightarrow> period dvd (N - i) \<Longrightarrow> length mem = L \<Longrightarrow>
         \<forall>k. i \<le> k \<longrightarrow> k < N \<longrightarrow> mem ! (pi + k) = src ! k \<Longrightarrow>
         cpu_periodic_outer inner period po pi N i mem
           = Some (write_list mem (po + i) (periodic f period (drop i src)))"
proof (induction "N - i" arbitrary: i mem rule: less_induct)
  case less
  show ?case
  proof (cases "i < N")
    case False
    with less.prems src show ?thesis
      by (subst cpu_periodic_outer.simps) (simp add: periodic.simps)
  next
    case True
    from less.prems(2) have dvd: "period dvd (N - i)" .
    then have "period \<le> N - i" using True by (simp add: dvd_imp_le)
    with True have step: "i + period \<le> N" by linarith
    let ?seg = "f (take period (drop i src))"
    let ?mem1 = "write_list mem (po + i) ?seg"
    have seg_len: "length ?seg = period" using step src by (simp add: len_f)
    have run1: "inner period po pi N i 0 0 mem = Some ?mem1"
      by (rule inner [OF step less.prems(3) less.prems(4)])
    have frame1: "\<forall>k. i + period \<le> k \<longrightarrow> k < N \<longrightarrow> ?mem1 ! (pi + k) = src ! k"
      using less.prems(4) nooverlap seg_len by (simp add: write_list_frame_after)
    have mod': "period dvd (N - (i + period))"
      using dvd dvd_diff_nat [OF dvd dvd_refl] by (simp add: diff_diff_add)
    have rest: "cpu_periodic_outer inner period po pi N (i + period) ?mem1
        = Some (write_list ?mem1 (po + (i + period)) (periodic f period (drop (i + period) src)))"
      using less.hyps [of "i + period" ?mem1] True P step mod' less.prems(3) frame1 by simp
    have split: "periodic f period (drop i src) = ?seg @ periodic f period (drop (i + period) src)"
      using True P src by (simp add: periodic.simps [of f period "drop i src"] add.commute)
    show ?thesis
      using True run1 rest seg_len
      by (simp add: cpu_periodic_outer.simps [of inner period po pi N i mem] split
                    write_list_append add.assoc)
  qed
qed

lemma ScanExclusiveCPUPeriodic_result:
  assumes "0 < period" "N mod period = 0" "pi + N \<le> length mem" "po + N \<le> length mem"
    "po \<le> pi \<or> pi + N \<le> po"
  shows "ScanExclusiveCPUPeriodic period po pi N mem
           = Some (write_list mem po (periodic excl_scan period (take N (drop pi mem))))"
proof -
  let ?src = "take N (drop pi mem)"
  have "cpu_periodic_outer ScanExclusiveCPUPeriodic_inner period po pi N 0 mem
      = Some (write_list mem (po + 0) (periodic excl_scan period (drop 0 ?src)))"
  proof (rule cpu_periodic_outer_spec [where L = "length mem"])
    fix i and m :: store
    assume "i + period \<le> N" "length m = length mem"
      "\<forall>k. i \<le> k \<longrightarrow> k < N \<longrightarrow> m ! (pi + k) = ?src ! k"
    then show "ScanExclusiveCPUPeriodic_inner period po pi N i 0 0 m
        = Some (write_list m (po + i) (excl_scan (take period (drop i ?src))))"
      using assms excl_inner_spec [of ?src N i period pi m po 0 0]
      by (simp add: scan_excl_from_0)
  qed (use assms in \<open>auto simp: dvd_eq_mod_eq_0\<close>)
  then show ?thesis by (simp add: ScanExclusiveCPUPeriodic_def)
qed

lemma ScanInclusiveCPUPeriodic_result:
  assumes "0 < period" "N mod period = 0" "pi + N \<le> length mem" "po + N \<le> length mem"
    "po \<le> pi \<or> pi + N \<le> po"
  shows "ScanInclusiveCPUPeriodic period po pi N mem
           = Some (write_list mem po (periodic incl_scan period (take N (drop pi mem))))"
proof -
  let ?src = "take N (drop pi mem)"
  have "cpu_periodic_outer ScanInclusiveCPUPeriodic_inner period po pi N 0 mem
      = Some (write_list mem (po + 0) (periodic incl_scan period (drop 0 ?src)))"
  proof (rule cpu_periodic_outer_spec [where L = "length mem"])
    fix i and m :: store
    assume "i + period \<le> N" "length m = length mem"
      "\<forall>k. i \<le> k \<longrightarrow> k < N \<longrightarrow> m ! (pi + k) = ?src ! k"
    then show "ScanInclusiveCPUPeriodic_inner period po pi N i 0 0 m
        = Some (write_list m (po + i) (incl_scan (take period (drop i ?src))))"
      using assms incl_inner_spec [of ?src N i period pi m po 0 0]
      by (simp add: scan_incl_from_0)
  qed (use assms in \<open>auto simp: dvd_eq_mod_eq_0\<close>)
  then show ?thesis by (simp add: ScanInclusiveCPUPeriodic_def)
qed

lemma excl_inner_overrun:
  "i + j \<le> N \<Longrightarrow> N < i + period \<Longrightarrow>
   ScanExclusiveCPUPeriodic_inner period po pi N i j s mem = None"
proof (induction period po pi N i j s mem rule: ScanExclusiveCPUPeriodic_inner.induct)
  case (1 period po pi N i j s mem)
  have j: "j < period" using "1.prems" by linarith
  show ?case
  proof (cases "i + j = N")
    case True
    then show ?thesis
      using j by (simp add: ScanExclusiveCPUPeriodic_inner.simps [of period po pi N i j s mem] load_def)
  next
    case False
    then have "i + Suc j \<le> N" using "1.prems" by linarith
    then show ?thesis
      using "1.IH" [OF j] "1.prems" j
      by (auto simp: ScanExclusiveCPUPeriodic_inner.simps [of period po pi N i j s mem]
               split: Option.bind_splits)
  qed
qed

lemma incl_inner_overrun:
  "i + j \<le> N \<Longrightarrow> N < i + period \<Longrightarrow>
   ScanInclusiveCPUPeriodic_inner period po pi N i j s mem = None"
proof (induction period po pi N i j s mem rule: ScanInclusiveCPUPeriodic_inner.induct)
  case (1 period po pi N i j s mem)
  have j: "j < period" using "1.prems" by linarith
  show ?case
  proof (cases "i + j = N")
    case True
    then show ?thesis
      using j by (simp add: ScanInclusiveCPUPeriodic_inner.simps [of period po pi N i j s mem] load_def)
  next
    case False
    then have "i + Suc j \<le> N" using "1.prems" by linarith
    then show ?thesis
      using "1.IH" [OF j] "1.prems" j
      by (auto simp: ScanInclusiveCPUPeriodic_inner.simps [of period po pi N i j s mem]
               split: Option.bind_splits)
  qed
qed

lemma cpu_periodic_outer_overrun:
  assumes inner: "\<And>i mem. i < N \<Longrightarrow> N < i + period \<Longrightarrow> inner period po pi N i 0 0 mem = None"
    and P: "0 < period"
  shows "i \<le> N \<Longrightarrow> \<not> period dvd (N - i) \<Longrightarrow> cpu_periodic_outer inner period po pi N i mem = None"
proof (induction "N - i" arbitrary: i mem rule: less_induct)
  case less
  have iN: "i < N" using less.prems by (cases "i = N") auto
  show ?case
  proof (cases "N < i + period")
    case True
    then show ?thesis
      using iN inner by (simp add: cpu_periodic_outer.simps [of inner period po pi N i mem])
  next
    case False
    have ndvd: "\<not> period dvd (N - (i + period))"
    proof
      assume "period dvd (N - (i + period))"
      then have "period dvd (N - (i + period)) + period" by simp
      moreover have "(N - (i + period)) + period = N - i" using False by simp
      ultimately show False using less.prems(2) by simp
    qed
    have "cpu_periodic_outer inner period po pi N (i + period) m = None" for m
      using less.hyps [of "i + period" m] iN P False ndvd by simp
    then show ?thesis
      using iN by (simp add: cpu_periodic_outer.simps [of inner period po pi N i mem] split: Option.bind_split)
  qed
qed

lemma write_list_same:
  "a + length ys \<le> length mem \<Longrightarrow> write_list (write_list mem a ys) a ys = write_list mem a ys"
  by (simp add: write_list_splice)

lemma write_list_input_unchanged:
  "po + length ys \<le> pi \<or> pi + N \<le> po \<Longrightarrow> po + length ys \<le> length mem \<Longrightarrow>
   take N (drop pi (write_list mem po ys)) = take N (drop pi mem)"
  by (auto simp: write_list_splice drop_take take_take min_def)

lemma ScanCPUPeriodic_result:
  assumes "0 < period" "N mod period = 0" "pi + N \<le> length mem" "po + N \<le> length mem"
    "po \<le> pi \<or> pi + N \<le> po"
  shows "ScanCPUPeriodic st period po pi N mem = Some (write_list mem po
           (periodic (case st of Exclusive \<Rightarrow> excl_scan | Inclusive \<Rightarrow> incl_scan) period
              (take N (drop pi mem))))"
  using ScanExclusiveCPUPeriodic_result [OF assms] ScanInclusiveCPUPeriodic_result [OF assms]
  by (cases st) (simp_all add: ScanCPUPeriodic_def)

section \<open>Properties of the CPU oracle\<close>

text \<open>C1: \<open>ScanExclusiveCPUPeriodic\<close> returns whenever the period is positive and
  divides \<open>N\<close> and both buffers lie in the store, even when it runs in place or
  with \<open>out\<close> below \<open>in\<close>; output \<open>k\<close> is the sum of the inputs from the start
  of \<open>k\<close>'s period up to, not including, \<open>k\<close>, and nothing outside the output
  buffer changes.\<close>

theorem ScanExclusiveCPUPeriodic_correct:
  assumes "0 < period" "N mod period = 0" "pi + N \<le> length mem" "po + N \<le> length mem"
    "po \<le> pi \<or> pi + N \<le> po"
  shows "\<exists>mem'. ScanExclusiveCPUPeriodic period po pi N mem = Some mem' \<and> length mem' = length mem \<and>
     (\<forall>k<N. mem' ! (po + k) = (\<Sum>j = k - k mod period..<k. mem ! (pi + j))) \<and>
     (\<forall>p<length mem. p < po \<or> po + N \<le> p \<longrightarrow> mem' ! p = mem ! p)"
proof -
  let ?ys = "periodic excl_scan period (take N (drop pi mem))"
  have len: "length ?ys = N" using assms by (simp add: length_periodic)
  have "write_list mem po ?ys ! (po + k) = (\<Sum>j = k - k mod period..<k. mem ! (pi + j))"
    if k: "k < N" for k
    using k assms len buffer_segment_sum [of "k - k mod period" "k mod period" N pi mem]
    by (simp add: nth_write_list_inside nth_periodic_excl_scan)
  then show ?thesis
    using ScanExclusiveCPUPeriodic_result [OF assms] assms len
    by (simp add: nth_write_list_outside)
qed

theorem ScanExclusiveCPUPeriodic_correct_witness:
  "0 < (2::nat) \<and> (4::nat) mod 2 = 0 \<and> (0::nat) + 4 \<le> length [1, 2, 3, 4 :: int32] \<and>
   (\<exists>mem'. ScanExclusiveCPUPeriodic 2 0 0 4 [1, 2, 3, 4] = Some mem' \<and> length mem' = 4 \<and>
     (\<forall>k<4. mem' ! k = (\<Sum>j = k - k mod 2..<k. [1, 2, 3, 4 :: int32] ! j)))"
  using ScanExclusiveCPUPeriodic_correct [of 2 4 0 "[1, 2, 3, 4]" 0] by auto

text \<open>C2: \<open>ScanInclusiveCPUPeriodic\<close> under the same conditions returns, and output
  \<open>k\<close> is the sum of the inputs from the start of \<open>k\<close>'s period through \<open>k\<close>;
  nothing outside the output buffer changes.\<close>

theorem ScanInclusiveCPUPeriodic_correct:
  assumes "0 < period" "N mod period = 0" "pi + N \<le> length mem" "po + N \<le> length mem"
    "po \<le> pi \<or> pi + N \<le> po"
  shows "\<exists>mem'. ScanInclusiveCPUPeriodic period po pi N mem = Some mem' \<and> length mem' = length mem \<and>
     (\<forall>k<N. mem' ! (po + k) = (\<Sum>j = k - k mod period..k. mem ! (pi + j))) \<and>
     (\<forall>p<length mem. p < po \<or> po + N \<le> p \<longrightarrow> mem' ! p = mem ! p)"
proof -
  let ?ys = "periodic incl_scan period (take N (drop pi mem))"
  have len: "length ?ys = N" using assms by (simp add: length_periodic)
  have "write_list mem po ?ys ! (po + k) = (\<Sum>j = k - k mod period..k. mem ! (pi + j))"
    if k: "k < N" for k
    using k assms len buffer_segment_sum [of "k - k mod period" "Suc (k mod period)" N pi mem]
    by (simp add: nth_write_list_inside nth_periodic_incl_scan atLeastLessThanSuc_atLeastAtMost)
  then show ?thesis
    using ScanInclusiveCPUPeriodic_result [OF assms] assms len
    by (simp add: nth_write_list_outside)
qed

theorem ScanInclusiveCPUPeriodic_correct_witness:
  "0 < (2::nat) \<and> (4::nat) mod 2 = 0 \<and> (0::nat) + 4 \<le> length [1, 2, 3, 4 :: int32] \<and>
   (\<exists>mem'. ScanInclusiveCPUPeriodic 2 0 0 4 [1, 2, 3, 4] = Some mem' \<and> length mem' = 4 \<and>
     (\<forall>k<4. mem' ! k = (\<Sum>j = k - k mod 2..k. [1, 2, 3, 4 :: int32] ! j)))"
  using ScanInclusiveCPUPeriodic_correct [of 2 4 0 "[1, 2, 3, 4]" 0] by auto

text \<open>C3: when \<open>N\<close> is not a multiple of the period, both periodic scans read
  \<open>in[N]\<close>, past the end of the input buffer: the oracle has no defined result.\<close>

theorem ScanCPUPeriodic_partial_segment:
  "0 < period \<Longrightarrow> N mod period \<noteq> 0 \<Longrightarrow> ScanCPUPeriodic st period po pi N mem = None"
  unfolding ScanCPUPeriodic_def ScanExclusiveCPUPeriodic_def ScanInclusiveCPUPeriodic_def
  by (cases st) (auto intro!: cpu_periodic_outer_overrun
      simp: excl_inner_overrun incl_inner_overrun dvd_eq_mod_eq_0)

theorem ScanCPUPeriodic_partial_segment_witness:
  "0 < (32::nat) \<and> (40::nat) mod 32 \<noteq> 0 \<and>
   ScanCPUPeriodic Exclusive 32 0 40 40 (replicate 80 0) = None"
  using ScanCPUPeriodic_partial_segment [of 32 40 Exclusive 0 40 "replicate 80 0"] by simp



end
