(* ===== verification/WarpScan.thy ===== *)
theory WarpScan
  imports Prelude
begin

text \<open>
  The warp-scan primitives.  Their headers (\<open>scanWarp.cuh\<close>, \<open>scanWarpShuffle.cuh\<close>,
  \<open>scanZeroPad.cuh\<close>) are not among the sources, so this theory models them from the
  specification (section 4.1): a Hillis--Steele scan in \<open>log2 32 = 5\<close> rounds; in
  round \<open>k\<close> lane \<open>i\<close> adds the value of lane \<open>i - 2^k\<close>, or nothing when that lane
  does not exist.  A warp is a list of lane values, lane 0 first; a round is
  lockstep: every lane reads the values of the previous round.  Three strategies:
  \<^item> \<open>scanWarp\<close>: shared memory with the bounds check \<open>lane >= offset\<close>;
  \<^item> \<open>scanWarp_zeropad\<close>: 16 zeroed slots before the lanes, unconditional reads;
  \<^item> \<open>inclusive_scan_warp_shfl\<close>: \<open>shfl.up\<close> with its validity predicate.
  \<open>scanWarpExclusive\<close> subtracts each lane's own value.  \<open>scanWarp_sequential\<close>
  is what one round would do without lockstep (lanes updating one after the other,
  in lane order): it shows why the lockstep assumption matters.
\<close>

definition warpSize :: nat where
  "warpSize = 32"

definition scanWarp_round :: "nat \<Rightarrow> 'a::comm_monoid_add list \<Rightarrow> 'a list" where
  "scanWarp_round offset xs =
     map (\<lambda>lane. if offset \<le> lane then xs ! lane + xs ! (lane - offset) else xs ! lane)
       [0..<length xs]"

definition hs_scan :: "nat \<Rightarrow> 'a::comm_monoid_add list \<Rightarrow> 'a list" where
  "hs_scan levels xs = fold scanWarp_round (map (\<lambda>r. 2 ^ r) [0..<levels]) xs"

definition scanWarp :: "'a::comm_monoid_add list \<Rightarrow> 'a list" where
  "scanWarp xs = hs_scan 5 xs"

definition scanWarpExclusive :: "'a::ab_group_add list \<Rightarrow> 'a list" where
  "scanWarpExclusive xs = map2 (-) (scanWarp xs) xs"

text \<open>Zero padding: the buffer is \<open>16\<close> zeros followed by the lanes; lane \<open>i\<close>
  sits at \<open>16 + i\<close> and adds slot \<open>16 + i - offset\<close> unconditionally.\<close>

definition zeroPad :: nat where
  "zeroPad = 16"

definition scanWarp_zeropad_round :: "nat \<Rightarrow> 'a::comm_monoid_add list \<Rightarrow> 'a list" where
  "scanWarp_zeropad_round offset buf =
     take zeroPad buf @
     map (\<lambda>lane. buf ! (zeroPad + lane) + buf ! (zeroPad + lane - offset))
       [0..<length buf - zeroPad]"

definition scanWarp_zeropad :: "'a::comm_monoid_add list \<Rightarrow> 'a list" where
  "scanWarp_zeropad xs =
     drop zeroPad (fold scanWarp_zeropad_round (map (\<lambda>r. 2 ^ r) [0..<5])
       (replicate zeroPad 0 @ xs))"

text \<open>Shuffle: \<open>shfl.up\<close> returns the value of lane \<open>i - offset\<close> and sets the
  predicate when that lane exists; otherwise it returns the caller's own value and
  the predicated add is skipped.\<close>

definition shfl_up :: "'a list \<Rightarrow> nat \<Rightarrow> nat \<Rightarrow> 'a \<times> bool" where
  "shfl_up xs offset lane =
     (if offset \<le> lane then (xs ! (lane - offset), True) else (xs ! lane, False))"

definition shfl_round :: "nat \<Rightarrow> 'a::comm_monoid_add list \<Rightarrow> 'a list" where
  "shfl_round offset xs =
     map (\<lambda>lane. case shfl_up xs offset lane of (y, p) \<Rightarrow> if p then xs ! lane + y else xs ! lane)
       [0..<length xs]"

definition inclusive_scan_warp_shfl :: "'a::comm_monoid_add list \<Rightarrow> 'a list" where
  "inclusive_scan_warp_shfl xs = fold shfl_round (map (\<lambda>r. 2 ^ r) [0..<5]) xs"

text \<open>One round without lockstep: lanes update the buffer one after another in
  lane order, each reading what is there at that moment.\<close>

definition sequential_round :: "nat \<Rightarrow> 'a::comm_monoid_add list \<Rightarrow> 'a list" where
  "sequential_round offset xs =
     fold (\<lambda>lane buf. if offset \<le> lane then buf[lane := buf ! lane + buf ! (lane - offset)] else buf)
       [0..<length xs] xs"

definition scanWarp_sequential :: "'a::comm_monoid_add list \<Rightarrow> 'a list" where
  "scanWarp_sequential xs = fold sequential_round (map (\<lambda>r. 2 ^ r) [0..<5]) xs"

definition window :: "nat \<Rightarrow> 'a::comm_monoid_add list \<Rightarrow> nat \<Rightarrow> 'a" where
  "window w xs i = (\<Sum>j = Suc i - min (Suc i) w..<Suc i. xs ! j)"

section \<open>The lockstep scan computes the prefix sums\<close>

lemma length_scanWarp_round [simp]: "length (scanWarp_round d xs) = length xs"
  by (simp add: scanWarp_round_def)

lemma window_double:
  assumes "d \<le> i"
  shows "window d xs i + window d xs (i - d) = window (2 * d) xs i"
proof -
  let ?a = "Suc i - min (Suc i) (2 * d)"
  have idx: "Suc i - min (Suc i) d = Suc (i - d)" using assms by (simp add: min_def)
  have e1: "window d xs i = (\<Sum>j = Suc (i - d)..<Suc i. xs ! j)"
    by (simp only: window_def idx)
  have "Suc (i - d) - min (Suc (i - d)) d = ?a"
    using assms by (simp add: min_def mult_2)
  then have e2: "window d xs (i - d) = (\<Sum>j = ?a..<Suc (i - d). xs ! j)"
    by (simp only: window_def)
  have le: "?a \<le> Suc (i - d)" using assms by (simp add: min_def) linarith
  have "(\<Sum>j = ?a..<Suc (i - d). xs ! j) + (\<Sum>j = Suc (i - d)..<Suc i. xs ! j)
      = (\<Sum>j = ?a..<Suc i. xs ! j)"
    using le assms by (intro sum.atLeastLessThan_concat) simp_all
  moreover have e3: "window (2 * d) xs i = (\<Sum>j = ?a..<Suc i. xs ! j)"
    by (simp only: window_def)
  ultimately show ?thesis
    unfolding e1 e2 e3 by (simp add: add_ac)
qed

lemma window_saturated:
  "i < d \<Longrightarrow> window (2 * d) xs i = window d xs i"
  by (simp add: window_def min_def)

lemma scanWarp_round_window:
  assumes "\<forall>i<length ys. ys ! i = window d xs i" "length ys = length xs"
  shows "\<forall>i<length ys. scanWarp_round d ys ! i = window (2 * d) xs i"
  using assms by (auto simp: scanWarp_round_def window_double window_saturated)

lemma fold_scanWarp_round_window:
  "\<forall>i<length xs. fold scanWarp_round (map (\<lambda>r. 2 ^ r) [0..<k]) xs ! i = window (2 ^ k) xs i"
proof (induction k)
  case 0
  then show ?case by (simp add: window_def)
next
  case (Suc k)
  have len: "length (fold scanWarp_round (map (\<lambda>r. 2 ^ r) [0..<k]) xs) = length xs"
    by (induction k) simp_all
  show ?case
    using scanWarp_round_window [of "fold scanWarp_round (map (\<lambda>r. 2 ^ r) [0..<k]) xs" "2 ^ k" xs] Suc len
    by simp
qed

lemma length_fold_scanWarp_round [simp]:
  "length (fold scanWarp_round ds xs) = length xs"
  by (induction ds arbitrary: xs) simp_all

lemma window_prefix:
  "i < length xs \<Longrightarrow> Suc i \<le> w \<Longrightarrow> window w xs i = sum_list (take (Suc i) xs)"
  using sum_list_take_drop [of 0 "Suc i" xs] by (simp add: window_def min_def)

lemma hs_scan_incl_scan:
  "length xs \<le> 2 ^ levels \<Longrightarrow> hs_scan levels xs = incl_scan xs"
  by (rule nth_equalityI)
     (simp_all add: hs_scan_def fold_scanWarp_round_window window_prefix)

lemma scanWarp_zeropad_round_pad:
  assumes "offset \<le> zeroPad"
  shows "scanWarp_zeropad_round offset (replicate zeroPad 0 @ ys)
       = replicate zeroPad 0 @ scanWarp_round offset ys"
proof -
  have "ys ! lane + (replicate zeroPad 0 @ ys) ! (zeroPad + lane - offset)
      = (if offset \<le> lane then ys ! lane + ys ! (lane - offset) else ys ! lane)" for lane
    using assms by (auto simp: nth_append)
  then show ?thesis
    by (simp add: scanWarp_zeropad_round_def scanWarp_round_def nth_append)
qed

lemma fold_zeropad_round:
  "\<forall>d\<in>set ds. d \<le> zeroPad \<Longrightarrow>
   fold scanWarp_zeropad_round ds (replicate zeroPad 0 @ ys)
     = replicate zeroPad 0 @ fold scanWarp_round ds ys"
  by (induction ds arbitrary: ys) (simp_all add: scanWarp_zeropad_round_pad)

lemma shfl_round_eq: "shfl_round offset xs = scanWarp_round offset xs"
  by (simp add: shfl_round_def scanWarp_round_def shfl_up_def)

lemma length_scanWarp [simp]: "length (scanWarp xs) = length xs"
  by (simp add: scanWarp_def hs_scan_def)

lemma shfl_scan_eq_scanWarp: "inclusive_scan_warp_shfl xs = scanWarp xs"
  by (simp add: inclusive_scan_warp_shfl_def scanWarp_def hs_scan_def shfl_round_eq [abs_def])

lemma scanWarp_eq_incl_scan:
  "length xs \<le> warpSize \<Longrightarrow> scanWarp xs = incl_scan xs"
  by (simp add: scanWarp_def hs_scan_incl_scan warpSize_def)

lemma scanWarpExclusive_eq_excl_scan:
  assumes "length xs \<le> warpSize"
  shows "scanWarpExclusive (xs :: 'a::ab_group_add list) = excl_scan xs"
proof (rule nth_equalityI)
  have s: "scanWarp xs = incl_scan xs" using assms by (rule scanWarp_eq_incl_scan)
  show "length (scanWarpExclusive xs) = length (excl_scan xs)"
    by (simp add: scanWarpExclusive_def s)
  fix i assume "i < length (scanWarpExclusive xs)"
  then show "scanWarpExclusive xs ! i = excl_scan xs ! i"
    by (simp add: scanWarpExclusive_def s take_Suc_conv_app_nth)
qed

section \<open>The three strategies agree\<close>

text \<open>Zero padding replaces the bounds check, and the shuffle with its predicate
  replaces the shared-memory read.\<close>

lemma scanWarp_strategies_agree:
  "scanWarp_zeropad xs = scanWarp xs \<and> inclusive_scan_warp_shfl xs = scanWarp xs"
proof
  have pad: "\<forall>d\<in>set (map (\<lambda>r. 2 ^ r) [0..<5]). d \<le> (zeroPad::nat)"
    by (simp add: zeroPad_def upt_rec)
  show "scanWarp_zeropad xs = scanWarp xs"
    using fold_zeropad_round [OF pad, of xs]
    by (simp add: scanWarp_zeropad_def scanWarp_def hs_scan_def)
  show "inclusive_scan_warp_shfl xs = scanWarp xs"
    by (simp add: inclusive_scan_warp_shfl_def scanWarp_def hs_scan_def shfl_round_eq [abs_def])
qed

text \<open>The correctness of the rounds rests on lockstep execution within a warp:
  if the lanes of a round updated the buffer one after another, lane 2 would read
  the value lane 1 had already updated, and on three lanes holding 1 the scan
  would end with 4 instead of 3.\<close>

lemma scanWarp_requires_lockstep:
  "scanWarp_sequential [1, 1, 1 :: int32] = [1, 2, 4] \<and>
   scanWarp [1, 1, 1 :: int32] = [1, 2, 3] \<and> incl_scan [1, 1, 1 :: int32] = [1, 2, 3]"
  by code_simp

end
