(* ===== verification/BlockScan.thy ===== *)
theory BlockScan
  imports WarpScan
begin

text \<open>
  The block scan \<open>scanBlock\<close> (header \<open>scanBlock.cuh\<close>, not among the sources;
  modelled from section 4.2 of the specification).  The kernel calls it as
  \<open>scanBlock<int,false>( sPartials+tid, scanWarp<int,false> )\<close>: the warp scan is a
  parameter, and so it is here.  The block's values are a list, thread \<open>tid\<close> in
  warp \<open>tid div 32\<close>.  Step 1: every warp scans its 32 values
  (\<open>periodic scanWarpFunc 32\<close>); step 2: lane 31 of each warp writes the warp's
  total to \<open>warpPartials\<close>; step 3: warp 0 scans \<open>warpPartials\<close>; step 4: every
  thread of warp \<open>w > 0\<close> adds entry \<open>w - 1\<close> (the carry-in).  The barriers between
  the steps are what makes this a sequence of whole-block steps.  The interface
  between the two components is the contract of the warp scan
  (\<open>scanWarpFunc ys = incl_scan ys\<close> for at most 32 lanes): \<open>scanBlock_incl_scan\<close>
  holds for any warp scan that meets it, and the three strategies of
  \<open>WarpScan\<close> do.
\<close>

definition scanBlock :: "('a list \<Rightarrow> 'a list) \<Rightarrow> 'a::comm_monoid_add list \<Rightarrow> 'a list" where
  "scanBlock scanWarpFunc xs =
     (let sums = periodic scanWarpFunc warpSize xs;
          warpPartials = map (\<lambda>w. sums ! (w * warpSize + (warpSize - 1))) [0..<length xs div warpSize];
          carries = scanWarpFunc warpPartials
      in map (\<lambda>tid. if 0 < tid div warpSize then sums ! tid + carries ! (tid div warpSize - 1)
                     else sums ! tid) [0..<length xs])"

text \<open>The block scans on top of the shuffle warp scan that \<open>ScanGPUBlockShuffle\<close>
  calls (\<open>inclusive_scan_block\<close>, \<open>exclusive_scan_block\<close>); the exclusive one
  subtracts each thread's own value, as the specification describes.\<close>

definition inclusive_scan_block :: "'a::comm_monoid_add list \<Rightarrow> 'a list" where
  "inclusive_scan_block xs = scanBlock inclusive_scan_warp_shfl xs"

definition exclusive_scan_block :: "'a::ab_group_add list \<Rightarrow> 'a list" where
  "exclusive_scan_block xs = map2 (-) (inclusive_scan_block xs) xs"

section \<open>Refinement: the two-level scan is the block-wide scan\<close>

lemma scanBlock_incl_scan:
  assumes warp: "\<And>ys. length ys \<le> warpSize \<Longrightarrow> scanWarpFunc ys = incl_scan ys"
    and len: "length xs = nwarps * warpSize" and nw: "nwarps \<le> warpSize"
  shows "scanBlock scanWarpFunc xs = incl_scan (xs :: 'a::comm_monoid_add list)"
proof -
  let ?sums = "periodic scanWarpFunc 32 xs"
  let ?parts = "map (\<lambda>v. sum_list (take 32 (drop (v * 32) xs))) [0..<nwarps]"
  have warp32: "\<And>ys. length ys \<le> 32 \<Longrightarrow> scanWarpFunc ys = incl_scan ys"
    using warp by (simp add: warpSize_def)
  have len32: "length xs = nwarps * 32" and nw32: "nwarps \<le> 32"
    using len nw by (simp_all add: warpSize_def)
  have sums: "?sums = periodic incl_scan 32 xs" using warp32 by (rule periodic_cong)
  have sums_nth: "?sums ! tid = sum_list (take (Suc (tid mod 32)) (drop (tid div 32 * 32) xs))"
    if "tid < length xs" for tid
    using that by (simp add: sums nth_periodic_incl_scan minus_mod_eq_div_mult)
  have part_nth: "?sums ! (v * 32 + 31) = sum_list (take 32 (drop (v * 32) xs))"
    if "v < nwarps" for v
  proof -
    have "v * 32 + 31 < length xs" using that len32 by linarith
    then show ?thesis by (simp add: sums_nth)
  qed
  have parts: "map (\<lambda>w. ?sums ! (w * 32 + 31)) [0..<length xs div 32] = ?parts"
    using len32 by (simp add: part_nth)
  have carries: "scanWarpFunc ?parts = incl_scan ?parts"
    using nw32 by (intro warp32) simp
  show ?thesis
  proof (rule nth_equalityI)
    show "length (scanBlock scanWarpFunc xs) = length (incl_scan xs)"
      by (simp add: scanBlock_def Let_def)
    fix tid assume "tid < length (scanBlock scanWarpFunc xs)"
    then have tid: "tid < length xs" by (simp add: scanBlock_def Let_def)
    let ?w = "tid div 32"
    have w: "?w \<le> nwarps" using tid len32 by simp
    have split: "sum_list (take (Suc tid) xs)
        = sum_list (take (?w * 32) xs) + sum_list (take (Suc (tid mod 32)) (drop (?w * 32) xs))"
      using sum_list_take_split [of "?w * 32" "Suc tid" xs] by (simp add: minus_mod_eq_div_mult [symmetric] Suc_diff_le)
    have unf: "scanBlock scanWarpFunc xs ! tid
        = (if 0 < ?w then ?sums ! tid + incl_scan ?parts ! (?w - 1) else ?sums ! tid)"
      using tid by (simp add: scanBlock_def Let_def warpSize_def parts carries)
    show "scanBlock scanWarpFunc xs ! tid = incl_scan xs ! tid"
    proof (cases "0 < ?w")
      case True
      have "?w * 32 \<le> length xs" using tid by (metis div_times_less_eq_dividend le_trans less_imp_le_nat)
      then show ?thesis
        using True tid w sum_take_chunks [of ?w nwarps 32 xs] unfolding unf
        by (simp add: sums_nth split add.commute)
    next
      case False
      then have "tid < 32" by simp
      then show ?thesis
        using tid unfolding unf by (simp add: sums_nth)
    qed
  qed
qed

end
