(* ===== verification/GpuScan.thy ===== *)
theory GpuScan
  imports CpuScan BlockScan
begin

text \<open>
  The GPU kernels of \<open>src/scan/warp/testScanBlock.cu\<close> and their host launchers.
  Every kernel has the same loop,
  \<open>for (i = blockIdx.x*blockDim.x; i < N; i += blockDim.x) { \<dots> }\<close>, whose body
  loads the segment \<open>in[i .. i+blockDim.x)\<close> into shared memory, scans it, and
  writes it to \<open>out[i .. i+blockDim.x)\<close>.  A body is a \<open>segment_fn\<close>: from the
  block size, the input buffer and \<open>i\<close>, the values the block writes, or \<open>None\<close>
  when the segment reaches past the \<open>N\<close>-element input.  The kernels differ only in
  their bodies (\<open>ScanGPUWarp_body\<close>, \<open>ScanGPUBlock_body\<close>, \<dots>).

  The grid is a step relation \<open>grid_step\<close>: the state holds the output buffer, each
  block's loop variable \<open>i\<close>, the number of loop iterations run so far and a fault
  flag; one step is one loop iteration of one block, chosen freely, since the
  hardware schedules blocks in any order.  An iteration is one step because blocks
  share nothing but \<open>in\<close>, which no kernel writes, and \<open>out\<close>, where two blocks
  that write the same segment write the same values.  The threads inside a block
  are not interleaved here: between barriers the block-level definitions of
  \<open>WarpScan\<close> and \<open>BlockScan\<close> describe them.

  The launchers compute \<open>cBlocks = N/150\<close>, capped at 150 (lines 160--163, repeated
  in every launcher), and launch that many blocks; a launch with no block fails
  and the failure is never checked, so the output buffer stays as it was.
\<close>

type_synonym segment_fn = "nat \<Rightarrow> int32 list \<Rightarrow> nat \<Rightarrow> int32 list option"

section \<open>Launch configuration\<close>

definition launch_cBlocks :: "nat \<Rightarrow> nat" where
  "launch_cBlocks N = (let cBlocks = N div 150 in if cBlocks > 150 then 150 else cBlocks)"

section \<open>Kernel bodies\<close>

text \<open>\<open>sPartials[threadIdx.x] = in[i+threadIdx.x]\<close> for every thread of the block.\<close>

definition load_segment :: "nat \<Rightarrow> int32 list \<Rightarrow> nat \<Rightarrow> int32 list option" where
  "load_segment blockDim inp i =
     (if i + blockDim \<le> length inp then Some (take blockDim (drop i inp)) else None)"

text \<open>\<open>ScanGPUWarp\<close> (lines 134--150): each warp of the block scans its own 32
  values, inclusive or exclusive.\<close>

definition ScanGPUWarp_body :: "ScanType \<Rightarrow> segment_fn" where
  "ScanGPUWarp_body scantype blockDim inp i =
     map_option (\<lambda>sPartials.
        if scantype = Inclusive then periodic scanWarp warpSize sPartials
        else periodic scanWarpExclusive warpSize sPartials)
       (load_segment blockDim inp i)"

text \<open>\<open>ScanGPUBlock\<close> (lines 169--186): \<open>scanBlock\<close> leaves every thread's inclusive
  value in its slot of \<open>sPartials\<close> and returns it; for an exclusive scan the
  thread then reads its left neighbour's slot, \<open>(tid) ? sPartials[tid-1] : 0\<close>.\<close>

definition ScanGPUBlock_body :: "ScanType \<Rightarrow> segment_fn" where
  "ScanGPUBlock_body scantype blockDim inp i =
     map_option (\<lambda>seg.
        let sPartials = scanBlock scanWarp seg in
        if scantype = Exclusive
        then map (\<lambda>tid. if tid \<noteq> 0 then sPartials ! (tid - 1) else 0) [0..<blockDim]
        else sPartials)
       (load_segment blockDim inp i)"

text \<open>\<open>ScanGPUBlockShuffle\<close> (lines 205--221): registers only.\<close>

definition ScanGPUBlockShuffle_body :: "ScanType \<Rightarrow> segment_fn" where
  "ScanGPUBlockShuffle_body scantype blockDim inp i =
     map_option (\<lambda>myValue.
        if scantype = Exclusive then exclusive_scan_block myValue else inclusive_scan_block myValue)
       (load_segment blockDim inp i)"

text \<open>\<open>ScanInclusiveGPUWarp_0\<close> (lines 251--265): the zero-padded warp scan;
  \<open>sPartials[sIndex-16] = 0\<close> is the padding \<open>scanWarp_zeropad\<close> reads.\<close>

definition ScanInclusiveGPUWarp_0_body :: segment_fn where
  "ScanInclusiveGPUWarp_0_body blockDim inp i =
     map_option (\<lambda>sPartials. periodic scanWarp_zeropad warpSize sPartials) (load_segment blockDim inp i)"

text \<open>\<open>ScanExclusiveGPUWarp_0\<close> (lines 284--298): \<open>scanWarpExclusive<int,true>\<close>,
  the zero-padded scan minus the lane's own value.\<close>

definition ScanExclusiveGPUWarp_0_body :: segment_fn where
  "ScanExclusiveGPUWarp_0_body blockDim inp i =
     map_option (\<lambda>sPartials. periodic (\<lambda>ys. map2 (-) (scanWarp_zeropad ys) ys) warpSize sPartials)
       (load_segment blockDim inp i)"

text \<open>The two zero-padded kernels, selected by the scan type as the launchers
  \<open>ScanInclusiveGPU_0\<close> and \<open>ScanExclusiveGPU_0\<close> select them.\<close>

definition ScanGPUWarp_0_body :: "ScanType \<Rightarrow> segment_fn" where
  "ScanGPUWarp_0_body scantype =
     (if scantype = Inclusive then ScanInclusiveGPUWarp_0_body else ScanExclusiveGPUWarp_0_body)"

text \<open>\<open>ScanGPUWarpShuffle\<close> (lines 373--387): the shuffle warp scan on registers.\<close>

definition ScanGPUWarpShuffle_body :: "ScanType \<Rightarrow> segment_fn" where
  "ScanGPUWarpShuffle_body scantype blockDim inp i =
     map_option (\<lambda>v.
        if scantype = Inclusive then periodic inclusive_scan_warp_shfl warpSize v
        else periodic (\<lambda>ys. map2 (-) (inclusive_scan_warp_shfl ys) ys) warpSize v)
       (load_segment blockDim inp i)"

text \<open>\<open>ScanInclusiveGPUWarp2\<close> (lines 317--328): the loop of \<open>ScanGPUWarp\<close> with
  the warp scan \<open>scanWarp2<int,false>\<close> of \<open>scanWarp2.cuh\<close>.  That header is not
  among the sources, so the warp scan is a parameter: what the 32 lanes of a
  warp return when each calls it on its slot of \<open>sPartials\<close> after the barrier.\<close>

definition ScanInclusiveGPUWarp2_body :: "(int32 list \<Rightarrow> int32 list) \<Rightarrow> segment_fn" where
  "ScanInclusiveGPUWarp2_body scanWarp2 blockDim inp i =
     map_option (\<lambda>sPartials. periodic scanWarp2 warpSize sPartials) (load_segment blockDim inp i)"

text \<open>\<open>ScanExclusiveGPUWarp2\<close> (lines 345--356), with \<open>scanWarpExclusive2\<close>.\<close>

definition ScanExclusiveGPUWarp2_body :: "(int32 list \<Rightarrow> int32 list) \<Rightarrow> segment_fn" where
  "ScanExclusiveGPUWarp2_body scanWarpExclusive2 blockDim inp i =
     map_option (\<lambda>sPartials. periodic scanWarpExclusive2 warpSize sPartials) (load_segment blockDim inp i)"

section \<open>The grid\<close>

record grid_state =
  dev_out :: "int32 list"
  block_i :: "nat list"
  iterations :: nat
  fault :: bool

definition grid_init :: "nat \<Rightarrow> nat \<Rightarrow> int32 list \<Rightarrow> grid_state" where
  "grid_init cBlocks blockDim out =
     \<lparr>dev_out = out, block_i = map (\<lambda>b. b * blockDim) [0..<cBlocks], iterations = 0, fault = False\<rparr>"

inductive grid_step :: "segment_fn \<Rightarrow> nat \<Rightarrow> int32 list \<Rightarrow> grid_state \<Rightarrow> grid_state \<Rightarrow> bool"
  for body :: segment_fn and blockDim :: nat and inp :: "int32 list" where
  iteration:
    "\<not> fault s \<Longrightarrow> b < length (block_i s) \<Longrightarrow> block_i s ! b < length inp \<Longrightarrow>
     body blockDim inp (block_i s ! b) = Some vals \<Longrightarrow>
     grid_step body blockDim inp s
       (s\<lparr>dev_out := write_list (dev_out s) (block_i s ! b) vals,
          block_i := (block_i s)[b := block_i s ! b + blockDim],
          iterations := Suc (iterations s)\<rparr>)"
| out_of_bounds:
    "\<not> fault s \<Longrightarrow> b < length (block_i s) \<Longrightarrow> block_i s ! b < length inp \<Longrightarrow>
     body blockDim inp (block_i s ! b) = None \<Longrightarrow>
     grid_step body blockDim inp s (s\<lparr>fault := True\<rparr>)"

inductive_cases grid_stepE: "grid_step body blockDim inp s t"

definition grid_done :: "int32 list \<Rightarrow> grid_state \<Rightarrow> bool" where
  "grid_done inp s \<longleftrightarrow> fault s \<or> (\<forall>b<length (block_i s). length inp \<le> block_i s ! b)"

text \<open>The contract between the grid and a kernel body: at every segment start
  that is a multiple of the block size and fits in the input, the body writes
  \<open>f\<close> of the segment.\<close>

definition body_refines :: "segment_fn \<Rightarrow> (int32 list \<Rightarrow> int32 list) \<Rightarrow> nat \<Rightarrow> int32 list \<Rightarrow> bool" where
  "body_refines body f blockDim inp \<longleftrightarrow>
     (\<forall>i. blockDim dvd i \<longrightarrow> i + blockDim \<le> length inp \<longrightarrow>
        body blockDim inp i = Some (f (take blockDim (drop i inp))))"

text \<open>The grid invariant: no fault; every block's \<open>i\<close> is a multiple of
  \<open>blockDim\<close> between its start and \<open>N\<close>; the output below block 0's \<open>i\<close> already
  holds the segmented scan; every iteration advanced one \<open>i\<close> by \<open>blockDim\<close>.\<close>

definition grid_inv ::
  "(int32 list \<Rightarrow> int32 list) \<Rightarrow> nat \<Rightarrow> int32 list \<Rightarrow> nat \<Rightarrow> grid_state \<Rightarrow> bool" where
  "grid_inv f B inp cBlocks s \<longleftrightarrow>
     \<not> fault s \<and> length (dev_out s) = length inp \<and> length (block_i s) = cBlocks \<and>
     (\<forall>b<cBlocks. B dvd block_i s ! b \<and> b * B \<le> block_i s ! b \<and>
                  block_i s ! b \<le> max (b * B) (length inp)) \<and>
     (0 < cBlocks \<longrightarrow>
        (\<forall>p<min (block_i s ! 0) (length inp). dev_out s ! p = periodic f B inp ! p)) \<and>
     iterations s * B + (\<Sum>b<cBlocks. b * B) = sum_list (block_i s)"

text \<open>What decreases at every step: the distance of every block to \<open>N\<close>.\<close>

definition grid_measure :: "int32 list \<Rightarrow> grid_state \<Rightarrow> nat" where
  "grid_measure inp s = (if fault s then 0 else Suc (sum_list (map (\<lambda>i. length inp - i) (block_i s))))"

definition scan_of :: "ScanType \<Rightarrow> int32 list \<Rightarrow> int32 list" where
  "scan_of scantype = (case scantype of Inclusive \<Rightarrow> incl_scan | Exclusive \<Rightarrow> excl_scan)"

text \<open>The host side: \<open>out'\<close> is a possible content of the output buffer after the
  launcher returns and the device is synchronised.\<close>

definition launch_outcome ::
  "segment_fn \<Rightarrow> nat \<Rightarrow> int32 list \<Rightarrow> int32 list \<Rightarrow> int32 list \<Rightarrow> bool" where
  "launch_outcome body cThreads inp out out' \<longleftrightarrow>
     (if launch_cBlocks (length inp) = 0 then out' = out
      else \<exists>s. (grid_step body cThreads inp)\<^sup>*\<^sup>* (grid_init (launch_cBlocks (length inp)) cThreads out) s \<and>
              grid_done inp s \<and> \<not> fault s \<and> out' = dev_out s)"

section \<open>Host launchers\<close>

text \<open>Every launcher has the signature \<open>(int *out, const int *in, size_t N, int
  cThreads)\<close>; as a relation it relates the block size, the input buffer and the
  output buffer before the launch to a possible output buffer after it.\<close>

type_synonym launcher = "nat \<Rightarrow> int32 list \<Rightarrow> int32 list \<Rightarrow> int32 list \<Rightarrow> bool"

definition ScanGPU :: "ScanType \<Rightarrow> launcher" where
  "ScanGPU scantype cThreads inp out out' =
     launch_outcome (ScanGPUWarp_body scantype) cThreads inp out out'"

definition ScanGPUBlock :: "ScanType \<Rightarrow> launcher" where
  "ScanGPUBlock scantype cThreads inp out out' =
     launch_outcome (ScanGPUBlock_body scantype) cThreads inp out out'"

text \<open>\<open>ScanGPUBlockShuffle\<close> (lines 223--249): the \<open>switch (cThreads)\<close> launches
  the shuffle kernel with \<open>logBlockSize\<close> 7 to 10 and returns; any other block
  size falls through to the shared-memory kernel \<open>ScanGPUBlock\<close>.\<close>

definition ScanGPUBlockShuffle :: "ScanType \<Rightarrow> launcher" where
  "ScanGPUBlockShuffle scantype cThreads inp out out' =
     (if cThreads = 128 \<or> cThreads = 256 \<or> cThreads = 512 \<or> cThreads = 1024
      then launch_outcome (ScanGPUBlockShuffle_body scantype) cThreads inp out out'
      else launch_outcome (ScanGPUBlock_body scantype) cThreads inp out out')"

definition ScanInclusiveGPU_0 :: launcher where
  "ScanInclusiveGPU_0 cThreads inp out out' =
     launch_outcome ScanInclusiveGPUWarp_0_body cThreads inp out out'"

definition ScanExclusiveGPU_0 :: launcher where
  "ScanExclusiveGPU_0 cThreads inp out out' =
     launch_outcome ScanExclusiveGPUWarp_0_body cThreads inp out out'"

text \<open>\<open>ScanInclusiveGPU2\<close> (lines 330--343) and \<open>ScanExclusiveGPU2\<close>
  (lines 358--371), over the warp scans of \<open>scanWarp2.cuh\<close>.\<close>

definition ScanInclusiveGPU2 :: "(int32 list \<Rightarrow> int32 list) \<Rightarrow> launcher" where
  "ScanInclusiveGPU2 scanWarp2 cThreads inp out out' =
     launch_outcome (ScanInclusiveGPUWarp2_body scanWarp2) cThreads inp out out'"

definition ScanExclusiveGPU2 :: "(int32 list \<Rightarrow> int32 list) \<Rightarrow> launcher" where
  "ScanExclusiveGPU2 scanWarpExclusive2 cThreads inp out out' =
     launch_outcome (ScanExclusiveGPUWarp2_body scanWarpExclusive2) cThreads inp out out'"

definition ScanGPUShuffle :: "ScanType \<Rightarrow> launcher" where
  "ScanGPUShuffle scantype cThreads inp out out' =
     launch_outcome (ScanGPUWarpShuffle_body scantype) cThreads inp out out'"

text \<open>The contract a launcher offers its caller, the test harness: on an input
  of length \<open>N\<close> with block size \<open>cThreads\<close>, the launch has an outcome and
  every outcome is \<open>f\<close> applied segment by segment.\<close>

definition launcher_computes :: "launcher \<Rightarrow> (int32 list \<Rightarrow> int32 list) \<Rightarrow> nat \<Rightarrow> int32 list \<Rightarrow> bool" where
  "launcher_computes gpu f cThreads inp \<longleftrightarrow>
     (\<forall>out. length out = length inp \<longrightarrow>
        (\<exists>out'. gpu cThreads inp out out') \<and>
        (\<forall>out'. gpu cThreads inp out out' \<longrightarrow> out' = periodic f cThreads inp))"

section \<open>The grid invariant\<close>

lemma grid_inv_init:
  "length out = length inp \<Longrightarrow> grid_inv f B inp cBlocks (grid_init cBlocks B out)"
  by (simp add: grid_inv_def grid_init_def sum_list_sum_nth atLeast0LessThan)

lemma grid_step_inv:
  assumes step: "grid_step body B inp s t" and inv: "grid_inv f B inp cBlocks s"
    and ref: "body_refines body f B inp" and len: "\<And>ys. length (f ys) = length ys"
    and B: "0 < B" and N: "B dvd length inp"
  shows "grid_inv f B inp cBlocks t"
  using step
proof (cases rule: grid_step.cases)
  case (iteration b vals)
  let ?i = "block_i s ! b"
  let ?spec = "periodic f B inp"
  have bc: "b < cBlocks" and dvd_i: "B dvd ?i"
    using inv iteration by (auto simp: grid_inv_def)
  have fit: "?i + B \<le> length inp" using dvd_i N iteration by (simp add: dvd_step_le)
  have vals: "vals = f (take B (drop ?i inp))"
    using ref iteration dvd_i fit by (simp add: body_refines_def)
  have lv: "length vals = B" using vals fit by (simp add: len)
  have seg: "take (length vals) (drop ?i ?spec) = vals"
    using periodic_segment [OF len B dvd_i fit] vals lv by simp
  have lo: "length (dev_out s) = length inp" using inv by (simp add: grid_inv_def)
  have out_nth: "write_list (dev_out s) ?i vals ! p
      = (if ?i \<le> p \<and> p < ?i + B then ?spec ! p else dev_out s ! p)" if "p < length inp" for p
    using write_segment_nth [of ?i vals "dev_out s" ?spec p] that fit lv lo seg by simp
  have bounds: "\<forall>c<cBlocks. B dvd block_i t ! c \<and> c * B \<le> block_i t ! c \<and>
                  block_i t ! c \<le> max (c * B) (length inp)"
    using inv iteration fit dvd_i by (auto simp: grid_inv_def nth_list_update)
  have prefix: "\<forall>p<min (block_i t ! 0) (length inp). dev_out t ! p = ?spec ! p" if "0 < cBlocks"
  proof (intro allI impI)
    fix p assume p: "p < min (block_i t ! 0) (length inp)"
    have old: "p < min (block_i s ! 0) (length inp) \<Longrightarrow> dev_out s ! p = ?spec ! p"
      using inv that by (simp add: grid_inv_def)
    show "dev_out t ! p = ?spec ! p"
    proof (cases "b = 0")
      case True
      then show ?thesis using p iteration old out_nth [of p] by (auto simp: nth_list_update)
    next
      case False
      then show ?thesis using p iteration old out_nth [of p] by (auto simp: nth_list_update)
    qed
  qed
  have count: "iterations t * B + (\<Sum>c<cBlocks. c * B) = sum_list (block_i t)"
    using inv iteration by (simp add: grid_inv_def sum_list_update_add)
  show ?thesis
    unfolding grid_inv_def using inv iteration bounds prefix count by (simp add: grid_inv_def)
next
  case (out_of_bounds b)
  have "B dvd block_i s ! b" using inv out_of_bounds by (simp add: grid_inv_def)
  then have "block_i s ! b + B \<le> length inp" using N out_of_bounds by (simp add: dvd_step_le)
  then have False using ref out_of_bounds \<open>B dvd block_i s ! b\<close> by (simp add: body_refines_def)
  then show ?thesis ..
qed

lemma grid_reach_inv:
  assumes reach: "(grid_step body B inp)\<^sup>*\<^sup>* (grid_init cBlocks B out) s"
    and lo: "length out = length inp"
    and ref: "body_refines body f B inp" and len: "\<And>ys. length (f ys) = length ys"
    and B: "0 < B" and N: "B dvd length inp"
  shows "grid_inv f B inp cBlocks s"
  using reach
proof (induction rule: rtranclp_induct)
  case base
  show ?case using lo by (rule grid_inv_init)
next
  case (step s t)
  then show ?case using ref len B N by (blast intro: grid_step_inv)
qed

lemma grid_step_measure:
  "0 < B \<Longrightarrow> grid_step body B inp s t \<Longrightarrow> grid_measure inp t < grid_measure inp s"
  by (erule grid_step.cases) (auto simp: grid_measure_def intro!: sum_list_map_update_less)

lemma grid_progress:
  "\<not> grid_done inp s \<Longrightarrow> \<exists>t. grid_step body B inp s t"
proof -
  assume "\<not> grid_done inp s"
  then obtain b where b: "b < length (block_i s)" "block_i s ! b < length inp" and nf: "\<not> fault s"
    by (auto simp: grid_done_def not_le)
  show ?thesis
  proof (cases "body B inp (block_i s ! b)")
    case None
    then show ?thesis using b nf by (blast intro: grid_step.out_of_bounds)
  next
    case (Some vals)
    then show ?thesis using b nf by (blast intro: grid_step.iteration)
  qed
qed

lemma grid_reaches_done:
  assumes B: "0 < B"
  shows "\<exists>t. (grid_step body B inp)\<^sup>*\<^sup>* s t \<and> grid_done inp t"
proof (induction s rule: measure_induct_rule [where f = "grid_measure inp"])
  case (less s)
  show ?case
  proof (cases "grid_done inp s")
    case True
    then show ?thesis by blast
  next
    case False
    then obtain s' where st: "grid_step body B inp s s'" using grid_progress by blast
    have "grid_measure inp s' < grid_measure inp s" by (rule grid_step_measure [OF B st])
    then obtain t where "(grid_step body B inp)\<^sup>*\<^sup>* s' t" "grid_done inp t" using less by blast
    with st show ?thesis by (meson converse_rtranclp_into_rtranclp)
  qed
qed

lemma length_scan_of [simp]: "length (scan_of st xs) = length xs"
  by (cases st) (simp_all add: scan_of_def)

lemma ScanGPUBlock_body_refines:
  assumes "blockDim = nwarps * warpSize" "nwarps \<le> warpSize"
  shows "body_refines (ScanGPUBlock_body st) (scan_of st) blockDim inp"
  unfolding body_refines_def
proof (intro allI impI)
  fix i assume i: "i + blockDim \<le> length inp"
  let ?seg = "take (nwarps * warpSize) (drop i inp)"
  have len: "length ?seg = nwarps * warpSize" using i assms(1) by simp
  have blk: "scanBlock scanWarp ?seg = incl_scan ?seg"
    using scanBlock_incl_scan [OF _ len assms(2)] by (simp add: scanWarp_eq_incl_scan)
  have ex: "map (\<lambda>tid. if 0 < tid then scanBlock scanWarp ?seg ! (tid - 1) else 0) [0..<nwarps * warpSize]
      = excl_scan ?seg"
    using shift_right_incl_scan [OF len] by (simp only: blk)
  show "ScanGPUBlock_body st blockDim inp i = Some (scan_of st (take blockDim (drop i inp)))"
    using i unfolding assms(1)
    by (cases st) (simp_all add: ScanGPUBlock_body_def load_segment_def blk scan_of_def ex)
qed

lemma ScanGPUWarp_body_refines:
  "body_refines (ScanGPUWarp_body st)
     (if st = Inclusive then periodic scanWarp warpSize else periodic scanWarpExclusive warpSize)
     blockDim inp"
  by (simp add: body_refines_def ScanGPUWarp_body_def load_segment_def)

lemma grid_step_iterationI:
  "\<not> fault s \<Longrightarrow> b < length (block_i s) \<Longrightarrow> block_i s ! b < length inp \<Longrightarrow>
   body blockDim inp (block_i s ! b) = Some vals \<Longrightarrow>
   t = s\<lparr>dev_out := write_list (dev_out s) (block_i s ! b) vals,
         block_i := (block_i s)[b := block_i s ! b + blockDim],
         iterations := Suc (iterations s)\<rparr> \<Longrightarrow>
   grid_step body blockDim inp s t"
  by (simp add: grid_step.iteration)

lemma ScanGPUWarp_example_seg0: "ScanGPUWarp_body Inclusive 2 [1, 2, 3, 4] 0 = Some [1, 3]"
  by code_simp

lemma ScanGPUWarp_example_seg2: "ScanGPUWarp_body Inclusive 2 [1, 2, 3, 4] 2 = Some [3, 7]"
  by code_simp

lemma example_run:
  "(grid_step (ScanGPUWarp_body Inclusive) 2 [1, 2, 3, 4])\<^sup>*\<^sup>* (grid_init 2 2 [0, 0, 0, 0])
     \<lparr>dev_out = [1, 3, 3, 7], block_i = [4, 4], iterations = 3, fault = False\<rparr>"
proof -
  let ?st = "grid_step (ScanGPUWarp_body Inclusive) 2 [1, 2, 3, 4]"
  have 1: "?st (grid_init 2 2 [0, 0, 0, 0]) \<lparr>dev_out = [1, 3, 0, 0], block_i = [2, 2], iterations = 1, fault = False\<rparr>"
    by (rule grid_step_iterationI [where b = 0 and vals = "[1, 3]"]) (simp_all add: grid_init_def ScanGPUWarp_example_seg0 upt_rec)
  have 2: "?st \<lparr>dev_out = [1, 3, 0, 0], block_i = [2, 2], iterations = 1, fault = False\<rparr>
              \<lparr>dev_out = [1, 3, 3, 7], block_i = [2, 4], iterations = 2, fault = False\<rparr>"
    by (rule grid_step_iterationI [where b = 1 and vals = "[3, 7]"]) (simp_all add: ScanGPUWarp_example_seg2)
  have 3: "?st \<lparr>dev_out = [1, 3, 3, 7], block_i = [2, 4], iterations = 2, fault = False\<rparr>
              \<lparr>dev_out = [1, 3, 3, 7], block_i = [4, 4], iterations = 3, fault = False\<rparr>"
    by (rule grid_step_iterationI [where b = 0 and vals = "[3, 7]"]) (simp_all add: ScanGPUWarp_example_seg2)
  from 1 2 3 show ?thesis by (meson rtranclp.rtrancl_into_rtrancl rtranclp.rtrancl_refl)
qed

lemma grid_reach_output:
  assumes "(grid_step body B inp)\<^sup>*\<^sup>* (grid_init cBlocks B out) s" "grid_done inp s"
    "length out = length inp" "body_refines body f B inp" "\<And>ys. length (f ys) = length ys"
    "0 < B" "B dvd length inp" "0 < cBlocks"
  shows "\<not> fault s \<and> dev_out s = periodic f B inp"
proof -
  have inv: "grid_inv f B inp cBlocks s" using assms(1,3-7) by (rule grid_reach_inv)
  then have nf: "\<not> fault s" and lb: "length (block_i s) = cBlocks"
    and lo: "length (dev_out s) = length inp" by (simp_all add: grid_inv_def)
  with assms(2,8) have "length inp \<le> block_i s ! 0" by (simp add: grid_done_def)
  then have "\<forall>p<length inp. dev_out s ! p = periodic f B inp ! p"
    using inv assms(8) by (simp add: grid_inv_def min_def)
  moreover have "length (periodic f B inp) = length inp"
    using assms(5,6) by (simp add: length_periodic)
  ultimately show ?thesis using nf lo by (simp add: list_eq_iff_nth_eq)
qed

lemma ScanGPUBlockShuffle_body_refines:
  assumes "blockDim = nwarps * warpSize" "nwarps \<le> warpSize"
  shows "body_refines (ScanGPUBlockShuffle_body st) (scan_of st) blockDim inp"
  unfolding body_refines_def
proof (intro allI impI)
  fix i assume i: "i + blockDim \<le> length inp"
  let ?seg = "take (nwarps * warpSize) (drop i inp)"
  have len: "length ?seg = nwarps * warpSize" using i assms(1) by simp
  have blk: "inclusive_scan_block ?seg = incl_scan ?seg"
    using scanBlock_incl_scan [OF _ len assms(2)]
    by (simp add: inclusive_scan_block_def shfl_scan_eq_scanWarp scanWarp_eq_incl_scan)
  have ex: "exclusive_scan_block ?seg = excl_scan ?seg"
    by (rule nth_equalityI) (simp_all add: exclusive_scan_block_def blk take_Suc_conv_app_nth)
  show "ScanGPUBlockShuffle_body st blockDim inp i = Some (scan_of st (take blockDim (drop i inp)))"
    using i unfolding assms(1)
    by (cases st) (simp_all add: ScanGPUBlockShuffle_body_def load_segment_def blk ex scan_of_def)
qed

section \<open>The launchers\<close>

lemma launch_outcome_refines:
  assumes ref: "body_refines body f B inp" and lenf: "\<And>ys. length (f ys) = length ys"
    and B: "0 < B" and dvd: "B dvd length inp" and N: "150 \<le> length inp"
    and out: "length out = length inp"
  shows "(\<exists>out'. launch_outcome body B inp out out') \<and>
         (\<forall>out'. launch_outcome body B inp out out' \<longrightarrow> out' = periodic f B inp)"
proof -
  let ?c = "launch_cBlocks (length inp)"
  have c: "0 < ?c" using N by (simp add: launch_cBlocks_def Let_def div_greater_zero_iff)
  obtain t where t: "(grid_step body B inp)\<^sup>*\<^sup>* (grid_init ?c B out) t" "grid_done inp t"
    using grid_reaches_done [OF B] by blast
  have "\<not> fault t \<and> dev_out t = periodic f B inp"
    using grid_reach_output [OF t out ref lenf B dvd c] .
  with t c have "\<exists>out'. launch_outcome body B inp out out'"
    by (auto simp: launch_outcome_def)
  moreover have "\<forall>out'. launch_outcome body B inp out out' \<longrightarrow> out' = periodic f B inp"
    using c grid_reach_output [OF _ _ out ref lenf B dvd c] by (auto simp: launch_outcome_def)
  ultimately show ?thesis ..
qed

lemma launch_outcome_no_blocks:
  "length inp < 150 \<Longrightarrow> launch_outcome body B inp out out' \<longleftrightarrow> out' = out"
  by (simp add: launch_outcome_def launch_cBlocks_def Let_def)

lemma block_size_warps:
  assumes "cThreads = 128 \<or> cThreads = 256 \<or> cThreads = 512 \<or> cThreads = 1024"
  shows "cThreads = cThreads div warpSize * warpSize \<and> 0 < cThreads div warpSize \<and>
         cThreads div warpSize \<le> warpSize"
  using assms by (auto simp: warpSize_def)

lemma ScanGPUBlock_computes:
  assumes "cThreads = nwarps * warpSize" "0 < nwarps" "nwarps \<le> warpSize"
    "cThreads dvd length inp" "150 \<le> length inp"
  shows "launcher_computes (ScanGPUBlock st) (scan_of st) cThreads inp"
proof -
  have "0 < cThreads" using assms(1,2) by (simp add: warpSize_def)
  with assms show ?thesis
    unfolding launcher_computes_def ScanGPUBlock_def
    using launch_outcome_refines [OF ScanGPUBlock_body_refines [OF assms(1,3)] length_scan_of]
    by blast
qed

lemma ScanGPUBlockShuffle_computes:
  assumes "cThreads = nwarps * warpSize" "0 < nwarps" "nwarps \<le> warpSize"
    "cThreads dvd length inp" "150 \<le> length inp"
  shows "launcher_computes (ScanGPUBlockShuffle st) (scan_of st) cThreads inp"
proof -
  have B: "0 < cThreads" using assms(1,2) by (simp add: warpSize_def)
  have "launcher_computes (ScanGPUBlock st) (scan_of st) cThreads inp"
    using assms by (rule ScanGPUBlock_computes)
  moreover have "launcher_computes (\<lambda>c xs ys zs. launch_outcome (ScanGPUBlockShuffle_body st) c xs ys zs)
                   (scan_of st) cThreads inp"
    unfolding launcher_computes_def
    using launch_outcome_refines [OF ScanGPUBlockShuffle_body_refines [OF assms(1,3)] length_scan_of B]
      assms(4,5) by blast
  ultimately show ?thesis
    by (cases "cThreads = 128 \<or> cThreads = 256 \<or> cThreads = 512 \<or> cThreads = 1024")
       (simp_all only: launcher_computes_def ScanGPUBlockShuffle_def ScanGPUBlock_def if_True if_False)
qed

text \<open>The kernels over \<open>scanWarp2.cuh\<close>: whatever warp scan the header
  provides, when it meets the contract of a warp scan (the inclusive or
  exclusive scan of at most 32 lanes) the kernel writes, per segment, the
  scan with period 32, and the launch computes it for the whole input.\<close>

lemma periodic_warp_contract:
  assumes "\<And>ys. length ys \<le> warpSize \<Longrightarrow> w ys = f ys"
  shows "periodic w warpSize = periodic f warpSize"
  by (rule ext, rule periodic_cong, rule assms)

lemma ScanGPUWarp2_bodies_agree:
  assumes "\<And>ys. length ys \<le> warpSize \<Longrightarrow> scanWarp2 ys = incl_scan ys"
    and "\<And>ys. length ys \<le> warpSize \<Longrightarrow> scanWarpExclusive2 ys = excl_scan ys"
  shows "ScanInclusiveGPUWarp2_body scanWarp2 = ScanGPUWarp_body Inclusive \<and>
         ScanExclusiveGPUWarp2_body scanWarpExclusive2 = ScanGPUWarp_body Exclusive"
proof -
  have i: "\<And>ys. length ys \<le> warpSize \<Longrightarrow> scanWarp2 ys = scanWarp ys"
    using assms(1) by (simp add: scanWarp_eq_incl_scan)
  have e: "\<And>ys. length ys \<le> warpSize \<Longrightarrow> scanWarpExclusive2 ys = scanWarpExclusive ys"
    using assms(2) by (simp add: scanWarpExclusive_eq_excl_scan)
  show ?thesis
    using periodic_warp_contract [of scanWarp2 scanWarp, OF i]
      periodic_warp_contract [of scanWarpExclusive2 scanWarpExclusive, OF e]
    by (simp add: fun_eq_iff ScanInclusiveGPUWarp2_body_def ScanExclusiveGPUWarp2_body_def ScanGPUWarp_body_def)
qed

lemma ScanGPUWarp2_body_refines:
  assumes "\<And>ys. length ys \<le> warpSize \<Longrightarrow> scanWarp2 ys = f ys"
  shows "body_refines (ScanInclusiveGPUWarp2_body scanWarp2) (periodic f warpSize) blockDim inp \<and>
         body_refines (ScanExclusiveGPUWarp2_body scanWarp2) (periodic f warpSize) blockDim inp"
  using periodic_warp_contract [of scanWarp2 f, OF assms]
  by (simp add: body_refines_def ScanInclusiveGPUWarp2_body_def ScanExclusiveGPUWarp2_body_def load_segment_def)

lemma ScanExclusiveGPU2_block_oracle_mismatch:
  assumes "\<And>ys. length ys \<le> warpSize \<Longrightarrow> scanWarpExclusive2 ys = excl_scan ys"
    and "ScanExclusiveGPU2 scanWarpExclusive2 256 (replicate 256 1) (replicate 256 0) out'"
  shows "out' \<noteq> periodic excl_scan 256 (replicate 256 (1 :: int32))"
proof -
  have le: "\<And>ys. length (periodic excl_scan warpSize ys) = length (ys :: int32 list)"
    by (simp add: length_periodic warpSize_def)
  have re: "body_refines (ScanExclusiveGPUWarp2_body scanWarpExclusive2) (periodic excl_scan warpSize) 256 (replicate 256 1)"
    using ScanGPUWarp2_body_refines [of scanWarpExclusive2 excl_scan, OF assms(1)] by blast
  have "out' = periodic (periodic excl_scan warpSize) 256 (replicate 256 (1 :: int32))"
    using launch_outcome_refines [OF re le, where out = "replicate 256 0"] assms(2)
    by (simp add: ScanExclusiveGPU2_def)
  moreover have "periodic (periodic excl_scan warpSize) 256 (replicate 256 (1 :: int32)) ! 32 =
                 periodic excl_scan warpSize (replicate 256 (1 :: int32)) ! 32"
    using nth_periodic [OF le, where P = 256 and k = 32 and xs = "replicate 256 1"] by simp
  moreover have "periodic excl_scan warpSize (replicate 256 (1 :: int32)) ! 32 = 0"
    by (simp add: nth_periodic_excl_scan warpSize_def)
  moreover have "periodic excl_scan 256 (replicate 256 (1 :: int32)) ! 32 = 32"
    by (simp add: nth_periodic_excl_scan sum_list_replicate)
  ultimately show ?thesis by auto
qed

section \<open>Properties of the kernels and the grid\<close>

text \<open>C5: the three warp-scan kernels compute the same values for every segment:
  \<open>ScanInclusiveGPUWarp_0\<close>/\<open>ScanExclusiveGPUWarp_0\<close> (zero padding instead of the
  bounds check) and \<open>ScanGPUWarpShuffle\<close> (register shuffles instead of shared
  memory) agree with \<open>ScanGPUWarp\<close>, so only performance differs.\<close>

theorem warp_kernels_agree:
  "ScanGPUWarp_0_body st = ScanGPUWarp_body st \<and> ScanGPUWarpShuffle_body st = ScanGPUWarp_body st"
proof -
  have z: "scanWarp_zeropad = (scanWarp :: int32 list \<Rightarrow> int32 list)"
    and h: "inclusive_scan_warp_shfl = (scanWarp :: int32 list \<Rightarrow> int32 list)"
    using scanWarp_strategies_agree by (auto intro!: ext)
  have e: "(\<lambda>ys. map2 (-) (scanWarp ys) ys) = (scanWarpExclusive :: int32 list \<Rightarrow> int32 list)"
    by (rule ext) (simp add: scanWarpExclusive_def)
  show ?thesis
    unfolding ScanGPUWarp_0_body_def ScanInclusiveGPUWarp_0_body_def ScanExclusiveGPUWarp_0_body_def
      ScanGPUWarpShuffle_body_def ScanGPUWarp_body_def z h e
    by (cases st) simp_all
qed

text \<open>C6: in \<open>ScanGPUWarp\<close> every warp of a segment gets the scan of its own
  32 values: the kernel computes, per segment, the scan with period 32 that
  \<open>ScanCPU32\<close> computes on the CPU.\<close>

theorem ScanGPUWarp_segment_scans:
  "i + blockDim \<le> length inp \<Longrightarrow>
   ScanGPUWarp_body st blockDim inp i = Some (periodic (scan_of st) warpSize (take blockDim (drop i inp)))"
proof -
  assume i: "i + blockDim \<le> length inp"
  have inc: "periodic scanWarp warpSize ys = periodic incl_scan warpSize ys" for ys :: "int32 list"
    by (rule periodic_cong) (simp add: scanWarp_eq_incl_scan)
  have exc: "periodic scanWarpExclusive warpSize ys = periodic excl_scan warpSize ys" for ys :: "int32 list"
    by (rule periodic_cong) (simp add: scanWarpExclusive_eq_excl_scan)
  show ?thesis
    using i by (cases st) (simp_all add: ScanGPUWarp_body_def load_segment_def scan_of_def inc exc)
qed

theorem ScanGPUWarp_segment_scans_witness:
  "0 + 4 \<le> length [1, 2, 3, 4 :: int32] \<and>
   ScanGPUWarp_body Inclusive 4 [1, 2, 3, 4] 0 = Some (periodic (scan_of Inclusive) warpSize [1, 2, 3, 4])"
  using ScanGPUWarp_segment_scans [of 0 4 "[1, 2, 3, 4]" Inclusive] by simp












end
