(* ===== verification/Harness.thy ===== *)
theory Harness
  imports GpuScan
begin

text \<open>
  The test driver of \<open>src/scan/warp/testScanBlock.cu\<close>: \<open>RandomArray\<close>, the
  template \<open>TestScanBlock\<close> that runs a CPU oracle and a GPU launcher on the same
  input and compares the outputs, and \<open>main\<close>, which runs the test vectors for
  every thread count from 256 up to the device's \<open>maxThreadsPerBlock\<close>.

  The host heap is the store of \<open>CpuScan\<close>: the oracle gets \<open>outCPU\<close> at address 0
  and \<open>inCPU\<close> at address \<open>N\<close>, two disjoint allocations of \<open>N\<close> ints.  A fresh
  allocation holds whatever the allocator left there (\<open>host_env\<close>), \<open>rand()\<close>
  after \<open>srand(0)\<close> is a fixed sequence (\<open>rand_fn\<close>), and the GPU launchers are the
  relations of \<open>GpuScan\<close>.  A failing \<open>malloc\<close> or CUDA runtime call makes the test
  return \<open>false\<close> through \<open>goto Error\<close>.
\<close>

section \<open>RandomArray\<close>

text \<open>The \<open>k\<close>-th value \<open>rand()\<close> returns after \<open>srand(0)\<close>.\<close>

type_synonym rand_fn = "nat \<Rightarrow> nat"

text \<open>\<open>for (i = 0; i < N; i++) out[i] = rand() % modulus;\<close> (lines 125--131); the
  state is the buffer and the number of \<open>rand()\<close> calls made so far.  C's \<open>%\<close> on
  a non-negative dividend has the dividend's sign, hence \<open>mod \<bar>modulus\<bar>\<close>.\<close>

function RandomArray_loop :: "rand_fn \<Rightarrow> nat \<Rightarrow> int \<Rightarrow> nat \<Rightarrow> int32 list \<times> nat \<Rightarrow> int32 list \<times> nat" where
  "RandomArray_loop rand N modulus i (out, r) =
     (if i < N
      then RandomArray_loop rand N modulus (Suc i)
             (out[i := word_of_int (int (rand r) mod \<bar>modulus\<bar>)], Suc r)
      else (out, r))"
  by pat_completeness auto
termination by (relation "measure (\<lambda>(_, N, _, i, _). N - i)") auto

definition RandomArray :: "rand_fn \<Rightarrow> nat \<Rightarrow> int \<Rightarrow> int32 list \<times> nat \<Rightarrow> int32 list \<times> nat" where
  "RandomArray rand N modulus st = RandomArray_loop rand N modulus 0 st"

section \<open>TestScanBlock\<close>

text \<open>\<open>for (int i = 0; i < N; i++) inCPU[i] = i;\<close> (lines 437--439), which
  overwrites the random input just generated.\<close>

function init_input :: "nat \<Rightarrow> nat \<Rightarrow> int32 list \<Rightarrow> int32 list" where
  "init_input N i inCPU =
     (if i < N then init_input N (Suc i) (inCPU[i := word_of_int (int i)]) else inCPU)"
  by pat_completeness auto
termination by (relation "measure (\<lambda>(N, i, _). N - i)") auto

text \<open>The comparison loop (lines 447--457): the first mismatch prints
  \<open>Scan failed\<close>, asserts and, where the assertion is compiled out, jumps to
  \<open>Error\<close> with \<open>ret\<close> still \<open>false\<close>.\<close>

function compare_loop :: "nat \<Rightarrow> int32 list \<Rightarrow> int32 list \<Rightarrow> nat \<Rightarrow> bool" where
  "compare_loop N hostGPU outCPU i =
     (if i < N then (if hostGPU ! i \<noteq> outCPU ! i then False
                     else compare_loop N hostGPU outCPU (Suc i))
      else True)"
  by pat_completeness auto
termination by (relation "measure (\<lambda>(N, _, _, i). N - i)") auto

declare RandomArray_loop.simps [simp del] init_input.simps [simp del] compare_loop.simps [simp del]

text \<open>What the host gives the test: whether the three \<open>malloc\<close>s succeed, whether
  every \<open>CUDART_CHECK\<close>ed runtime call returns \<open>cudaSuccess\<close>, and the contents
  of the fresh \<open>inCPU\<close> and \<open>outCPU\<close> allocations.\<close>

record host_env =
  malloc_ok :: bool
  cuda_ok :: bool
  garbage_in :: "nat \<Rightarrow> int32"
  garbage_out :: "nat \<Rightarrow> int32"

text \<open>A CPU oracle as \<open>pfnScanCPU(out, in, N, numThreads)\<close> sees it: output and
  input addresses in the store, \<open>N\<close>, the thread count; \<open>ScanCPUBlock st\<close> is one.\<close>

type_synonym cpu_fn = "nat \<Rightarrow> nat \<Rightarrow> nat \<Rightarrow> int \<Rightarrow> store \<Rightarrow> store option"

text \<open>\<open>TestScanBlock\<close> (lines 404--475) as a relation between its arguments and
  its return value: there is no value when the oracle faults.  \<open>outGPU\<close> is
  zeroed by \<open>cudaMemset\<close>, \<open>inGPU\<close> is a copy of \<open>inCPU\<close>, and \<open>hostGPU\<close> is the
  copy of \<open>outGPU\<close> after the launch.\<close>

definition TestScanBlock ::
  "host_env \<Rightarrow> rand_fn \<Rightarrow> cpu_fn \<Rightarrow> launcher \<Rightarrow> nat \<Rightarrow> int \<Rightarrow> bool \<Rightarrow> bool" where
  "TestScanBlock env rand pfnScanCPU pfnScanGPU N numThreads ret \<longleftrightarrow>
     (if \<not> malloc_ok env \<or> \<not> cuda_ok env then ret = False
      else
        let inCPU0 = fst (RandomArray rand N 256 (map (garbage_in env) [0..<N], 0));
            inCPU = init_input N 0 inCPU0;
            outCPU0 = map (garbage_out env) [0..<N]
        in case pfnScanCPU 0 N N numThreads (outCPU0 @ inCPU) of
             None \<Rightarrow> False
           | Some mem \<Rightarrow>
               (\<exists>hostGPU. pfnScanGPU (nat numThreads) inCPU (replicate N 0) hostGPU \<and>
                          ret = compare_loop N hostGPU (take N mem) 0))"

section \<open>main\<close>

text \<open>\<open>for (int numThreads = 256; numThreads <= maxThreads; numThreads *= 2)\<close>
  (lines 509, 526): the thread counts the loop visits.  \<open>numThreads\<close> is a C
  \<open>int\<close>, so the doubling wraps at 32 bits; nothing bounds the loop but
  \<open>maxThreads\<close>, so it is a partial function.\<close>

partial_function (option) thread_counts :: "int \<Rightarrow> int \<Rightarrow> int list option" where
  "thread_counts maxThreads numThreads =
     (if numThreads \<le> maxThreads
      then do {
        ts \<leftarrow> thread_counts maxThreads (sint (word_of_int (numThreads * 2) :: int32));
        Some (numThreads # ts)
      }
      else Some [])"

datatype gpu_scan = GPU_ScanGPUBlock | GPU_ScanGPUBlockShuffle

definition gpu_launcher :: "ScanType \<Rightarrow> gpu_scan \<Rightarrow> launcher" where
  "gpu_launcher st g = (case g of
     GPU_ScanGPUBlock \<Rightarrow> ScanGPUBlock st | GPU_ScanGPUBlockShuffle \<Rightarrow> ScanGPUBlockShuffle st)"

text \<open>The \<open>SCAN_TEST_VECTOR\<close>s that are compiled in: the first loop tests
  \<open>ScanGPUBlockShuffle<Exclusive>\<close>, the second \<open>ScanGPUBlock<Inclusive>\<close> and
  \<open>ScanGPUBlockShuffle<Inclusive>\<close>, each against \<open>ScanCPUBlock\<close>.\<close>

definition main_vectors :: "int list \<Rightarrow> (ScanType \<times> gpu_scan \<times> int) list" where
  "main_vectors ts =
     map (\<lambda>t. (Exclusive, GPU_ScanGPUBlockShuffle, t)) ts @
     concat (map (\<lambda>t. [(Inclusive, GPU_ScanGPUBlock, t), (Inclusive, GPU_ScanGPUBlockShuffle, t)]) ts)"

text \<open>Running the vectors in order: a failed test prints and calls \<open>exit(1)\<close>.\<close>

fun run_vectors :: "host_env \<Rightarrow> rand_fn \<Rightarrow> nat \<Rightarrow> (ScanType \<times> gpu_scan \<times> int) list \<Rightarrow> int \<Rightarrow> bool" where
  "run_vectors env rand N [] status = (status = 0)"
| "run_vectors env rand N ((st, g, t) # vs) status =
     (\<exists>ok. TestScanBlock env rand (ScanCPUBlock st) (gpu_launcher st g) N t ok \<and>
           (if ok then run_vectors env rand N vs status else status = 1))"

definition numInts :: nat where
  "numInts = 32 * 1048576"

text \<open>\<open>main\<close> (lines 477--546): a failing \<open>cudaSetDevice\<close> or
  \<open>cudaSetDeviceFlags\<close> returns 1; otherwise the vectors run on \<open>numInts\<close>
  integers for every thread count.\<close>

definition main :: "bool \<Rightarrow> host_env \<Rightarrow> rand_fn \<Rightarrow> int \<Rightarrow> int \<Rightarrow> bool" where
  "main dev_ok env rand maxThreads status \<longleftrightarrow>
     (if \<not> dev_ok then status = 1
      else case thread_counts maxThreads 256 of
             None \<Rightarrow> False
           | Some ts \<Rightarrow> run_vectors env rand numInts (main_vectors ts) status)"


section \<open>Predicates of the proofs\<close>

text \<open>The values \<open>numThreads\<close> takes when \<open>maxThreads = INT_MAX\<close>: the powers of two
  from 256 up to 2^30, then \<open>INT_MIN\<close> and 0, where doubling stays.\<close>

definition wrap_orbit :: "int set" where
  "wrap_orbit = {0, - (2 ^ 31)} \<union> {t. \<exists>k. t = 2 ^ k \<and> 8 \<le> k \<and> k \<le> 30}"

text \<open>A test vector that returns and passes.\<close>

definition vector_ok :: "host_env \<Rightarrow> rand_fn \<Rightarrow> nat \<Rightarrow> ScanType \<times> gpu_scan \<times> int \<Rightarrow> bool" where
  "vector_ok env rand N v = (case v of (st, g, t) \<Rightarrow>
     (\<exists>ret. TestScanBlock env rand (ScanCPUBlock st) (gpu_launcher st g) N t ret) \<and>
     (\<forall>ret. TestScanBlock env rand (ScanCPUBlock st) (gpu_launcher st g) N t ret \<longrightarrow> ret))"

section \<open>Loops of the harness\<close>

lemma RandomArray_loop_result:
  "length out = N \<Longrightarrow> i \<le> N \<Longrightarrow>
   RandomArray_loop rand N m i (out, r) =
     (take i out @ map (\<lambda>k. word_of_int (int (rand (r + k - i)) mod \<bar>m\<bar>)) [i..<N], r + (N - i))"
proof (induction "N - i" arbitrary: i out r)
  case 0
  then show ?case by (simp add: RandomArray_loop.simps)
next
  case (Suc d)
  then have i: "i < N" by simp
  have "RandomArray_loop rand N m i (out, r) =
        RandomArray_loop rand N m (Suc i) (out[i := word_of_int (int (rand r) mod \<bar>m\<bar>)], Suc r)"
    using i by (simp add: RandomArray_loop.simps)
  also have "\<dots> = (take i out @ map (\<lambda>k. word_of_int (int (rand (r + k - i)) mod \<bar>m\<bar>)) [i..<N], r + (N - i))"
    using Suc.hyps(1) [of "Suc i" "out[i := word_of_int (int (rand r) mod \<bar>m\<bar>)]" "Suc r"] Suc.hyps(2) Suc.prems i
    by (simp add: take_Suc_conv_app_nth upt_conv_Cons cong: map_cong)
  finally show ?case .
qed

lemma RandomArray_result:
  "RandomArray rand N m (map g [0..<N], r) =
     (map (\<lambda>k. word_of_int (int (rand (r + k)) mod \<bar>m\<bar>)) [0..<N], r + N)"
  by (simp add: RandomArray_def RandomArray_loop_result)

lemma init_input_result:
  "length xs = N \<Longrightarrow> i \<le> N \<Longrightarrow> init_input N i xs = take i xs @ map of_nat [i..<N]"
proof (induction "N - i" arbitrary: i xs)
  case 0
  then show ?case by (simp add: init_input.simps)
next
  case (Suc d)
  then have i: "i < N" by simp
  then have "init_input N i xs = init_input N (Suc i) (xs[i := of_nat i])"
    by (simp add: init_input.simps)
  also have "\<dots> = take i xs @ map of_nat [i..<N]"
    using Suc.hyps(1) [of "Suc i" "xs[i := of_nat i]"] Suc.hyps(2) Suc.prems i
    by (simp add: take_Suc_conv_app_nth upt_conv_Cons)
  finally show ?case .
qed

lemma all_from_unroll:
  "i < N \<Longrightarrow> (\<forall>k. i \<le> k \<longrightarrow> k < N \<longrightarrow> P k) \<longleftrightarrow> P i \<and> (\<forall>k. Suc i \<le> k \<longrightarrow> k < N \<longrightarrow> P k)"
  by (auto simp: Suc_le_eq) (metis le_eq_less_or_eq)

lemma compare_loop_iff:
  "compare_loop N h c i \<longleftrightarrow> (\<forall>k. i \<le> k \<longrightarrow> k < N \<longrightarrow> h ! k = c ! k)"
proof (induction N h c i rule: compare_loop.induct)
  case (1 N h c i)
  show ?case
  proof (cases "i < N")
    case True
    then show ?thesis
      using 1 by (subst compare_loop.simps) (simp add: all_from_unroll [OF True])
  next
    case False
    then show ?thesis by (simp add: compare_loop.simps)
  qed
qed

lemma compare_loop_eq:
  "length h = N \<Longrightarrow> length c = N \<Longrightarrow> compare_loop N h c 0 \<longleftrightarrow> h = c"
  by (auto simp: compare_loop_iff list_eq_iff_nth_eq)

section \<open>The oracle and the launchers in the harness\<close>

lemma scan_of_case: "(case st of Exclusive \<Rightarrow> excl_scan | Inclusive \<Rightarrow> incl_scan) = scan_of st"
  by (cases st) (simp_all add: scan_of_def)

lemma ScanCPUBlock_block_sizes:
  "numThreads = 256 \<or> numThreads = 512 \<or> numThreads = 1024 \<Longrightarrow>
   ScanCPUBlock st po pi N numThreads mem = ScanCPUPeriodic st (nat numThreads) po pi N mem"
  by (auto simp: ScanCPUBlock_def)

lemma ScanCPUBlock_other_sizes:
  "\<not> (numThreads = 256 \<or> numThreads = 512 \<or> numThreads = 1024) \<Longrightarrow>
   ScanCPUBlock st po pi N numThreads mem = Some mem"
  by (auto simp: ScanCPUBlock_def)

lemma ScanCPUBlock_on_buffers:
  assumes t: "numThreads = 256 \<or> numThreads = 512 \<or> numThreads = 1024"
    and dvd: "nat numThreads dvd N" and lo: "length outCPU = N" and li: "length inCPU = N"
  shows "ScanCPUBlock st 0 N N numThreads (outCPU @ inCPU) =
           Some (periodic (scan_of st) (nat numThreads) inCPU @ inCPU)"
proof -
  have P: "0 < nat numThreads" using t by auto
  have inp: "take N (drop N (outCPU @ inCPU)) = inCPU" using lo li by simp
  have len: "length (periodic (scan_of st) (nat numThreads) inCPU) = N"
    using P li by (simp add: length_periodic)
  have "ScanCPUBlock st 0 N N numThreads (outCPU @ inCPU) =
        Some (write_list (outCPU @ inCPU) 0 (periodic (scan_of st) (nat numThreads) inCPU))"
    using ScanCPUPeriodic_result [OF P, of N N "outCPU @ inCPU" 0 st] dvd lo li
    by (simp add: ScanCPUBlock_block_sizes [OF t] inp scan_of_case dvd_eq_mod_eq_0)
  also have "\<dots> = Some (periodic (scan_of st) (nat numThreads) inCPU @ inCPU)"
    using len lo li by (simp add: write_list_splice)
  finally show ?thesis .
qed

lemma test_input:
  "init_input N 0 (fst (RandomArray rand N m (map g [0..<N], r))) = map of_nat [0..<N]"
  by (simp add: RandomArray_result init_input_result)

lemma TestScanBlock_verdict:
  assumes ok: "malloc_ok env" "cuda_ok env"
    and cpu: "pfnScanCPU 0 N N t (map (garbage_out env) [0..<N] @ map of_nat [0..<N]) = Some mem"
    and len: "N \<le> length mem"
    and gpu: "launcher_computes gpu f (nat t) (map of_nat [0..<N])"
    and lenf: "\<And>ys. length (f ys) = length ys" and P: "0 < nat t"
  shows "(\<exists>ret. TestScanBlock env rand pfnScanCPU gpu N t ret) \<and>
         (\<forall>ret. TestScanBlock env rand pfnScanCPU gpu N t ret \<longrightarrow>
                ret = (periodic f (nat t) (map of_nat [0..<N]) = take N mem))"
proof -
  let ?inp = "map of_nat [0..<N] :: int32 list"
  have run: "(\<exists>h. gpu (nat t) ?inp (replicate N 0) h) \<and>
             (\<forall>h. gpu (nat t) ?inp (replicate N 0) h \<longrightarrow> h = periodic f (nat t) ?inp)"
    using gpu [unfolded launcher_computes_def, rule_format, of "replicate N 0"] by simp
  have lh: "length (periodic f (nat t) ?inp) = N" using lenf P by (simp add: length_periodic)
  have cmp: "compare_loop N (periodic f (nat t) ?inp) (take N mem) 0 \<longleftrightarrow>
             periodic f (nat t) ?inp = take N mem"
    using lh len by (simp add: compare_loop_eq)
  have T: "TestScanBlock env rand pfnScanCPU gpu N t ret \<longleftrightarrow>
           (\<exists>h. gpu (nat t) ?inp (replicate N 0) h \<and> ret = compare_loop N h (take N mem) 0)" for ret
    using ok cpu by (simp add: TestScanBlock_def test_input)
  show ?thesis using run cmp unfolding T by blast
qed

lemma gpu_launcher_computes:
  assumes t: "numThreads = 256 \<or> numThreads = 512 \<or> numThreads = 1024"
    and dvd: "nat numThreads dvd length inp" and N: "150 \<le> length inp"
  shows "launcher_computes (gpu_launcher st g) (scan_of st) (nat numThreads) inp"
proof -
  have w: "nat numThreads = nat numThreads div warpSize * warpSize \<and> 0 < nat numThreads div warpSize \<and>
           nat numThreads div warpSize \<le> warpSize"
    using t by (intro block_size_warps) auto
  then show ?thesis
    using ScanGPUBlock_computes [of "nat numThreads" "nat numThreads div warpSize" inp st]
      ScanGPUBlockShuffle_computes [of "nat numThreads" "nat numThreads div warpSize" inp st] dvd N
    by (cases g) (simp_all add: gpu_launcher_def)
qed

lemma TestScanBlock_passes:
  assumes ok: "malloc_ok env" "cuda_ok env"
    and t: "numThreads = 256 \<or> numThreads = 512 \<or> numThreads = 1024"
    and dvd: "nat numThreads dvd N" and N: "150 \<le> N"
  shows "(\<exists>ret. TestScanBlock env rand (ScanCPUBlock st) (gpu_launcher st g) N numThreads ret) \<and>
         (\<forall>ret. TestScanBlock env rand (ScanCPUBlock st) (gpu_launcher st g) N numThreads ret \<longrightarrow> ret)"
proof -
  let ?inp = "map of_nat [0..<N] :: int32 list"
  have cpu: "ScanCPUBlock st 0 N N numThreads (map (garbage_out env) [0..<N] @ ?inp) =
             Some (periodic (scan_of st) (nat numThreads) ?inp @ ?inp)"
    using t dvd by (simp add: ScanCPUBlock_on_buffers)
  have P: "0 < nat numThreads" using t by auto
  have len: "N \<le> length (periodic (scan_of st) (nat numThreads) ?inp @ ?inp)" by simp
  have gpu: "launcher_computes (gpu_launcher st g) (scan_of st) (nat numThreads) ?inp"
    using gpu_launcher_computes [OF t] dvd N by simp
  have "length (periodic (scan_of st) (nat numThreads) ?inp) = N"
    using P by (simp add: length_periodic)
  then show ?thesis
    using TestScanBlock_verdict [where pfnScanCPU = "ScanCPUBlock st" and rand = rand, OF ok cpu len gpu length_scan_of P]
    by (simp; blast)
qed

text \<open>C12: \<open>ScanCPUBlock\<close> has no case for 128 threads, a block size the
  kernels support: it returns without writing \<open>outCPU\<close>, so \<open>TestScanBlock\<close> at
  128 threads compares a correct GPU scan with the uninitialised contents of
  \<open>outCPU\<close> and passes exactly when that garbage happens to equal the scan.\<close>

theorem TestScanBlock_128_compares_garbage:
  assumes ok: "malloc_ok env" "cuda_ok env" and dvd: "128 dvd N" and N: "150 \<le> N"
  shows "(\<exists>ret. TestScanBlock env rand (ScanCPUBlock st) (ScanGPUBlockShuffle st) N 128 ret) \<and>
         (\<forall>ret. TestScanBlock env rand (ScanCPUBlock st) (ScanGPUBlockShuffle st) N 128 ret \<longrightarrow>
                ret = (periodic (scan_of st) 128 (map of_nat [0..<N]) = map (garbage_out env) [0..<N]))"
proof -
  let ?inp = "map of_nat [0..<N] :: int32 list"
  have cpu: "ScanCPUBlock st 0 N N 128 (map (garbage_out env) [0..<N] @ ?inp) =
             Some (map (garbage_out env) [0..<N] @ ?inp)"
    by (simp add: ScanCPUBlock_other_sizes)
  have gpu: "launcher_computes (ScanGPUBlockShuffle st) (scan_of st) (nat 128) ?inp"
    using ScanGPUBlockShuffle_computes [of 128 4 ?inp st] dvd N by (simp add: warpSize_def)
  have len: "N \<le> length (map (garbage_out env) [0..<N] @ ?inp)" by simp
  show ?thesis
    using TestScanBlock_verdict [where pfnScanCPU = "ScanCPUBlock st" and rand = rand, OF ok cpu len gpu length_scan_of] by simp
qed

theorem TestScanBlock_128_compares_garbage_witness:
  "\<exists>ret. TestScanBlock \<lparr>malloc_ok = True, cuda_ok = True, garbage_in = \<lambda>_. 0, garbage_out = \<lambda>_. 0\<rparr>
           (\<lambda>k. k) (ScanCPUBlock Inclusive) (ScanGPUBlockShuffle Inclusive) 256 128 ret \<and>
         ret = (periodic (scan_of Inclusive) 128 (map of_nat [0..<256]) = map (\<lambda>_. 0) [0..<256])"
  using TestScanBlock_128_compares_garbage [of "\<lparr>malloc_ok = True, cuda_ok = True, garbage_in = \<lambda>_. 0, garbage_out = \<lambda>_. 0\<rparr>"
      256 "\<lambda>k. k" Inclusive]
  by auto

text \<open>C17: the random input \<open>RandomArray\<close> generates is overwritten before use:
  the verdict of \<open>TestScanBlock\<close> is the same whatever \<open>rand()\<close> returns.\<close>

theorem TestScanBlock_ignores_rand:
  "TestScanBlock env rand1 cpu gpu N t ret = TestScanBlock env rand2 cpu gpu N t ret"
  by (simp add: TestScanBlock_def test_input)

text \<open>C16: for a positive modulus that fits in an \<open>int\<close>, every value
  \<open>RandomArray\<close> writes, read as a C \<open>int\<close>, is in \<open>[0, modulus)\<close>.\<close>

theorem RandomArray_bounds:
  assumes "0 < modulus" "modulus \<le> 2 ^ 31" "k < N"
  shows "0 \<le> sint (fst (RandomArray rand N modulus (map g [0..<N], r)) ! k) \<and>
         sint (fst (RandomArray rand N modulus (map g [0..<N], r)) ! k) < modulus"
proof -
  let ?x = "int (rand (r + k)) mod modulus"
  have x: "0 \<le> ?x" "?x < modulus" using assms(1) by simp_all
  then have "sint (word_of_int ?x :: int32) = ?x"
    using assms(2) by (intro sint32_word_of_int) simp_all
  then show ?thesis using x assms(1,3) by (simp add: RandomArray_result)
qed

theorem RandomArray_bounds_witness:
  "0 < (256::int) \<and> (256::int) \<le> 2 ^ 31 \<and> (3::nat) < 5 \<and>
   0 \<le> sint (fst (RandomArray (\<lambda>k. 1000 * k) 5 256 (map (\<lambda>_. 0) [0..<5], 0)) ! 3) \<and>
   sint (fst (RandomArray (\<lambda>k. 1000 * k) 5 256 (map (\<lambda>_. 0) [0..<5], 0)) ! 3) < 256"
  using RandomArray_bounds [of 256 3 5 "\<lambda>k. 1000 * k" "\<lambda>_. 0" 0] by simp

section \<open>The thread-count loop\<close>

lemma doubling_set:
  "insert n {t. \<exists>k. t = n * 2 * 2 ^ k \<and> t \<le> m} = {t::int. \<exists>k. t = n * 2 ^ k \<and> t \<le> m}"
  if "n \<le> m"
proof (intro set_eqI iffI)
  fix t assume "t \<in> insert n {t. \<exists>k. t = n * 2 * 2 ^ k \<and> t \<le> m}"
  then show "t \<in> {t. \<exists>k. t = n * 2 ^ k \<and> t \<le> m}"
  proof
    assume "t = n" then show ?thesis using that by (auto intro: exI [of _ 0])
  next
    assume "t \<in> {t. \<exists>k. t = n * 2 * 2 ^ k \<and> t \<le> m}"
    then obtain k where "t = n * 2 ^ Suc k" "t \<le> m" by (auto simp: mult.assoc)
    then show ?thesis by blast
  qed
next
  fix t assume "t \<in> {t. \<exists>k. t = n * 2 ^ k \<and> t \<le> m}"
  then obtain k where t: "t = n * 2 ^ k" "t \<le> m" by blast
  show "t \<in> insert n {t. \<exists>k. t = n * 2 * 2 ^ k \<and> t \<le> m}"
  proof (cases k)
    case 0 then show ?thesis using t by simp
  next
    case (Suc j) then show ?thesis using t by (auto simp: mult.assoc)
  qed
qed

lemma doubling_set_empty:
  "0 < n \<Longrightarrow> m < n \<Longrightarrow> {t::int. \<exists>k. t = n * 2 ^ k \<and> t \<le> m} = {}"
proof -
  assume n: "0 < n" and m: "m < n"
  have "n \<le> n * 2 ^ k" for k :: nat
    using n by (simp add: mult_le_cancel_left1)
  then show ?thesis using m by (auto simp: not_le intro: less_le_trans)
qed

text \<open>C14: the thread-count loop of \<open>main\<close> terminates whenever it starts at a
  positive count and \<open>maxThreads < 2^30\<close>, so that doubling never overflows an
  \<open>int\<close>; it visits exactly the counts \<open>n * 2^k \<le> maxThreads\<close>.\<close>

theorem thread_counts_terminates:
  assumes "0 < n" "m < 2 ^ 30"
  shows "\<exists>ts. thread_counts m n = Some ts \<and> set ts = {t. \<exists>k. t = n * 2 ^ k \<and> t \<le> m}"
  using assms
proof (induction "nat (m + 1 - n)" arbitrary: n rule: less_induct)
  case less
  show ?case
  proof (cases "n \<le> m")
    case True
    have w: "sint (word_of_int (n * 2) :: int32) = n * 2"
      using True less.prems by (intro sint32_word_of_int) simp_all
    have "nat (m + 1 - n * 2) < nat (m + 1 - n)" using True less.prems by simp
    then obtain ts where ts: "thread_counts m (n * 2) = Some ts"
        "set ts = {t. \<exists>k. t = n * 2 * 2 ^ k \<and> t \<le> m}"
      using less.hyps [of "n * 2"] less.prems by auto
    have "thread_counts m n = Some (n # ts)"
      using True w ts(1) by (subst thread_counts.simps) simp
    then show ?thesis using ts(2) doubling_set [OF True] by auto
  next
    case False
    then have "thread_counts m n = Some []" by (subst thread_counts.simps) simp
    then show ?thesis using doubling_set_empty [OF less.prems(1)] False by simp
  qed
qed

theorem thread_counts_terminates_witness:
  "0 < (256::int) \<and> (1024::int) < 2 ^ 30 \<and>
   (\<exists>ts. thread_counts 1024 256 = Some ts \<and> set ts = {t. \<exists>k. t = 256 * 2 ^ k \<and> t \<le> 1024})"
  using thread_counts_terminates [of 256 1024] by simp

lemma thread_counts_1024: "thread_counts 1024 256 = Some [256, 512, 1024]"
  by (simp add: thread_counts.simps)

lemma thread_counts_512: "thread_counts 512 256 = Some [256, 512]"
  by (simp add: thread_counts.simps)

lemma wrap_orbit_step:
  assumes "n \<in> wrap_orbit"
  shows "n \<le> 2 ^ 31 - 1 \<and> sint (word_of_int (n * 2) :: int32) \<in> wrap_orbit"
proof -
  consider "n = 0" | "n = - (2 ^ 31)" | k where "n = 2 ^ k" "8 \<le> k" "k < 30" | "n = 2 ^ 30"
    using assms unfolding wrap_orbit_def by (auto simp: order_le_less)
  then show ?thesis
  proof cases
    case 3
    have "(2::int) ^ k * 2 < 2 ^ 31"
      using 3(3) power_strict_increasing [of "Suc k" 31 "2::int"] by simp
    moreover have "(2::int) ^ k \<le> 2 ^ 31 - 1"
      using 3(3) power_strict_increasing [of k 31 "2::int"] by simp
    moreover have "- (2 ^ 31) \<le> (2::int) ^ k * 2" by (rule order_trans [of _ 0]) simp_all
    ultimately have s: "sint (word_of_int (n * 2) :: int32) = 2 ^ Suc k"
      using 3(1) by (subst sint32_word_of_int) simp_all
    show ?thesis
      unfolding s using 3 \<open>(2::int) ^ k \<le> 2 ^ 31 - 1\<close>
      by (auto simp: wrap_orbit_def intro!: exI [of _ "Suc k"])
  qed (auto simp: wrap_orbit_def)
qed

lemma thread_counts_orbit:
  assumes ret: "thread_counts m n = Some r"
  shows "m = 2 ^ 31 - 1 \<longrightarrow> n \<notin> wrap_orbit"
proof (rule thread_counts.raw_induct [where P = "\<lambda>m n r. m = 2 ^ 31 - 1 \<longrightarrow> n \<notin> wrap_orbit", OF _ ret])
  fix f m n r
  assume IH: "\<And>m n r. f m n = Some r \<Longrightarrow> m = 2 ^ 31 - 1 \<longrightarrow> n \<notin> wrap_orbit"
    and eq: "(if n \<le> m then f m (sint (word_of_int (n * 2) :: int32)) \<bind> (\<lambda>ts. Some (n # ts))
             else Some []) = Some r"
  show "m = 2 ^ 31 - 1 \<longrightarrow> n \<notin> wrap_orbit"
  proof (intro impI notI)
    assume m: "m = 2 ^ 31 - 1" and n: "n \<in> wrap_orbit"
    then have le: "n \<le> m" and nxt: "sint (word_of_int (n * 2) :: int32) \<in> wrap_orbit"
      using wrap_orbit_step by auto
    from eq le obtain ts where "f m (sint (word_of_int (n * 2) :: int32)) = Some ts"
      by (auto split: Option.bind_splits)
    with IH m nxt show False by blast
  qed
qed

text \<open>C15: if the device reports \<open>maxThreadsPerBlock = INT_MAX\<close>, the loop
  \<open>numThreads *= 2\<close> overflows: 2^30 doubles to \<open>INT_MIN\<close>, then to 0, and 0 stays
  below the bound forever, so \<open>main\<close>'s thread-count loop never ends.\<close>

theorem thread_counts_INT_MAX_diverges:
  "thread_counts (2 ^ 31 - 1) 256 = None"
proof (cases "thread_counts (2 ^ 31 - 1) 256")
  case (Some r)
  have "(256::int) \<in> wrap_orbit" by (auto simp: wrap_orbit_def intro!: exI [of _ 8])
  then show ?thesis using thread_counts_orbit [OF Some] by simp
qed

lemma run_vectors_ok:
  "list_all (vector_ok env rand N) vs \<Longrightarrow>
   (\<exists>s. run_vectors env rand N vs s) \<and> (\<forall>s. run_vectors env rand N vs s \<longrightarrow> s = 0)"
proof (induction vs)
  case Nil
  then show ?case by simp
next
  case (Cons v vs)
  obtain st g t where v: "v = (st, g, t)" by (cases v) blast
  from Cons.prems v have hd: "vector_ok env rand N (st, g, t)"
    and rest: "list_all (vector_ok env rand N) vs" by simp_all
  from hd obtain ret where
      T: "TestScanBlock env rand (ScanCPUBlock st) (gpu_launcher st g) N t ret"
    and all: "\<forall>ret. TestScanBlock env rand (ScanCPUBlock st) (gpu_launcher st g) N t ret \<longrightarrow> ret"
    unfolding vector_ok_def by auto
  from T all have "TestScanBlock env rand (ScanCPUBlock st) (gpu_launcher st g) N t True" by auto
  then show ?case using Cons.IH [OF rest] all v by auto
qed

section \<open>Properties of main\<close>

text \<open>C11: on a device whose blocks hold 512 or 1024 threads, with every
  allocation and CUDA call succeeding, \<open>main\<close> runs all its test vectors to the end:
  it has an outcome, and every outcome is exit status 0.\<close>

theorem main_returns_0:
  assumes ok: "malloc_ok env" "cuda_ok env" and maxT: "maxThreads = 512 \<or> maxThreads = 1024"
  shows "(\<exists>status. main True env rand maxThreads status) \<and>
         (\<forall>status. main True env rand maxThreads status \<longrightarrow> status = 0)"
proof -
  have N: "150 \<le> numInts" by (simp add: numInts_def)
  have vec: "vector_ok env rand numInts (st, g, t)" if t: "t = 256 \<or> t = 512 \<or> t = 1024" for st g t
  proof -
    have "nat t dvd numInts" using t by (auto simp: numInts_def)
    then show ?thesis
      using TestScanBlock_passes [OF ok t _ N, of rand st g] by (simp add: vector_ok_def; blast)
  qed
  obtain ts where ts: "thread_counts maxThreads 256 = Some ts" "\<forall>t\<in>set ts. t = 256 \<or> t = 512 \<or> t = 1024"
    using maxT thread_counts_1024 thread_counts_512 by auto
  have "list_all (vector_ok env rand numInts) (main_vectors ts)"
    using ts(2) vec by (auto simp: main_vectors_def list_all_iff)
  then show ?thesis using run_vectors_ok ts(1) by (simp add: main_def)
qed

theorem main_returns_0_witness:
  "(\<exists>status. main True \<lparr>malloc_ok = True, cuda_ok = True, garbage_in = \<lambda>_. 0, garbage_out = \<lambda>_. 0\<rparr>
      (\<lambda>k. k) 1024 status) \<and>
   main True \<lparr>malloc_ok = True, cuda_ok = True, garbage_in = \<lambda>_. 0, garbage_out = \<lambda>_. 0\<rparr> (\<lambda>k. k) 1024 0"
  using main_returns_0 [of "\<lparr>malloc_ok = True, cuda_ok = True, garbage_in = \<lambda>_. 0, garbage_out = \<lambda>_. 0\<rparr>"
      1024 "\<lambda>k. k"]
  by auto

lemma last_segment_index:
  assumes "1024 dvd (N::nat)" "1024 \<le> N"
  shows "(N - 1) mod 1024 = 1023"
proof -
  obtain q :: nat where q: "N = 1024 * q" "0 < q" using assms by (auto elim!: dvdE)
  then have "N - 1 = 1023 + 1024 * (q - 1)" by simp
  then show ?thesis by simp
qed

lemma last_segment_sum:
  assumes "1024 dvd N" "1024 \<le> N"
  shows "periodic incl_scan 1024 (map of_nat [0..<N] :: int32 list) ! (N - 1) =
         of_nat (\<Sum>j = N - 1024..<N. j)"
proof -
  have m: "(N - 1) mod 1024 = 1023" using assms by (rule last_segment_index)
  have "take 1024 (drop (N - 1024) (map of_nat [0..<N] :: int32 list)) = map of_nat [N - 1024..<N]"
    using assms(2) by (simp add: drop_map take_map)
  moreover have "N - 1 - 1023 = N - 1024" using assms(2) by simp
  ultimately show ?thesis
    using assms(2) m
    by (simp add: nth_periodic_incl_scan sum_list_of_nat interv_sum_list_conv_sum_set_nat)
qed


end
