(* ===== verification/NbodyMain.thy ===== *)
theory NbodyMain
  imports Prelude
begin

text \<open>
  The driver of the N-body program (\<open>nbody.cu\<close>, in \<open>src/unnamed/part_000\<close>):
  \<open>main\<close> reads the command line and the device, initialises the globals that
  choose the force algorithm, and then loops, one time step per iteration, until
  the user presses \<open>q\<close>; the space bar rotates \<open>g_Algorithm\<close> through the
  algorithms up to \<open>g_maxAlgorithm\<close>.

  \<open>g_Algorithm\<close> is a C enum and is incremented as an \<open>int\<close>, so the state holds
  its integer value; \<open>alg\<close> gives the value of each enumerator.  The enum is
  declared in \<open>nbody.h\<close>, which is not among the sources: its order is the one the
  code relies on (CPU algorithms first, \<open>CPU_SSE_threaded\<close> the last of them,
  then the GPU algorithms up to \<open>multiGPU_MultiCPUThread\<close>, then the SM 3.0-only
  ones up to \<open>GPU_AOS_tiled\<close>).
\<close>

section \<open>The algorithm enum\<close>

datatype nbodyAlgorithm =
  CPU_AOS | CPU_AOS_tiled | CPU_SOA | CPU_SSE | CPU_SSE_threaded
| GPU_AOS | GPU_Shared | GPU_Const | multiGPU_SingleCPUThread | multiGPU_MultiCPUThread
| GPU_Shuffle | GPU_AOS_tiled

fun alg :: "nbodyAlgorithm \<Rightarrow> nat" where
  "alg CPU_AOS = 0" | "alg CPU_AOS_tiled = 1" | "alg CPU_SOA = 2" | "alg CPU_SSE = 3"
| "alg CPU_SSE_threaded = 4" | "alg GPU_AOS = 5" | "alg GPU_Shared = 6" | "alg GPU_Const = 7"
| "alg multiGPU_SingleCPUThread = 8" | "alg multiGPU_MultiCPUThread = 9"
| "alg GPU_Shuffle = 10" | "alg GPU_AOS_tiled = 11"

text \<open>Enumerators compare as the integers they stand for, as C compares enum
  values (\<open>g_Algorithm == g_maxAlgorithm\<close>, the order of the rotation).\<close>

instantiation nbodyAlgorithm :: linorder
begin

definition less_eq_nbodyAlgorithm :: "nbodyAlgorithm \<Rightarrow> nbodyAlgorithm \<Rightarrow> bool" where
  "less_eq_nbodyAlgorithm a b \<longleftrightarrow> alg a \<le> alg b"

definition less_nbodyAlgorithm :: "nbodyAlgorithm \<Rightarrow> nbodyAlgorithm \<Rightarrow> bool" where
  "less_nbodyAlgorithm a b \<longleftrightarrow> alg a < alg b"

instance
proof
  fix a b c :: nbodyAlgorithm
  show "a < b \<longleftrightarrow> a \<le> b \<and> \<not> b \<le> a" by (auto simp: less_eq_nbodyAlgorithm_def less_nbodyAlgorithm_def)
  show "a \<le> a" by (simp add: less_eq_nbodyAlgorithm_def)
  show "a \<le> b \<Longrightarrow> b \<le> c \<Longrightarrow> a \<le> c" by (simp add: less_eq_nbodyAlgorithm_def)
  show "a \<le> b \<Longrightarrow> b \<le> a \<Longrightarrow> a = b"
    by (cases a; cases b) (simp_all add: less_eq_nbodyAlgorithm_def)
  show "a \<le> b \<or> b \<le> a" by (auto simp: less_eq_nbodyAlgorithm_def)
qed

end

text \<open>The enumerator an \<open>int\<close> value stands for, if any: what the \<open>switch\<close> in
  \<open>ComputeGravitation\<close> and the name table see.\<close>

definition algorithm_of :: "nat \<Rightarrow> nbodyAlgorithm option" where
  "algorithm_of n = find (\<lambda>a. alg a = n)
     [CPU_AOS, CPU_AOS_tiled, CPU_SOA, CPU_SSE, CPU_SSE_threaded, GPU_AOS, GPU_Shared, GPU_Const,
      multiGPU_SingleCPUThread, multiGPU_MultiCPUThread, GPU_Shuffle, GPU_AOS_tiled]"

section \<open>Globals and main's set-up\<close>

text \<open>The globals \<open>main\<close> sets and the loop reads (lines 236--262, 332--346).
  \<open>g_N\<close> is a \<open>size_t\<close>.\<close>

record nbody_globals =
  g_bCUDAPresent :: bool
  g_bSM30Present :: bool
  g_bCrossCheck :: bool
  g_bUseSSEForCrossCheck :: bool
  g_bNoCPU :: bool
  g_Algorithm :: nat
  g_maxAlgorithm :: nat
  g_N :: "64 word"

text \<open>Static initialisation: \<open>g_bCrossCheck\<close> and \<open>g_bUseSSEForCrossCheck\<close> are
  \<open>true\<close>, everything else zero.\<close>

definition globals0 :: nbody_globals where
  "globals0 = \<lparr>g_bCUDAPresent = False, g_bSM30Present = False, g_bCrossCheck = True,
     g_bUseSSEForCrossCheck = True, g_bNoCPU = False, g_Algorithm = 0, g_maxAlgorithm = 0, g_N = 0\<rparr>"

text \<open>What \<open>main\<close>'s set-up reads from outside: whether the worker thread pools
  start, what \<open>cudaGetDeviceCount\<close> returns, the major compute capability of
  device 0, whether \<open>initializeGPU\<close> succeeds on every GPU and whether every later
  \<open>CUDART_CHECK\<close>ed call succeeds, and the command-line options.\<close>

record nbody_env =
  pools_ok :: bool
  device_count_ok :: bool
  numGPUs :: nat
  sm_major :: nat
  gpus_init_ok :: bool
  cuda_calls_ok :: bool
  opt_nocrosscheck :: bool
  opt_nocpu :: bool
  opt_nosse :: bool
  opt_numbodies :: "int32 option"

text \<open>\<open>g_N = kParticles*1024\<close> (line 647): an \<open>int\<close> product, converted to
  \<open>size_t\<close> by sign extension.\<close>

definition bodies_of :: "int32 \<Rightarrow> 64 word" where
  "bodies_of kParticles = scast (kParticles * 1024)"

text \<open>\<open>main\<close> up to the simulation loop (lines 569--702): \<open>Inl\<close> is the exit
  status of an early return or \<open>exit\<close>, \<open>Inr\<close> the globals the loop starts from.
  The \<open>--nocpu\<close> check of line 607 reads \<open>g_bNoCPU\<close> before line 638 sets it.\<close>

definition nbody_setup :: "nbody_env \<Rightarrow> int + nbody_globals" where
  "nbody_setup env =
     (if \<not> pools_ok env then Inl 1
      else
        let cuda = (device_count_ok env \<and> 0 < numGPUs env);
            sm30 = (cuda \<and> 3 \<le> sm_major env) in
        if cuda \<and> \<not> cuda_calls_ok env then Inl 1
        else if g_bNoCPU globals0 \<and> \<not> cuda then Inl 1
        else if 0 < numGPUs env \<and> \<not> gpus_init_ok env then Inl 1
        else
          let crossCheck0 = (\<not> opt_nocrosscheck env);
              noCPU = opt_nocpu env;
              crossCheck = (if noCPU then False else crossCheck0);
              useSSE = (if crossCheck \<and> opt_nosse env then False else g_bUseSSEForCrossCheck globals0);
              kParticles = (case opt_numbodies env of None \<Rightarrow> 4 | Some k \<Rightarrow> k);
              algorithm = (if cuda then alg GPU_AOS else alg CPU_SSE_threaded);
              maxAlgorithm0 = alg CPU_SSE_threaded;
              maxAlgorithm1 = (if cuda \<or> noCPU
                               then (if sm30 then alg GPU_AOS_tiled else alg multiGPU_MultiCPUThread)
                               else maxAlgorithm0);
              maxAlgorithm = (if cuda \<and> sm_major env < 3 then alg multiGPU_MultiCPUThread
                              else maxAlgorithm1)
          in Inr (globals0\<lparr>g_bCUDAPresent := cuda, g_bSM30Present := sm30,
                    g_bCrossCheck := crossCheck, g_bUseSSEForCrossCheck := useSSE,
                    g_bNoCPU := noCPU, g_Algorithm := algorithm, g_maxAlgorithm := maxAlgorithm,
                    g_N := bodies_of kParticles\<rparr>))"

section \<open>The simulation loop\<close>

text \<open>The key handling of the loop (lines 728--747): the space bar advances
  \<open>g_Algorithm\<close> by one, or, at \<open>g_maxAlgorithm\<close>, wraps to \<open>GPU_AOS\<close> or
  \<open>CPU_AOS\<close>, overridden by \<open>CPU_SSE_threaded\<close> when the cross-check uses SSE;
  \<open>q\<close> and \<open>Q\<close> set \<open>bStop\<close>.\<close>

definition key_press :: "nbody_globals \<Rightarrow> char \<Rightarrow> nbody_globals \<times> bool" where
  "key_press g c =
     (if c = CHR '' '' then
        (if g_Algorithm g = g_maxAlgorithm g then
           let a = (if g_bNoCPU g then alg GPU_AOS else alg CPU_AOS);
               a' = (if g_bUseSSEForCrossCheck g then alg CPU_SSE_threaded else a)
           in (g\<lparr>g_Algorithm := a'\<rparr>, False)
         else (g\<lparr>g_Algorithm := g_Algorithm g + 1\<rparr>, False))
      else if c = CHR ''q'' \<or> c = CHR ''Q'' then (g, True)
      else (g, False))"

text \<open>One iteration of \<open>while (!bStop)\<close> (lines 704--751): \<open>ok\<close> is the
  result of \<open>ComputeGravitation\<close> (\<open>false\<close> ends the program with \<open>exit(1)\<close>),
  \<open>key\<close> the key \<open>kbhit\<close>/\<open>getch\<close> deliver, if any.\<close>

definition nbody_frame :: "nbody_globals \<Rightarrow> bool \<Rightarrow> char option \<Rightarrow> int + nbody_globals \<times> bool" where
  "nbody_frame g ok key =
     (if \<not> ok then Inl 1
      else case key of None \<Rightarrow> Inr (g, False) | Some c \<Rightarrow> Inr (key_press g c))"

text \<open>The globals the loop can reach from the set-up, frame by frame, while
  \<open>bStop\<close> is false.\<close>

inductive nbody_reach :: "nbody_env \<Rightarrow> nbody_globals \<Rightarrow> bool" for env :: nbody_env where
  start: "nbody_setup env = Inr g \<Longrightarrow> nbody_reach env g"
| frame: "nbody_reach env g \<Longrightarrow> nbody_frame g ok key = Inr (g', False) \<Longrightarrow> nbody_reach env g'"

inductive_cases nbody_reachE: "nbody_reach env g"

text \<open>Pressing the space bar \<open>k\<close> times.\<close>

definition press_space :: "nat \<Rightarrow> nbody_globals \<Rightarrow> nbody_globals" where
  "press_space k = (\<lambda>g. fst (key_press g (CHR '' ''))) ^^ k"

text \<open>The invariant of the loop: the algorithm is at most the maximum, the
  maximum is one of the three the set-up chooses, never \<open>GPU_AOS_tiled\<close> without
  SM 3.0, and not \<open>CPU_SSE_threaded\<close> under \<open>--nocpu\<close>.\<close>

definition nbody_inv :: "nbody_globals \<Rightarrow> bool" where
  "nbody_inv g \<longleftrightarrow>
     g_Algorithm g \<le> g_maxAlgorithm g \<and>
     g_maxAlgorithm g \<in> {alg CPU_SSE_threaded, alg multiGPU_MultiCPUThread, alg GPU_AOS_tiled} \<and>
     (\<not> g_bSM30Present g \<longrightarrow> g_maxAlgorithm g \<noteq> alg GPU_AOS_tiled) \<and>
     (g_bNoCPU g \<longrightarrow> g_maxAlgorithm g \<noteq> alg CPU_SSE_threaded)"


section \<open>Lemmas on the set-up and the key handling\<close>

lemma key_press_fields:
  "g_bCUDAPresent (fst (key_press g c)) = g_bCUDAPresent g \<and>
   g_bSM30Present (fst (key_press g c)) = g_bSM30Present g \<and>
   g_bNoCPU (fst (key_press g c)) = g_bNoCPU g \<and>
   g_bUseSSEForCrossCheck (fst (key_press g c)) = g_bUseSSEForCrossCheck g \<and>
   g_maxAlgorithm (fst (key_press g c)) = g_maxAlgorithm g \<and>
   g_bCrossCheck (fst (key_press g c)) = g_bCrossCheck g \<and> g_N (fst (key_press g c)) = g_N g"
  by (simp add: key_press_def Let_def)

lemma key_press_stop: "snd (key_press g c) \<longleftrightarrow> c = CHR ''q'' \<or> c = CHR ''Q''"
  by (simp add: key_press_def Let_def)

lemma nbody_setup_cuda:
  assumes "pools_ok env" "device_count_ok env" "0 < numGPUs env" "gpus_init_ok env" "cuda_calls_ok env"
    "opt_numbodies env = Some kParticles"
  shows "\<exists>g. nbody_setup env = Inr g \<and> g_bCUDAPresent g \<and> g_N g = bodies_of kParticles"
  using assms by (simp add: nbody_setup_def Let_def globals0_def)

lemma nbody_setup_inv:
  "nbody_setup env = Inr g \<Longrightarrow> nbody_inv g"
  by (auto simp: nbody_setup_def nbody_inv_def globals0_def Let_def split: if_splits)

lemma key_press_inv:
  "nbody_inv g \<Longrightarrow> nbody_inv (fst (key_press g c))"
  by (auto simp: nbody_inv_def key_press_def Let_def)

lemma nbody_frame_inv:
  "nbody_inv g \<Longrightarrow> nbody_frame g ok key = Inr (g', b) \<Longrightarrow> nbody_inv g'"
  using key_press_inv [of g] by (auto simp: nbody_frame_def split: if_splits option.splits) (metis fst_conv)

lemma nbody_reach_inv:
  "nbody_reach env g \<Longrightarrow> nbody_inv g"
  by (induction rule: nbody_reach.induct) (auto intro: nbody_setup_inv nbody_frame_inv)

lemma algorithm_of_alg: "algorithm_of (alg a) = Some a"
  by (cases a) (simp_all add: algorithm_of_def)

lemma algorithm_of_le_11:
  "n \<le> 11 \<Longrightarrow> \<exists>a. algorithm_of n = Some a \<and> alg a = n"
  by (auto simp: algorithm_of_def numeral_eq_Suc le_Suc_eq)

lemma nbody_reach_algorithm:
  assumes "nbody_reach env g"
  shows "\<exists>a. algorithm_of (g_Algorithm g) = Some a \<and> alg a = g_Algorithm g"
proof -
  have "g_Algorithm g \<le> 11" using nbody_reach_inv [OF assms] by (auto simp: nbody_inv_def)
  then show ?thesis by (rule algorithm_of_le_11)
qed

text \<open>Without SM 3.0 the loop only reaches the algorithms up to
  \<open>multiGPU_MultiCPUThread\<close>: the SM 3.0-only ones come after it in the enum.\<close>

lemma nbody_reach_no_sm30:
  assumes "nbody_reach env g" "\<not> g_bSM30Present g"
  shows "\<exists>a. algorithm_of (g_Algorithm g) = Some a \<and> a \<le> multiGPU_MultiCPUThread"
proof -
  obtain a where a: "algorithm_of (g_Algorithm g) = Some a" "alg a = g_Algorithm g"
    using nbody_reach_algorithm [OF assms(1)] by blast
  have "g_Algorithm g \<le> 9" using nbody_reach_inv [OF assms(1)] assms(2) by (auto simp: nbody_inv_def)
  then show ?thesis using a by (auto simp: less_eq_nbodyAlgorithm_def)
qed

lemma press_space_Suc: "press_space (Suc k) g = fst (key_press (press_space k g) (CHR '' ''))"
  by (simp add: press_space_def)

lemma press_space_add: "press_space (a + b) g = press_space a (press_space b g)"
  by (simp add: press_space_def funpow_add)

lemma press_space_below:
  "g_Algorithm g + k \<le> g_maxAlgorithm g \<Longrightarrow>
   press_space k g = g\<lparr>g_Algorithm := g_Algorithm g + k\<rparr>"
  by (induction k) (simp_all add: press_space_def key_press_def)

lemma press_space_wrap:
  "g_Algorithm g = g_maxAlgorithm g \<Longrightarrow>
   press_space 1 g = g\<lparr>g_Algorithm := (if g_bUseSSEForCrossCheck g then alg CPU_SSE_threaded
                                       else if g_bNoCPU g then alg GPU_AOS else alg CPU_AOS)\<rparr>"
  by (simp add: press_space_def key_press_def Let_def)

lemma nbody_reach_press_space:
  "nbody_reach env g \<Longrightarrow> nbody_reach env (press_space k g)"
proof (induction k)
  case 0
  then show ?case by (simp add: press_space_def)
next
  case (Suc k)
  have "nbody_frame (press_space k g) True (Some (CHR '' '')) = Inr (press_space (Suc k) g, False)"
    by (simp add: nbody_frame_def press_space_Suc key_press_def Let_def)
  then show ?case using Suc by (blast intro: nbody_reach.frame)
qed

section \<open>Properties of the driver\<close>

lemma nbody_setup_facts:
  assumes "nbody_setup env = Inr g"
  shows "g_bNoCPU g = opt_nocpu env \<and>
         g_bCUDAPresent g = (device_count_ok env \<and> 0 < numGPUs env) \<and>
         g_Algorithm g = (if g_bCUDAPresent g then alg GPU_AOS else alg CPU_SSE_threaded) \<and>
         (opt_nocpu env \<longrightarrow> g_bUseSSEForCrossCheck g) \<and>
         g_maxAlgorithm g = (if g_bCUDAPresent g \<or> opt_nocpu env
                             then (if g_bSM30Present g then alg GPU_AOS_tiled else alg multiGPU_MultiCPUThread)
                             else alg CPU_SSE_threaded) \<and>
         pools_ok env"
  using assms by (auto simp: nbody_setup_def globals0_def Let_def split: if_splits)



lemma press_space_cycle_visits:
  assumes inv: "g_Algorithm g \<le> g_maxAlgorithm g" and sse: "g_bUseSSEForCrossCheck g"
    and lo: "alg CPU_SSE_threaded \<le> g_Algorithm g"
  shows "press_space (g_maxAlgorithm g + 1 - alg CPU_SSE_threaded) g = g \<and>
         (\<forall>a. alg CPU_SSE_threaded \<le> a \<and> a \<le> g_maxAlgorithm g \<longrightarrow>
              (\<exists>k < g_maxAlgorithm g + 1 - alg CPU_SSE_threaded. g_Algorithm (press_space k g) = a))"
proof -
  let ?m = "g_maxAlgorithm g" and ?x = "g_Algorithm g" and ?s = "alg CPU_SSE_threaded"
  have top: "press_space (?m - ?x) g = g\<lparr>g_Algorithm := ?m\<rparr>"
    using inv by (subst press_space_below) simp_all
  have wrap: "press_space (1 + (?m - ?x)) g = g\<lparr>g_Algorithm := ?s\<rparr>"
    unfolding press_space_add top using sse by (subst press_space_wrap) simp_all
  have from_s: "press_space j (press_space (1 + (?m - ?x)) g) = g\<lparr>g_Algorithm := ?s + j\<rparr>"
    if "?s + j \<le> ?m" for j
    unfolding wrap using that by (subst press_space_below) simp_all
  have eq: "?m + 1 - ?s = (?x - ?s) + (1 + (?m - ?x))" using inv lo by simp
  have "press_space (?m + 1 - ?s) g = press_space (?x - ?s) (press_space (1 + (?m - ?x)) g)"
    unfolding eq by (rule press_space_add)
  also have "\<dots> = g" using from_s [of "?x - ?s"] inv lo by simp
  finally have cyc: "press_space (?m + 1 - ?s) g = g" .
  have "\<exists>k < ?m + 1 - ?s. g_Algorithm (press_space k g) = a" if a: "?s \<le> a" "a \<le> ?m" for a
  proof (cases "?x \<le> a")
    case True
    then show ?thesis using a lo press_space_below [of g "a - ?x"] by (intro exI [of _ "a - ?x"]) simp
  next
    case False
    have "press_space ((a - ?s) + (1 + (?m - ?x))) g = press_space (a - ?s) (press_space (1 + (?m - ?x)) g)"
      by (rule press_space_add)
    then have "g_Algorithm (press_space ((a - ?s) + (1 + (?m - ?x))) g) = a"
      using from_s [of "a - ?s"] a by simp
    then show ?thesis using False a inv lo by (intro exI [of _ "(a - ?s) + (1 + (?m - ?x))"]) simp
  qed
  with cyc show ?thesis by blast
qed

lemma nbody_example_setup:
  "nbody_setup \<lparr>pools_ok = True, device_count_ok = True, numGPUs = 1, sm_major = 3, gpus_init_ok = True,
      cuda_calls_ok = True, opt_nocrosscheck = False, opt_nocpu = True, opt_nosse = False, opt_numbodies = None\<rparr> =
   Inr \<lparr>g_bCUDAPresent = True, g_bSM30Present = True, g_bCrossCheck = False, g_bUseSSEForCrossCheck = True,
      g_bNoCPU = True, g_Algorithm = 5, g_maxAlgorithm = 11, g_N = 4096\<rparr>"
  by (simp add: nbody_setup_def globals0_def bodies_of_def)





text \<open>The set-up on a machine without CUDA under \<open>--nocpu\<close>, and the state
  after one press of the space bar.\<close>

lemma nbody_setup_nocpu_no_cuda:
  assumes "pools_ok env" "\<not> (device_count_ok env \<and> 0 < numGPUs env)" "opt_nocpu env"
    "numGPUs env = 0 \<or> gpus_init_ok env"
  shows "\<exists>g. nbody_setup env = Inr g \<and> \<not> g_bCUDAPresent g \<and> g_Algorithm g = alg CPU_SSE_threaded \<and>
             nbody_reach env (press_space 1 g) \<and> press_space 1 g = g\<lparr>g_Algorithm := alg GPU_AOS\<rparr>"
proof -
  obtain g where g: "nbody_setup env = Inr g"
    using assms by (auto simp: nbody_setup_def Let_def globals0_def)
  have f: "\<not> g_bCUDAPresent g" "g_Algorithm g = alg CPU_SSE_threaded"
      "g_maxAlgorithm g = alg multiGPU_MultiCPUThread"
    using nbody_setup_facts [OF g] assms(2,3) g
    by (auto simp: nbody_setup_def Let_def globals0_def split: if_splits)
  have "press_space 1 g = g\<lparr>g_Algorithm := alg GPU_AOS\<rparr>"
    using f by (subst press_space_below) simp_all
  moreover have "nbody_reach env (press_space 1 g)"
    using g by (intro nbody_reach_press_space nbody_reach.start)
  ultimately show ?thesis using g f by blast
qed

text \<open>C21: the check \<open>if (g_bNoCPU && !g_bCUDAPresent) exit(1)\<close> (line 607)
  runs before \<open>--nocpu\<close> is parsed, so it never fires: without CUDA, \<open>--nocpu\<close>
  starts \<open>CPU_SSE_threaded\<close> and raises \<open>g_maxAlgorithm\<close> to
  \<open>multiGPU_MultiCPUThread\<close>, and one press of the space bar selects \<open>GPU_AOS\<close>
  on a machine without CUDA.\<close>

theorem nbody_nocpu_check_dead:
  assumes "pools_ok env" "\<not> (device_count_ok env \<and> 0 < numGPUs env)" "opt_nocpu env"
    "numGPUs env = 0 \<or> gpus_init_ok env"
  shows "\<exists>g. nbody_setup env = Inr g \<and> \<not> g_bCUDAPresent g \<and> g_Algorithm g = alg CPU_SSE_threaded \<and>
             nbody_reach env (press_space 1 g) \<and> g_Algorithm (press_space 1 g) = alg GPU_AOS"
  using nbody_setup_nocpu_no_cuda [OF assms] by auto

theorem nbody_nocpu_check_dead_witness:
  "\<exists>g. nbody_setup \<lparr>pools_ok = True, device_count_ok = False, numGPUs = 0, sm_major = 0, gpus_init_ok = True,
      cuda_calls_ok = True, opt_nocrosscheck = False, opt_nocpu = True, opt_nosse = False, opt_numbodies = None\<rparr> = Inr g \<and>
     \<not> g_bCUDAPresent g \<and> g_Algorithm (press_space 1 g) = alg GPU_AOS"
  using nbody_nocpu_check_dead [of "\<lparr>pools_ok = True, device_count_ok = False, numGPUs = 0, sm_major = 0,
      gpus_init_ok = True, cuda_calls_ok = True, opt_nocrosscheck = False, opt_nocpu = True, opt_nosse = False,
      opt_numbodies = None\<rparr>"]
  by auto



end
