(* ===== verification/NbodyForces.thy ===== *)
theory NbodyForces
  imports Complex_Main NbodyMain
begin

text \<open>
  One time step of the N-body program (\<open>src/unnamed/part_000\<close>):
  \<open>ComputeGravitation\<close> converts the bodies from the array-of-structures layout
  (\<open>x, y, z, mass\<close> per body) to the structure-of-arrays layout, optionally computes
  the golden forces for the cross-check, runs the selected force algorithm, brings
  its forces back to the AOS layout, measures the largest relative error against
  the golden forces, and integrates positions and velocities
  (\<open>integrateGravitation_AOS\<close>).

  The force algorithms themselves are in headers that are not among the sources;
  they are the parameters of \<open>force_impls\<close>.  Floats are a type variable \<open>'f\<close>
  with the operations the code applies to them; the definitions use nothing else,
  so they describe IEEE single precision as well as any other instance.  Lemmas
  that need algebraic laws state them as a class constraint.  \<open>==\<close> on floats is
  HOL equality, so NaN is not modelled.
\<close>

section \<open>relError\<close>

text \<open>The overload \<open>relError(T a, T b)\<close> (lines 263--271), the one the call at
  line 523 deduces (the other template, lines 228--234, cannot deduce \<open>T\<close>).\<close>

definition relError :: "'f::{zero,minus,uminus,inverse,ord} \<Rightarrow> 'f \<Rightarrow> 'f" where
  "relError a b =
     (if a = b then 0
      else let relErr = (a - b) / b in if relErr < 0 then - relErr else relErr)"

section \<open>integrateGravitation_AOS\<close>

text \<open>Array accesses by a C \<open>int\<close> index: a negative or too large index is a
  fault (\<open>None\<close>).\<close>

definition rd :: "'a list \<Rightarrow> int \<Rightarrow> 'a option" where
  "rd xs k = (if 0 \<le> k \<and> nat k < length xs then Some (xs ! nat k) else None)"

definition wr :: "'a list \<Rightarrow> int \<Rightarrow> 'a \<Rightarrow> 'a list option" where
  "wr xs k v = (if 0 \<le> k \<and> nat k < length xs then Some (xs[nat k := v]) else None)"

text \<open>\<open>int index = 4*i;\<close>: a \<open>size_t\<close> converted to \<open>int\<close>, modulo 2^32.\<close>

definition int_of_size :: "nat \<Rightarrow> int" where
  "int_of_size n = sint (word_of_nat n :: int32)"

text \<open>The loop of \<open>integrateGravitation_AOS\<close> (lines 286--330).\<close>

function integrate_loop ::
  "'f::{plus,times} \<Rightarrow> 'f \<Rightarrow> nat \<Rightarrow> nat \<Rightarrow> 'f list \<Rightarrow> 'f list \<Rightarrow> 'f list \<Rightarrow> ('f list \<times> 'f list) option" where
  "integrate_loop dt damping N i ppos pvel pforce =
     (if i < N then do {
        let index = int_of_size (4 * i);
        let indexForce = int_of_size (3 * i);
        pos0 \<leftarrow> rd ppos (index + 0); pos1 \<leftarrow> rd ppos (index + 1); pos2 \<leftarrow> rd ppos (index + 2);
        invMass \<leftarrow> rd pvel (index + 3);
        vel0 \<leftarrow> rd pvel (index + 0); vel1 \<leftarrow> rd pvel (index + 1); vel2 \<leftarrow> rd pvel (index + 2);
        force0 \<leftarrow> rd pforce (indexForce + 0); force1 \<leftarrow> rd pforce (indexForce + 1);
        force2 \<leftarrow> rd pforce (indexForce + 2);
        let vel0 = vel0 + (force0 * invMass) * dt;
        let vel1 = vel1 + (force1 * invMass) * dt;
        let vel2 = vel2 + (force2 * invMass) * dt;
        let vel0 = vel0 * damping; let vel1 = vel1 * damping; let vel2 = vel2 * damping;
        let pos0 = pos0 + vel0 * dt; let pos1 = pos1 + vel1 * dt; let pos2 = pos2 + vel2 * dt;
        ppos \<leftarrow> wr ppos (index + 0) pos0; ppos \<leftarrow> wr ppos (index + 1) pos1;
        ppos \<leftarrow> wr ppos (index + 2) pos2;
        pvel \<leftarrow> wr pvel (index + 0) vel0; pvel \<leftarrow> wr pvel (index + 1) vel1;
        pvel \<leftarrow> wr pvel (index + 2) vel2;
        integrate_loop dt damping N (Suc i) ppos pvel pforce
      }
      else Some (ppos, pvel))"
  by pat_completeness auto
termination by (relation "measure (\<lambda>(_, _, N, i, _, _, _). N - i)") auto

declare integrate_loop.simps [simp del]

definition integrateGravitation_AOS ::
  "'f::{plus,times} list \<Rightarrow> 'f list \<Rightarrow> 'f list \<Rightarrow> 'f \<Rightarrow> 'f \<Rightarrow> nat \<Rightarrow> ('f list \<times> 'f list) option" where
  "integrateGravitation_AOS ppos pvel pforce dt damping N = integrate_loop dt damping N 0 ppos pvel pforce"

text \<open>One iteration of that loop on in-range indices, as list updates: the
  reference the loop is proved to follow.\<close>

definition integrate_body ::
  "'f::{plus,times} \<Rightarrow> 'f \<Rightarrow> 'f list \<Rightarrow> nat \<Rightarrow> 'f list \<times> 'f list \<Rightarrow> 'f list \<times> 'f list" where
  "integrate_body dt damping pforce i st =
     (let (ppos, pvel) = st;
          vel = (\<lambda>c. (pvel ! (4 * i + c) + (pforce ! (3 * i + c) * pvel ! (4 * i + 3)) * dt) * damping);
          pos = (\<lambda>c. ppos ! (4 * i + c) + vel c * dt)
      in (ppos[4 * i := pos 0, 4 * i + 1 := pos 1, 4 * i + 2 := pos 2],
          pvel[4 * i := vel 0, 4 * i + 1 := vel 1, 4 * i + 2 := vel 2]))"


section \<open>ComputeGravitation\<close>

text \<open>The host and device buffers \<open>ComputeGravitation\<close> reads and writes
  (globals of lines 239--256): AOS arrays of \<open>4N\<close> and \<open>3N\<close> floats, SOA arrays
  of \<open>N\<close> floats (\<open>g_hostSOA_Pos\<close> and \<open>g_hostSOA_Force\<close> are arrays of three
  pointers, here lists of three lists).\<close>

record 'f nbody_host =
  hostAOS_PosMass :: "'f list"
  hostAOS_VelInvMass :: "'f list"
  hostAOS_Force :: "'f list"
  hostAOS_Force_Golden :: "'f list"
  hostSOA_Pos :: "'f list list"
  hostSOA_Force :: "'f list list"
  hostSOA_Mass :: "'f list"
  hostSOA_InvMass :: "'f list"
  dptrAOS_PosMass :: "'f list"
  dptrAOS_Force :: "'f list"

text \<open>The force algorithms, which live in headers outside the sources: an AOS
  algorithm maps the \<open>4N\<close> positions and masses to \<open>3N\<close> forces; an SOA one maps
  the three position arrays and the masses to three force arrays; a GPU or
  multi-GPU one gets the force buffer as it is before the call.\<close>

record 'f force_impls =
  aos_impl :: "nbodyAlgorithm \<Rightarrow> 'f list \<Rightarrow> 'f list"
  soa_impl :: "nbodyAlgorithm \<Rightarrow> 'f list list \<Rightarrow> 'f list \<Rightarrow> 'f list list"
  gpu_impl :: "nbodyAlgorithm \<Rightarrow> 'f list \<Rightarrow> 'f list \<Rightarrow> 'f list"
  multi_impl :: "nbodyAlgorithm \<Rightarrow> 'f list \<Rightarrow> 'f list \<Rightarrow> 'f list"

definition upd2 :: "'a list list \<Rightarrow> nat \<Rightarrow> nat \<Rightarrow> 'a \<Rightarrow> 'a list list" where
  "upd2 xss c i v = xss[c := (xss ! c)[i := v]]"

text \<open>AOS to SOA (lines 359--365); \<open>g_hostSOA_InvMass[i]\<close> reads back the mass
  just stored.\<close>

definition aos_to_soa_body :: "nat \<Rightarrow> 'f::{one,inverse} nbody_host \<Rightarrow> 'f nbody_host" where
  "aos_to_soa_body i h =
     (let pm = hostAOS_PosMass h;
          h = h\<lparr>hostSOA_Pos := upd2 (hostSOA_Pos h) 0 i (pm ! (4 * i + 0))\<rparr>;
          h = h\<lparr>hostSOA_Pos := upd2 (hostSOA_Pos h) 1 i (pm ! (4 * i + 1))\<rparr>;
          h = h\<lparr>hostSOA_Pos := upd2 (hostSOA_Pos h) 2 i (pm ! (4 * i + 2))\<rparr>;
          h = h\<lparr>hostSOA_Mass := (hostSOA_Mass h)[i := pm ! (4 * i + 3)]\<rparr>
      in h\<lparr>hostSOA_InvMass := (hostSOA_InvMass h)[i := 1 / hostSOA_Mass h ! i]\<rparr>)"

definition aos_to_soa :: "nat \<Rightarrow> 'f::{one,inverse} nbody_host \<Rightarrow> 'f nbody_host" where
  "aos_to_soa N = for_loop 0 N aos_to_soa_body"

text \<open>SOA to AOS for forces (lines 376--379 for the golden forces, 511--516
  after an SOA algorithm).\<close>

definition soa_to_aos :: "nat \<Rightarrow> 'f list list \<Rightarrow> 'f list \<Rightarrow> 'f list" where
  "soa_to_aos N soa = for_loop 0 N (\<lambda>i dst.
     dst[3 * i + 0 := soa ! 0 ! i, 3 * i + 1 := soa ! 1 ! i, 3 * i + 2 := soa ! 2 ! i])"

text \<open>The largest relative error against the golden forces (lines 519--529).\<close>

definition max_rel_error :: "nat \<Rightarrow> 'f::{zero,minus,uminus,inverse,ord} list \<Rightarrow> 'f list \<Rightarrow> 'f" where
  "max_rel_error N force golden = for_loop 0 (3 * N) (\<lambda>i mx.
     let err = relError (force ! i) (golden ! i) in if err > mx then err else mx) 0"

text \<open>The \<open>switch (algorithm)\<close> of lines 394--508: the first component is
  \<open>false\<close> when a \<open>CUDART_CHECK\<close>ed call fails (\<open>cuda\<close> is whether CUDA calls
  succeed), the second is \<open>bSOA\<close>.  A value that is no enumerator matches no
  case.\<close>

definition gravitation_switch ::
  "'f::zero force_impls \<Rightarrow> bool \<Rightarrow> nat \<Rightarrow> nat \<Rightarrow> 'f nbody_host \<Rightarrow> bool \<times> bool \<times> 'f nbody_host" where
  "gravitation_switch impls cuda N algorithm h =
     (let aos = (\<lambda>a. (True, False, h\<lparr>hostAOS_Force := aos_impl impls a (hostAOS_PosMass h)\<rparr>));
          soa = (\<lambda>a. (True, True, h\<lparr>hostSOA_Force := soa_impl impls a (hostSOA_Pos h) (hostSOA_Mass h)\<rparr>));
          gpu = (\<lambda>a d. let h' = h\<lparr>dptrAOS_Force := gpu_impl impls a d (dptrAOS_PosMass h)\<rparr>
                       in if cuda then (True, False, h'\<lparr>hostAOS_Force := dptrAOS_Force h'\<rparr>)
                          else (False, False, h'));
          gpu0 = (\<lambda>a. if cuda then gpu a (replicate (3 * N) 0) else (False, False, h));
          multi = (\<lambda>a. (True, False, h\<lparr>hostAOS_Force :=
                      multi_impl impls a (replicate (3 * N) 0) (hostAOS_PosMass h)\<rparr>))
      in case algorithm_of algorithm of
           None \<Rightarrow> (True, False, h)
         | Some a \<Rightarrow> (case a of
             CPU_AOS \<Rightarrow> aos a | CPU_AOS_tiled \<Rightarrow> aos a
           | CPU_SOA \<Rightarrow> soa a | CPU_SSE \<Rightarrow> soa a | CPU_SSE_threaded \<Rightarrow> soa a
           | GPU_AOS \<Rightarrow> gpu a (dptrAOS_Force h) | GPU_AOS_tiled \<Rightarrow> gpu a (dptrAOS_Force h)
           | GPU_Shared \<Rightarrow> gpu0 a | GPU_Const \<Rightarrow> gpu0 a | GPU_Shuffle \<Rightarrow> gpu0 a
           | multiGPU_SingleCPUThread \<Rightarrow> multi a | multiGPU_MultiCPUThread \<Rightarrow> multi a))"

text \<open>What one call of \<open>ComputeGravitation\<close> can do: return \<open>false\<close> after a
  failed CUDA call, fault on an out-of-range access, or return \<open>true\<close> with
  \<open>*maxRelError\<close> and the new buffers.\<close>

datatype 'a step_outcome = Returned_false | Fault | Returned_true 'a

text \<open>\<open>ComputeGravitation\<close> (lines 349--541).  A CUDA call succeeds when
  CUDA is present and \<open>cuda_ok\<close> holds.\<close>

definition ComputeGravitation ::
  "'f::{zero,one,plus,minus,uminus,times,inverse,ord} force_impls \<Rightarrow> bool \<Rightarrow> nbody_globals \<Rightarrow> 'f \<Rightarrow> 'f \<Rightarrow>
   nat \<Rightarrow> bool \<Rightarrow> 'f nbody_host \<Rightarrow> ('f \<times> 'f nbody_host) step_outcome" where
  "ComputeGravitation impls cuda_ok g dt damping algorithm bCrossCheck h =
     (let N = unat (g_N g);
          cuda = (g_bCUDAPresent g \<and> cuda_ok);
          h = aos_to_soa N h;
          h = (if bCrossCheck then
                 (if g_bUseSSEForCrossCheck g then
                    let h = h\<lparr>hostSOA_Force := soa_impl impls CPU_SSE_threaded (hostSOA_Pos h) (hostSOA_Mass h)\<rparr>
                    in h\<lparr>hostAOS_Force_Golden := soa_to_aos N (hostSOA_Force h) (hostAOS_Force_Golden h)\<rparr>
                  else h\<lparr>hostAOS_Force_Golden := aos_impl impls CPU_AOS (hostAOS_PosMass h)\<rparr>)
               else h)
      in if g_bCUDAPresent g \<and> \<not> cuda then Returned_false
         else
           let h = (if g_bCUDAPresent g then h\<lparr>dptrAOS_PosMass := hostAOS_PosMass h\<rparr> else h);
               (ok, bSOA, h) = gravitation_switch impls cuda N algorithm h
           in if \<not> ok then Returned_false
              else
                let h = (if bSOA then h\<lparr>hostAOS_Force := soa_to_aos N (hostSOA_Force h) (hostAOS_Force h)\<rparr>
                         else h);
                    maxRelError = (if bCrossCheck then max_rel_error N (hostAOS_Force h) (hostAOS_Force_Golden h)
                                   else 0)
                in case integrateGravitation_AOS (hostAOS_PosMass h) (hostAOS_VelInvMass h) (hostAOS_Force h)
                          dt damping N of
                     None \<Rightarrow> Fault
                   | Some (ppos, pvel) \<Rightarrow>
                       Returned_true (maxRelError, h\<lparr>hostAOS_PosMass := ppos, hostAOS_VelInvMass := pvel\<rparr>))"


section \<open>Reference layouts and the contract of the force algorithms\<close>

text \<open>The SOA views of an AOS array: the three coordinates and the masses of
  \<open>4N\<close> positions, and the three components of \<open>3N\<close> forces.\<close>

definition soa_pos :: "nat \<Rightarrow> 'f list \<Rightarrow> 'f list list" where
  "soa_pos N pm = map (\<lambda>c. map (\<lambda>i. pm ! (4 * i + c)) [0..<N]) [0, 1, 2]"

definition soa_mass :: "nat \<Rightarrow> 'f list \<Rightarrow> 'f list" where
  "soa_mass N pm = map (\<lambda>i. pm ! (4 * i + 3)) [0..<N]"

definition soa_of_aos3 :: "nat \<Rightarrow> 'f list \<Rightarrow> 'f list list" where
  "soa_of_aos3 N xs = map (\<lambda>c. map (\<lambda>i. xs ! (3 * i + c)) [0..<N]) [0, 1, 2]"

text \<open>Three arrays of \<open>N\<close> floats, as \<open>g_hostSOA_Pos\<close> and \<open>g_hostSOA_Force\<close>.\<close>

definition soa_shape :: "nat \<Rightarrow> 'f list list \<Rightarrow> bool" where
  "soa_shape N xs \<longleftrightarrow> length xs = 3 \<and> (\<forall>c<3. length (xs ! c) = N)"

text \<open>Buffers of the sizes \<open>main\<close> allocates for \<open>N\<close> bodies.\<close>

definition host_wf :: "nat \<Rightarrow> 'f nbody_host \<Rightarrow> bool" where
  "host_wf N h \<longleftrightarrow>
     length (hostAOS_PosMass h) = 4 * N \<and> length (hostAOS_VelInvMass h) = 4 * N \<and>
     length (hostAOS_Force h) = 3 * N \<and> length (hostAOS_Force_Golden h) = 3 * N \<and>
     soa_shape N (hostSOA_Pos h) \<and> soa_shape N (hostSOA_Force h) \<and>
     length (hostSOA_Mass h) = N \<and> length (hostSOA_InvMass h) = N"

text \<open>Every algorithm computes the force field \<open>F\<close> of the bodies, in its own
  layout.\<close>

definition impls_compute :: "('f list \<Rightarrow> 'f list) \<Rightarrow> nat \<Rightarrow> 'f force_impls \<Rightarrow> bool" where
  "impls_compute F N impls \<longleftrightarrow>
     (\<forall>pm. length pm = 4 * N \<longrightarrow>
        length (F pm) = 3 * N \<and>
        (\<forall>a. aos_impl impls a pm = F pm \<and>
             soa_impl impls a (soa_pos N pm) (soa_mass N pm) = soa_of_aos3 N (F pm) \<and>
             (\<forall>d. gpu_impl impls a d pm = F pm) \<and> (\<forall>d. multi_impl impls a d pm = F pm)))"

text \<open>The algorithms whose case of the switch makes no CUDA call of its own: the
  CPU algorithms, and the multi-GPU ones, which drive their devices from worker
  threads.  The five others need a CUDA device.\<close>

definition host_algorithm :: "nbodyAlgorithm \<Rightarrow> bool" where
  "host_algorithm a \<longleftrightarrow> a \<notin> {GPU_AOS, GPU_AOS_tiled, GPU_Shared, GPU_Const, GPU_Shuffle}"

section \<open>Index arithmetic and the integration loop\<close>

lemma int_of_size_small: "n < 2 ^ 31 \<Longrightarrow> int_of_size n = int n"
proof -
  assume n: "n < 2 ^ 31"
  have w: "(word_of_nat n :: int32) = word_of_int (int n)" by simp
  have "int n < int (2 ^ 31)" using n by (simp only: of_nat_less_iff)
  then have "int n < 2 ^ 31" by simp
  then have "sint (word_of_int (int n) :: int32) = int n" by (intro sint32_word_of_int) simp_all
  then show ?thesis unfolding int_of_size_def w .
qed

lemma int_of_size_2_31: "int_of_size 2147483648 = - 2147483648"
  by (simp add: int_of_size_def)

lemma length_integrate_body:
  "integrate_body dt damping f i (p, v) = (p', v') \<Longrightarrow> length p' = length p \<and> length v' = length v"
  by (auto simp: integrate_body_def Let_def)

lemma rd_at: "j < length xs \<Longrightarrow> rd xs (int j) = Some (xs ! j)"
  by (simp add: rd_def)

lemma wr_at: "j < length xs \<Longrightarrow> wr xs (int j) v = Some (xs[j := v])"
  by (simp add: wr_def)

lemma int_plus_lits:
  "int n + 0 = int n" "int n + 1 = int (n + 1)" "int n + 2 = int (n + 2)" "int n + 3 = int (n + 3)"
  by simp_all

lemma integrate_loop_step:
  assumes "i < N" "4 * i + 3 < 2 ^ 31" "4 * i + 3 < length ppos" "4 * i + 3 < length pvel"
    "3 * i + 2 < length pforce"
  shows "integrate_loop dt damping N i ppos pvel pforce =
         (case integrate_body dt damping pforce i (ppos, pvel) of
            (p, v) \<Rightarrow> integrate_loop dt damping N (Suc i) p v pforce)"
proof -
  have i4: "int_of_size (4 * i) = int (4 * i)" and i3: "int_of_size (3 * i) = int (3 * i)"
    using assms(2) by (simp_all add: int_of_size_small)
  show ?thesis
    using assms(1,3-5)
    by (subst integrate_loop.simps)
       (simp only: i4 i3 Let_def int_plus_lits,
        simp add: rd_at wr_at integrate_body_def del: of_nat_add of_nat_mult of_nat_Suc)
qed


lemma length_integrate_body_fst_snd [simp]:
  "length (fst (integrate_body dt damping f i s)) = length (fst s)"
  "length (snd (integrate_body dt damping f i s)) = length (snd s)"
  by (cases s; simp add: integrate_body_def Let_def)+

lemma length_integrate_for_loop:
  "length (fst (for_loop 0 M (integrate_body dt damping f) s)) = length (fst s) \<and>
   length (snd (for_loop 0 M (integrate_body dt damping f) s)) = length (snd s)"
  by (induction M) simp_all

lemma integrate_loop_prefix:
  assumes "M \<le> N" "M \<le> 2 ^ 29" "4 * N \<le> length ppos" "4 * N \<le> length pvel" "3 * N \<le> length pforce"
  shows "integrate_loop dt damping N 0 ppos pvel pforce =
         (case for_loop 0 M (integrate_body dt damping pforce) (ppos, pvel) of
            (p, v) \<Rightarrow> integrate_loop dt damping N M p v pforce)"
  using assms(1,2)
proof (induction M)
  case 0
  then show ?case by simp
next
  case (Suc M)
  let ?s = "for_loop 0 M (integrate_body dt damping pforce) (ppos, pvel)"
  have len: "length (fst ?s) = length ppos" "length (snd ?s) = length pvel"
    using length_integrate_for_loop [of M dt damping pforce "(ppos, pvel)"] by simp_all
  have "integrate_loop dt damping N M (fst ?s) (snd ?s) pforce =
        (case integrate_body dt damping pforce M (fst ?s, snd ?s) of
           (p, v) \<Rightarrow> integrate_loop dt damping N (Suc M) p v pforce)"
    using Suc.prems assms(3-5) len by (intro integrate_loop_step) simp_all
  then show ?case using Suc by (simp add: case_prod_beta)
qed

lemma integrateGravitation_AOS_result:
  assumes "N \<le> 2 ^ 29" "4 * N \<le> length ppos" "4 * N \<le> length pvel" "3 * N \<le> length pforce"
  shows "integrateGravitation_AOS ppos pvel pforce dt damping N =
         Some (for_loop 0 N (integrate_body dt damping pforce) (ppos, pvel))"
  using integrate_loop_prefix [OF order_refl assms] unfolding integrateGravitation_AOS_def
  by (simp add: case_prod_beta integrate_loop.simps [of _ _ N N])

lemma integrate_body_nth:
  assumes "4 * i + 3 < length (fst s)" "4 * i + 3 < length (snd s)"
  shows "fst (integrate_body dt damping f i s) ! j =
           (if j = 4 * i \<or> j = 4 * i + 1 \<or> j = 4 * i + 2
            then fst s ! j + ((snd s ! j + (f ! (3 * i + (j - 4 * i)) * snd s ! (4 * i + 3)) * dt) * damping) * dt
            else fst s ! j) \<and>
         snd (integrate_body dt damping f i s) ! j =
           (if j = 4 * i \<or> j = 4 * i + 1 \<or> j = 4 * i + 2
            then (snd s ! j + (f ! (3 * i + (j - 4 * i)) * snd s ! (4 * i + 3)) * dt) * damping
            else snd s ! j)"
  using assms by (cases s) (auto simp: integrate_body_def Let_def nth_list_update)

lemma integrate_for_loop_nth:
  assumes "4 * M \<le> length p" "4 * M \<le> length v"
  shows "(\<forall>j. (4 * M \<le> j \<or> j mod 4 = 3) \<longrightarrow>
            fst (for_loop 0 M (integrate_body dt damping f) (p, v)) ! j = p ! j \<and>
            snd (for_loop 0 M (integrate_body dt damping f) (p, v)) ! j = v ! j) \<and>
         (\<forall>k<M. \<forall>c<3.
            snd (for_loop 0 M (integrate_body dt damping f) (p, v)) ! (4 * k + c) =
              (v ! (4 * k + c) + (f ! (3 * k + c) * v ! (4 * k + 3)) * dt) * damping \<and>
            fst (for_loop 0 M (integrate_body dt damping f) (p, v)) ! (4 * k + c) =
              p ! (4 * k + c) + snd (for_loop 0 M (integrate_body dt damping f) (p, v)) ! (4 * k + c) * dt)"
  using assms
proof (induction M)
  case 0
  then show ?case by simp
next
  case (Suc M)
  let ?s = "for_loop 0 M (integrate_body dt damping f) (p, v)"
  have len: "length (fst ?s) = length p" "length (snd ?s) = length v"
    using length_integrate_for_loop [of M dt damping f "(p, v)"] by simp_all
  have IH: "(\<forall>j. (4 * M \<le> j \<or> j mod 4 = 3) \<longrightarrow> fst ?s ! j = p ! j \<and> snd ?s ! j = v ! j)"
    "\<forall>k<M. \<forall>c<3. snd ?s ! (4 * k + c) = (v ! (4 * k + c) + (f ! (3 * k + c) * v ! (4 * k + 3)) * dt) * damping \<and>
                    fst ?s ! (4 * k + c) = p ! (4 * k + c) + snd ?s ! (4 * k + c) * dt"
    using Suc by simp_all
  have step: "fst (integrate_body dt damping f M ?s) ! j =
           (if j = 4 * M \<or> j = 4 * M + 1 \<or> j = 4 * M + 2
            then fst ?s ! j + ((snd ?s ! j + (f ! (3 * M + (j - 4 * M)) * snd ?s ! (4 * M + 3)) * dt) * damping) * dt
            else fst ?s ! j) \<and>
         snd (integrate_body dt damping f M ?s) ! j =
           (if j = 4 * M \<or> j = 4 * M + 1 \<or> j = 4 * M + 2
            then (snd ?s ! j + (f ! (3 * M + (j - 4 * M)) * snd ?s ! (4 * M + 3)) * dt) * damping
            else snd ?s ! j)" for j
    using Suc.prems len by (intro integrate_body_nth) simp_all
  have m3: "snd ?s ! (4 * M + 3) = v ! (4 * M + 3)" using IH(1) by simp
  let ?t = "for_loop 0 (Suc M) (integrate_body dt damping f) (p, v)"
  have A: "fst ?t ! j = p ! j \<and> snd ?t ! j = v ! j" if j: "4 * Suc M \<le> j \<or> j mod 4 = 3" for j
  proof -
    have "j \<noteq> 4 * M \<and> j \<noteq> 4 * M + 1 \<and> j \<noteq> 4 * M + 2" and "4 * M \<le> j \<or> j mod 4 = 3"
      using j by presburger+
    then show ?thesis using step [of j] IH(1) by simp
  qed
  have B: "snd ?t ! (4 * k + c) = (v ! (4 * k + c) + (f ! (3 * k + c) * v ! (4 * k + 3)) * dt) * damping \<and>
           fst ?t ! (4 * k + c) = p ! (4 * k + c) + snd ?t ! (4 * k + c) * dt"
    if k: "k < Suc M" and c: "c < 3" for k c
  proof (cases "k = M")
    case True
    then show ?thesis using step [of "4 * k + c"] IH(1) c m3 by auto
  next
    case False
    then have "k < M" using k by simp
    then show ?thesis using step [of "4 * k + c"] IH(2) c by auto
  qed
  show ?case using A B by blast
qed

text \<open>C26: for more than \<open>2^29\<close> bodies the index \<open>int index = 4*i\<close> of
  \<open>integrateGravitation_AOS\<close> wraps to \<open>-2^31\<close> at body \<open>2^29\<close>, so the step
  reads outside the position array, whatever the buffers hold.\<close>

theorem integrateGravitation_AOS_overflow:
  assumes "2 ^ 29 < N" "4 * N \<le> length ppos" "4 * N \<le> length pvel" "3 * N \<le> length pforce"
  shows "integrateGravitation_AOS ppos pvel pforce dt damping N = None"
proof -
  have "integrate_loop dt damping N (2 ^ 29) p v pforce = None" for p v
    using assms(1) by (subst integrate_loop.simps) (simp add: int_of_size_2_31 rd_def Let_def)
  then show ?thesis
    using integrate_loop_prefix [of "2 ^ 29" N ppos pvel pforce dt damping] assms
    unfolding integrateGravitation_AOS_def by (simp add: case_prod_beta)
qed

theorem integrateGravitation_AOS_overflow_witness:
  "2 ^ 29 < (536870913::nat) \<and>
   integrateGravitation_AOS (replicate (4 * 536870913) (0::real)) (replicate (4 * 536870913) 0)
     (replicate (3 * 536870913) 0) 1 1 536870913 = None"
proof
  show "2 ^ 29 < (536870913::nat)" by simp
  show "integrateGravitation_AOS (replicate (4 * 536870913) (0::real)) (replicate (4 * 536870913) 0)
     (replicate (3 * 536870913) 0) 1 1 536870913 = None"
    apply (rule integrateGravitation_AOS_overflow)
       apply simp
      apply (simp only: length_replicate order_refl)+
    done
qed

section \<open>Layout conversions and the error measure\<close>

lemma soa_to_aos_loop:
  assumes "length dst = 3 * N" "\<forall>c<3. N \<le> length (soa ! c)" "M \<le> N"
  shows "length (for_loop 0 M (\<lambda>i dst. dst[3 * i + 0 := soa ! 0 ! i, 3 * i + 1 := soa ! 1 ! i,
                    3 * i + 2 := soa ! 2 ! i]) dst) = 3 * N \<and>
         (\<forall>j. j < 3 * N \<longrightarrow>
            for_loop 0 M (\<lambda>i dst. dst[3 * i + 0 := soa ! 0 ! i, 3 * i + 1 := soa ! 1 ! i,
                    3 * i + 2 := soa ! 2 ! i]) dst ! j =
            (if j < 3 * M then soa ! (j mod 3) ! (j div 3) else dst ! j))"
  using assms(3)
proof (induction M)
  case 0
  then show ?case using assms(1) by simp
next
  case (Suc M)
  then have IH: "length (for_loop 0 M (\<lambda>i dst. dst[3 * i + 0 := soa ! 0 ! i, 3 * i + 1 := soa ! 1 ! i,
                    3 * i + 2 := soa ! 2 ! i]) dst) = 3 * N"
      "\<forall>j. j < 3 * N \<longrightarrow>
            for_loop 0 M (\<lambda>i dst. dst[3 * i + 0 := soa ! 0 ! i, 3 * i + 1 := soa ! 1 ! i,
                    3 * i + 2 := soa ! 2 ! i]) dst ! j =
            (if j < 3 * M then soa ! (j mod 3) ! (j div 3) else dst ! j)" by simp_all
  have m: "(3 * M + 1) mod 3 = 1" "(3 * M + 1) div 3 = M" "(3 * M + 2) mod 3 = 2" "(3 * M + 2) div 3 = M"
    "(3 * M) mod 3 = 0" "(3 * M) div 3 = M" "Suc (3 * M) mod 3 = 1" "Suc (3 * M) div 3 = M"
    "Suc (Suc (3 * M)) mod 3 = 2" "Suc (Suc (3 * M)) div 3 = M" by presburger+
  have sel: "(if j = 3 * M + 2 then soa ! 2 ! M else if j = 3 * M + 1 then soa ! 1 ! M
              else if j = 3 * M then soa ! 0 ! M else if j < 3 * M then soa ! (j mod 3) ! (j div 3) else dst ! j)
           = (if j < 3 * Suc M then soa ! (j mod 3) ! (j div 3) else dst ! j)" for j
  proof -
    show ?thesis
    proof (cases "j < 3 * M")
      case True
      then show ?thesis by simp
    next
      case False
      then have "j = 3 * M \<or> j = 3 * M + 1 \<or> j = 3 * M + 2 \<or> 3 * Suc M \<le> j" by presburger
      then show ?thesis using False by (auto simp: m)
    qed
  qed
  show ?case
    using IH Suc.prems sel by (auto simp: nth_list_update m)
qed

lemma soa_to_aos_result:
  assumes "length dst = 3 * N" "\<forall>c<3. N \<le> length (soa ! c)"
  shows "soa_to_aos N soa dst = map (\<lambda>j. soa ! (j mod 3) ! (j div 3)) [0..<3 * N]"
  using soa_to_aos_loop [OF assms order_refl] by (simp add: soa_to_aos_def list_eq_iff_nth_eq)

lemma if_greater_max: "(if m < e then e else m) = max e (m::'a::linorder)"
  by (auto simp: max_def)

lemma max_rel_error_loop:
  fixes force golden :: "'f::{linorder,zero,minus,uminus,inverse} list"
  shows "for_loop 0 M (\<lambda>i mx. let err = relError (force ! i) (golden ! i) in if err > mx then err else mx) 0 =
         Max (insert 0 ((\<lambda>j. relError (force ! j) (golden ! j)) ` {..<M}))"
proof (induction M)
  case 0
  then show ?case by simp
next
  case (Suc M)
  let ?e = "relError (force ! M) (golden ! M)" and ?S = "(\<lambda>j. relError (force ! j) (golden ! j)) ` {..<M}"
  have eq: "insert 0 ((\<lambda>j. relError (force ! j) (golden ! j)) ` {..<Suc M}) = insert ?e (insert 0 ?S)"
    by (auto simp: lessThan_Suc)
  have "Max (insert ?e (insert 0 ?S)) = max ?e (Max (insert 0 ?S))" by (rule Max_insert) auto
  then have "Max (insert 0 ((\<lambda>j. relError (force ! j) (golden ! j)) ` {..<Suc M})) = max ?e (Max (insert 0 ?S))"
    unfolding eq .
  note mx = this
  have "for_loop 0 (Suc M) (\<lambda>i mx. let err = relError (force ! i) (golden ! i) in if err > mx then err else mx) 0 =
        (let err = ?e in if err > Max (insert 0 ?S) then err else Max (insert 0 ?S))"
    by (simp only: for_loop_0_Suc Suc.IH)
  also have "\<dots> = max ?e (Max (insert 0 ?S))" by (simp only: Let_def if_greater_max)
  finally show ?case using mx by simp
qed

lemma upd2_3:
  "upd2 [a, b, c] 0 i v = [a[i := v], b, c]" "upd2 [a, b, c] 1 i v = [a, b[i := v], c]"
  "upd2 [a, b, c] 2 i v = [a, b, c[i := v]]"
  by (simp_all add: upd2_def)

lemma upd2_3':
  "upd2 [a, b, c] (Suc 0) i v = [a, b[i := v], c]"
  by (simp add: upd2_def)

lemma aos_to_soa_prefix:
  assumes wf: "host_wf N h" and M: "M \<le> N"
  shows "for_loop 0 M aos_to_soa_body h =
   h\<lparr>hostSOA_Pos := map (\<lambda>c. map (\<lambda>j. if j < M then hostAOS_PosMass h ! (4 * j + c) else hostSOA_Pos h ! c ! j) [0..<N]) [0, 1, 2],
     hostSOA_Mass := map (\<lambda>j. if j < M then hostAOS_PosMass h ! (4 * j + 3) else hostSOA_Mass h ! j) [0..<N],
     hostSOA_InvMass := map (\<lambda>j. if j < M then 1 / hostAOS_PosMass h ! (4 * j + 3) else hostSOA_InvMass h ! j) [0..<N]\<rparr>"
  using M
proof (induction M)
  case 0
  have p: "hostSOA_Pos h = map (\<lambda>c. map (\<lambda>j. hostSOA_Pos h ! c ! j) [0..<N]) [0, 1, 2]"
    using wf by (simp add: host_wf_def soa_shape_def list_eq_iff_nth_eq numeral_eq_Suc less_Suc_eq)
  have "hostSOA_Mass h = map (\<lambda>j. hostSOA_Mass h ! j) [0..<N]"
    "hostSOA_InvMass h = map (\<lambda>j. hostSOA_InvMass h ! j) [0..<N]"
    using wf by (simp_all add: host_wf_def soa_shape_def list_eq_iff_nth_eq)
  then show ?case using p by simp
next
  case (Suc M)
  then have M: "M < N" by simp
  show ?case
    unfolding for_loop_0_Suc Suc.IH [OF Suc_leD [OF Suc.prems]]
    using M by (simp add: aos_to_soa_body_def Let_def upd2_3 upd2_3' map_prefix_update del: upt_Suc)
qed

lemma aos_to_soa_result:
  assumes "host_wf N h"
  shows "aos_to_soa N h =
           h\<lparr>hostSOA_Pos := soa_pos N (hostAOS_PosMass h), hostSOA_Mass := soa_mass N (hostAOS_PosMass h),
             hostSOA_InvMass := map (\<lambda>m. 1 / m) (soa_mass N (hostAOS_PosMass h))\<rparr>"
  using aos_to_soa_prefix [OF assms order_refl]
  by (simp add: aos_to_soa_def soa_pos_def soa_mass_def)

lemma soa_aos_roundtrip_gen:
  assumes "length xs = 3 * N" "length dst = 3 * N"
  shows "soa_to_aos N (soa_of_aos3 N xs) dst = xs"
proof -
  have lens: "\<forall>c<3. N \<le> length (soa_of_aos3 N xs ! c)"
    by (simp add: soa_of_aos3_def numeral_eq_Suc less_Suc_eq)
  have "soa_to_aos N (soa_of_aos3 N xs) dst = map (\<lambda>j. soa_of_aos3 N xs ! (j mod 3) ! (j div 3)) [0..<3 * N]"
    by (rule soa_to_aos_result [OF assms(2) lens])
  also have "\<dots> = xs"
  proof (rule nth_equalityI)
    fix j assume "j < length (map (\<lambda>j. soa_of_aos3 N xs ! (j mod 3) ! (j div 3)) [0..<3 * N])"
    then have j: "j < 3 * N" by simp
    have d: "j div 3 < N" using j by presburger
    have "(j mod 3 = 0 \<and> 3 * (j div 3) = j) \<or> (j mod 3 = 1 \<and> Suc (3 * (j div 3)) = j) \<or>
          (j mod 3 = 2 \<and> Suc (Suc (3 * (j div 3))) = j)" by presburger
    then show "map (\<lambda>j. soa_of_aos3 N xs ! (j mod 3) ! (j div 3)) [0..<3 * N] ! j = xs ! j"
      by (elim disjE conjE) (simp_all add: soa_of_aos3_def j d)
  qed (simp add: assms(1))
  finally show ?thesis .
qed

lemma max_rel_error_same: "max_rel_error N xs xs = 0"
  unfolding max_rel_error_def
  by (rule for_loop_induct_0 [where P = "\<lambda>_ mx. mx = 0"]) (simp_all add: relError_def Let_def)

text \<open>C27: converting SOA forces back to the AOS layout (\<open>soa_to_aos\<close>, the
  loop of lines 510--516) and reading them in the SOA layout again gives the SOA
  arrays back: no component or body is lost or swapped.\<close>

theorem soa_to_aos_roundtrip:
  assumes "length soa = 3" "\<forall>c<3. length (soa ! c) = N" "length dst = 3 * N"
  shows "soa_of_aos3 N (soa_to_aos N soa dst) = soa"
proof -
  have r: "soa_to_aos N soa dst = map (\<lambda>j. soa ! (j mod 3) ! (j div 3)) [0..<3 * N]"
    using assms(2,3) by (intro soa_to_aos_result) simp_all
  have m: "(3 * i + c) mod 3 = c" "(3 * i + c) div 3 = i" if "c < 3" for i c :: nat
    using that by presburger+
  have per: "map (\<lambda>i. soa_to_aos N soa dst ! (3 * i + c)) [0..<N] = soa ! c" if c: "c < 3" for c
    using assms(2) c by (simp add: r list_eq_iff_nth_eq m)
  have "soa_of_aos3 N (soa_to_aos N soa dst) = map (\<lambda>c. soa ! c) [0, 1, 2]"
    unfolding soa_of_aos3_def by (rule map_cong [OF refl]) (rule per, auto)
  also have "\<dots> = soa" using assms(1) by (simp add: list_eq_iff_nth_eq numeral_eq_Suc less_Suc_eq)
  finally show ?thesis .
qed

theorem soa_to_aos_roundtrip_witness:
  "length [[1, 2], [3, 4], [5, 6 :: int]] = 3 \<and> length ([[1, 2], [3, 4], [5, 6 :: int]] ! 0) = 2 \<and> length ([[1, 2], [3, 4], [5, 6 :: int]] ! 2) = 2 \<and>
   length [0, 0, 0, 0, 0, 0 :: int] = 3 * 2 \<and>
   soa_of_aos3 2 (soa_to_aos 2 [[1, 2], [3, 4], [5, 6]] [0, 0, 0, 0, 0, 0]) = [[1, 2], [3, 4], [5, 6 :: int]]"
  using soa_to_aos_roundtrip [of "[[1, 2], [3, 4], [5, 6 :: int]]" 2 "[0, 0, 0, 0, 0, 0]"]
  by (simp add: numeral_eq_Suc less_Suc_eq)

text \<open>C28: the running maximum of lines 519--529 computes the largest relative
  error over the \<open>3N\<close> force components (and 0 when there are none).\<close>

theorem max_rel_error_is_Max:
  fixes force golden :: "'f::{linorder,zero,minus,uminus,inverse} list"
  shows "max_rel_error N force golden = Max (insert 0 ((\<lambda>j. relError (force ! j) (golden ! j)) ` {..<3 * N}))"
  by (simp add: max_rel_error_def max_rel_error_loop)

text \<open>For a nonzero reference value, \<open>relError\<close> is the absolute
  relative error \<open>|a - b| / |b|\<close>: it is nonnegative and zero exactly when the
  values agree.\<close>

lemma relError_bounds:
  fixes a b :: "'f::linordered_field"
  assumes "b \<noteq> 0"
  shows "0 \<le> relError a b \<and> (relError a b = 0 \<longleftrightarrow> a = b) \<and> relError a b = \<bar>a - b\<bar> / \<bar>b\<bar>"
proof -
  have "relError a b = \<bar>(a - b) / b\<bar>" by (simp add: relError_def Let_def abs_if)
  then show ?thesis using assms by (simp add: abs_divide)
qed

section \<open>Properties of ComputeGravitation\<close>

lemma gravitation_switch_result:
  assumes F: "impls_compute F N impls" and pm: "length pm = 4 * N"
    and h: "hostAOS_PosMass h = pm" "hostSOA_Pos h = soa_pos N pm" "hostSOA_Mass h = soa_mass N pm"
      "cuda \<longrightarrow> dptrAOS_PosMass h = pm"
    and a: "algorithm_of algorithm = Some a" and c: "cuda \<or> host_algorithm a"
  shows "\<exists>bSOA h'. gravitation_switch impls cuda N algorithm h = (True, bSOA, h') \<and>
           hostAOS_PosMass h' = pm \<and> hostAOS_VelInvMass h' = hostAOS_VelInvMass h \<and>
           hostAOS_Force_Golden h' = hostAOS_Force_Golden h \<and> hostSOA_Pos h' = hostSOA_Pos h \<and>
           hostSOA_Mass h' = hostSOA_Mass h \<and> hostSOA_InvMass h' = hostSOA_InvMass h \<and>
           (if bSOA then hostSOA_Force h' = soa_of_aos3 N (F pm) \<and> hostAOS_Force h' = hostAOS_Force h
            else hostAOS_Force h' = F pm \<and> hostSOA_Force h' = hostSOA_Force h)"
proof -
  have Fpm: "aos_impl impls b pm = F pm" "soa_impl impls b (soa_pos N pm) (soa_mass N pm) = soa_of_aos3 N (F pm)"
    "gpu_impl impls b d pm = F pm" "multi_impl impls b d pm = F pm" for b d
    using F pm by (simp_all add: impls_compute_def)
  show ?thesis
    using h a c by (cases a) (auto simp: gravitation_switch_def Let_def Fpm host_algorithm_def)
qed


text \<open>The shape of the SOA arrays of \<open>N\<close> bodies: three arrays of \<open>N\<close> floats.\<close>

lemma soa_shape_of_aos3: "soa_shape N (soa_of_aos3 N xs)"
  by (simp add: soa_shape_def soa_of_aos3_def less_Suc_eq numeral_3_eq_3 nth_Cons split: nat.split)

lemma soa_pos_shape: "soa_shape N (soa_pos N pm)"
  by (simp add: soa_shape_def soa_pos_def less_Suc_eq numeral_3_eq_3 nth_Cons split: nat.split)

lemma host_wf_soa_shape: "host_wf N h \<Longrightarrow> soa_shape N (hostSOA_Force h) \<and> soa_shape N (hostSOA_Pos h)"
  by (simp add: host_wf_def soa_shape_def)

lemma ComputeGravitation_step:
  assumes F: "impls_compute F N impls" and wf: "host_wf N h"
    and N: "unat (g_N g) = N" "N \<le> 2 ^ 29"
    and a: "algorithm_of algorithm = Some a"
    and c: "g_bCUDAPresent g \<and> cuda_ok \<or> \<not> g_bCUDAPresent g \<and> host_algorithm a"
  shows "\<exists>err h'. ComputeGravitation impls cuda_ok g dt damping algorithm bCrossCheck h = Returned_true (err, h') \<and>
           err = 0 \<and> hostAOS_Force h' = F (hostAOS_PosMass h) \<and>
           (hostAOS_PosMass h', hostAOS_VelInvMass h') =
             for_loop 0 N (integrate_body dt damping (F (hostAOS_PosMass h))) (hostAOS_PosMass h, hostAOS_VelInvMass h) \<and>
           host_wf N h'"
proof -
  define pm where "pm = hostAOS_PosMass h"
  define vel where "vel = hostAOS_VelInvMass h"
  have lpm: "length pm = 4 * N" and lvel: "length vel = 4 * N" and lF: "length (F pm) = 3 * N"
    and lf: "length (hostAOS_Force h) = 3 * N" and lg: "length (hostAOS_Force_Golden h) = 3 * N"
    using wf F by (simp_all add: host_wf_def soa_shape_def impls_compute_def pm_def vel_def)
  have Fpm: "aos_impl impls b pm = F pm" "soa_impl impls b (soa_pos N pm) (soa_mass N pm) = soa_of_aos3 N (F pm)" for b
    using F lpm by (simp_all add: impls_compute_def)
  define h1 where "h1 = aos_to_soa N h"
  have h1: "hostAOS_PosMass h1 = pm" "hostSOA_Pos h1 = soa_pos N pm" "hostSOA_Mass h1 = soa_mass N pm"
    "hostAOS_VelInvMass h1 = vel" "hostAOS_Force h1 = hostAOS_Force h"
    "hostAOS_Force_Golden h1 = hostAOS_Force_Golden h" "hostSOA_Force h1 = hostSOA_Force h"
    "hostSOA_InvMass h1 = map (\<lambda>m. 1 / m) (soa_mass N pm)"
    using aos_to_soa_result [OF wf] by (simp_all add: h1_def pm_def vel_def)
  define h2 where "h2 = (if bCrossCheck then
                 (if g_bUseSSEForCrossCheck g then
                    let h = h1\<lparr>hostSOA_Force := soa_impl impls CPU_SSE_threaded (hostSOA_Pos h1) (hostSOA_Mass h1)\<rparr>
                    in h\<lparr>hostAOS_Force_Golden := soa_to_aos N (hostSOA_Force h) (hostAOS_Force_Golden h)\<rparr>
                  else h1\<lparr>hostAOS_Force_Golden := aos_impl impls CPU_AOS (hostAOS_PosMass h1)\<rparr>)
               else h1)"
  have h2: "hostAOS_PosMass h2 = pm" "hostSOA_Pos h2 = soa_pos N pm" "hostSOA_Mass h2 = soa_mass N pm"
    "hostAOS_VelInvMass h2 = vel" "hostAOS_Force h2 = hostAOS_Force h"
    "bCrossCheck \<longrightarrow> hostAOS_Force_Golden h2 = F pm"
    "hostSOA_InvMass h2 = map (\<lambda>m. 1 / m) (soa_mass N pm)"
    "length (hostAOS_Force_Golden h2) = 3 * N" "soa_shape N (hostSOA_Force h2)"
    using h1 lg lF wf by (simp_all add: h2_def Let_def Fpm soa_aos_roundtrip_gen soa_shape_of_aos3 host_wf_soa_shape)
  define h3 where "h3 = (if g_bCUDAPresent g then h2\<lparr>dptrAOS_PosMass := hostAOS_PosMass h2\<rparr> else h2)"
  have h3: "hostAOS_PosMass h3 = pm" "hostSOA_Pos h3 = soa_pos N pm" "hostSOA_Mass h3 = soa_mass N pm"
    "hostAOS_VelInvMass h3 = vel" "hostAOS_Force h3 = hostAOS_Force h"
    "bCrossCheck \<longrightarrow> hostAOS_Force_Golden h3 = F pm"
    "g_bCUDAPresent g \<and> cuda_ok \<longrightarrow> dptrAOS_PosMass h3 = pm"
    "hostSOA_InvMass h3 = map (\<lambda>m. 1 / m) (soa_mass N pm)"
    "length (hostAOS_Force_Golden h3) = 3 * N" "soa_shape N (hostSOA_Force h3)"
    using h2 by (simp_all add: h3_def)
  obtain bSOA h4 where sw: "gravitation_switch impls (g_bCUDAPresent g \<and> cuda_ok) N algorithm h3 = (True, bSOA, h4)"
    and h4: "hostAOS_PosMass h4 = pm" "hostAOS_VelInvMass h4 = vel"
      "hostAOS_Force_Golden h4 = hostAOS_Force_Golden h3"
      "hostSOA_Pos h4 = soa_pos N pm" "hostSOA_Mass h4 = soa_mass N pm"
      "hostSOA_InvMass h4 = map (\<lambda>m. 1 / m) (soa_mass N pm)"
      "if bSOA then hostSOA_Force h4 = soa_of_aos3 N (F pm) \<and> hostAOS_Force h4 = hostAOS_Force h3
       else hostAOS_Force h4 = F pm \<and> hostSOA_Force h4 = hostSOA_Force h3"
  proof -
    have c': "g_bCUDAPresent g \<and> cuda_ok \<or> host_algorithm a" using c by blast
    show ?thesis using gravitation_switch_result [OF F lpm h3(1-3) h3(7) a c'] h3(2-4,8) that by auto
  qed
  define h5 where "h5 = (if bSOA then h4\<lparr>hostAOS_Force := soa_to_aos N (hostSOA_Force h4) (hostAOS_Force h4)\<rparr>
                         else h4)"
  have h5: "hostAOS_PosMass h5 = pm" "hostAOS_VelInvMass h5 = vel" "hostAOS_Force h5 = F pm"
    "bCrossCheck \<longrightarrow> hostAOS_Force_Golden h5 = F pm"
    "host_wf N (h5\<lparr>hostAOS_PosMass := pm, hostAOS_VelInvMass := vel\<rparr>)"
    using h4 h3 lf lF lpm lvel
    by (auto simp: h5_def soa_aos_roundtrip_gen host_wf_def soa_mass_def soa_shape_of_aos3 soa_pos_shape
        split: if_splits)
  have integ: "integrateGravitation_AOS pm vel (F pm) dt damping N =
               Some (for_loop 0 N (integrate_body dt damping (F pm)) (pm, vel))"
    using N(2) lpm lvel lF by (intro integrateGravitation_AOS_result) simp_all
  have err: "(if bCrossCheck then max_rel_error N (hostAOS_Force h5) (hostAOS_Force_Golden h5) else 0) = 0"
    using h5 by (simp add: max_rel_error_same)
  have cuda: "\<not> (g_bCUDAPresent g \<and> \<not> (g_bCUDAPresent g \<and> cuda_ok))" using c by blast
  have "ComputeGravitation impls cuda_ok g dt damping algorithm bCrossCheck h =
        (case integrateGravitation_AOS (hostAOS_PosMass h5) (hostAOS_VelInvMass h5) (hostAOS_Force h5) dt damping N of
           None \<Rightarrow> Fault
         | Some (ppos, pvel) \<Rightarrow>
             Returned_true (if bCrossCheck then max_rel_error N (hostAOS_Force h5) (hostAOS_Force_Golden h5) else 0,
                            h5\<lparr>hostAOS_PosMass := ppos, hostAOS_VelInvMass := pvel\<rparr>))"
    unfolding ComputeGravitation_def N(1) Let_def h1_def [symmetric] h2_def [unfolded Let_def, symmetric]
      h3_def [symmetric]
    by (simp only: if_not_P [OF cuda] sw case_prod_conv not_True_eq_False if_False h5_def [symmetric])
  moreover have "host_wf N (h5\<lparr>hostAOS_PosMass := fst r, hostAOS_VelInvMass := snd r\<rparr>)"
    if "r = for_loop 0 N (integrate_body dt damping (F pm)) (pm, vel)" for r
    using h5(5) length_integrate_for_loop [of N dt damping "F pm" "(pm, vel)"] that lpm lvel
    by (simp add: host_wf_def)
  ultimately show ?thesis using h5 integ err
    by (cases "for_loop 0 N (integrate_body dt damping (F pm)) (pm, vel)") (simp add: pm_def vel_def)
qed

text \<open>C23: when the selected algorithm can run (a CUDA device is present and its
  calls succeed, or the algorithm runs on the host) and every algorithm computes the
  same force field \<open>F\<close>, \<open>ComputeGravitation\<close> returns true with a relative
  error of 0, leaves \<open>F\<close> of the positions in \<open>g_hostAOS_Force\<close>, and integrates
  positions and velocities with those forces: the step refines the abstract
  time step \<open>for_loop 0 N (integrate_body dt damping (F pm))\<close>.\<close>

theorem ComputeGravitation_refines:
  assumes F: "impls_compute F N impls" and wf: "host_wf N h"
    and N: "unat (g_N g) = N" "N \<le> 2 ^ 29"
    and a: "algorithm_of algorithm = Some a"
    and c: "g_bCUDAPresent g \<and> cuda_ok \<or> \<not> g_bCUDAPresent g \<and> host_algorithm a"
  shows "\<exists>err h'. ComputeGravitation impls cuda_ok g dt damping algorithm bCrossCheck h = Returned_true (err, h') \<and>
           err = 0 \<and> hostAOS_Force h' = F (hostAOS_PosMass h) \<and>
           (hostAOS_PosMass h', hostAOS_VelInvMass h') =
             for_loop 0 N (integrate_body dt damping (F (hostAOS_PosMass h))) (hostAOS_PosMass h, hostAOS_VelInvMass h)"
  using ComputeGravitation_step [OF assms] by blast

theorem ComputeGravitation_refines_witness:
  "\<exists>err h'. ComputeGravitation
      \<lparr>aos_impl = \<lambda>_ _. [0, 0, 0], soa_impl = \<lambda>_ _ _. [[0], [0], [0]], gpu_impl = \<lambda>_ _ _. [0, 0, 0],
       multi_impl = \<lambda>_ _ _. [0, 0, 0]\<rparr> True
      \<lparr>g_bCUDAPresent = True, g_bSM30Present = True, g_bCrossCheck = True, g_bUseSSEForCrossCheck = True,
       g_bNoCPU = False, g_Algorithm = 5, g_maxAlgorithm = 11, g_N = 1\<rparr> 1 1 5 True
      \<lparr>hostAOS_PosMass = [0, 0, 0, 1], hostAOS_VelInvMass = [0, 0, 0, 1], hostAOS_Force = [0, 0, 0],
       hostAOS_Force_Golden = [0, 0, 0], hostSOA_Pos = [[0], [0], [0]], hostSOA_Force = [[0], [0], [0]],
       hostSOA_Mass = [1], hostSOA_InvMass = [1], dptrAOS_PosMass = [0, 0, 0, 0], dptrAOS_Force = [0, 0, 0 :: real]\<rparr>
    = Returned_true (err, h') \<and> err = 0"
proof -
  have F: "impls_compute (\<lambda>_. [0, 0, 0 :: real]) 1
      \<lparr>aos_impl = \<lambda>_ _. [0, 0, 0], soa_impl = \<lambda>_ _ _. [[0], [0], [0]], gpu_impl = \<lambda>_ _ _. [0, 0, 0],
       multi_impl = \<lambda>_ _ _. [0, 0, 0]\<rparr>"
    by (simp add: impls_compute_def soa_of_aos3_def)
  have wf: "host_wf 1 \<lparr>hostAOS_PosMass = [0, 0, 0, 1], hostAOS_VelInvMass = [0, 0, 0, 1],
        hostAOS_Force = [0, 0, 0], hostAOS_Force_Golden = [0, 0, 0], hostSOA_Pos = [[0], [0], [0]],
        hostSOA_Force = [[0], [0], [0]], hostSOA_Mass = [1], hostSOA_InvMass = [1], dptrAOS_PosMass = [0, 0, 0, 0],
        dptrAOS_Force = [0, 0, 0 :: real]\<rparr>"
    by (simp add: host_wf_def soa_shape_def numeral_eq_Suc less_Suc_eq)
  have a: "algorithm_of 5 = Some GPU_AOS" by (simp add: algorithm_of_def)
  show ?thesis
    using ComputeGravitation_refines [OF F wf _ _ a, where g = "\<lparr>g_bCUDAPresent = True, g_bSM30Present = True,
       g_bCrossCheck = True, g_bUseSSEForCrossCheck = True, g_bNoCPU = False, g_Algorithm = 5, g_maxAlgorithm = 11,
       g_N = 1\<rparr>" and cuda_ok = True and dt = 1 and damping = 1 and bCrossCheck = True]
    by (simp; blast)
qed

lemma gravitation_switch_no_cuda:
  "algorithm_of algorithm = Some a \<Longrightarrow> \<not> host_algorithm a \<Longrightarrow>
   fst (gravitation_switch impls False N algorithm h) = False"
  by (auto simp: gravitation_switch_def Let_def host_algorithm_def)

text \<open>Without a CUDA device, a GPU algorithm makes \<open>ComputeGravitation\<close> return
  false (the \<open>default\<close> of its switch).\<close>

lemma ComputeGravitation_no_cuda_gpu:
  assumes "\<not> g_bCUDAPresent g" "algorithm_of algorithm = Some a" "\<not> host_algorithm a"
  shows "ComputeGravitation impls cuda_ok g dt damping algorithm bCrossCheck h = Returned_false"
proof -
  obtain ok bSOA h' where sw: "gravitation_switch impls False (unat (g_N g)) algorithm
      (if bCrossCheck then (if g_bUseSSEForCrossCheck g then
          let h = (aos_to_soa (unat (g_N g)) h)\<lparr>hostSOA_Force := soa_impl impls CPU_SSE_threaded
                     (hostSOA_Pos (aos_to_soa (unat (g_N g)) h)) (hostSOA_Mass (aos_to_soa (unat (g_N g)) h))\<rparr>
          in h\<lparr>hostAOS_Force_Golden := soa_to_aos (unat (g_N g)) (hostSOA_Force h) (hostAOS_Force_Golden h)\<rparr>
        else (aos_to_soa (unat (g_N g)) h)\<lparr>hostAOS_Force_Golden :=
               aos_impl impls CPU_AOS (hostAOS_PosMass (aos_to_soa (unat (g_N g)) h))\<rparr>)
       else aos_to_soa (unat (g_N g)) h) = (ok, bSOA, h')"
    by (metis prod_cases3)
  moreover have "\<not> ok" using gravitation_switch_no_cuda [OF assms(2,3)] sw by (metis fst_conv)
  ultimately show ?thesis using assms(1) unfolding ComputeGravitation_def Let_def by simp
qed

lemma ComputeGravitation_cuda_fails:
  "g_bCUDAPresent g \<Longrightarrow> \<not> cuda_ok \<Longrightarrow>
   ComputeGravitation impls cuda_ok g dt damping algorithm bCrossCheck h = Returned_false"
  by (simp add: ComputeGravitation_def Let_def)

text \<open>A step that returns true ran an algorithm that could run.\<close>

lemma ComputeGravitation_true_can_run:
  assumes "algorithm_of algorithm = Some a"
    and "ComputeGravitation impls cuda_ok g dt damping algorithm bCrossCheck h = Returned_true x"
  shows "g_bCUDAPresent g \<and> cuda_ok \<or> \<not> g_bCUDAPresent g \<and> host_algorithm a"
  using assms ComputeGravitation_cuda_fails ComputeGravitation_no_cuda_gpu [OF _ assms(1)]
  by (metis step_outcome.distinct(3))

lemma ComputeGravitation_wf:
  assumes F: "impls_compute F N impls" and wf: "host_wf N h"
    and N: "unat (g_N g) = N" "N \<le> 2 ^ 29" and a: "algorithm_of algorithm = Some a"
    and r: "ComputeGravitation impls cuda_ok g dt damping algorithm bCrossCheck h = Returned_true (err, h')"
  shows "host_wf N h'"
  using ComputeGravitation_step [OF F wf N a ComputeGravitation_true_can_run [OF a r],
      where dt = dt and damping = damping and bCrossCheck = bCrossCheck] r by auto

text \<open>C25: for at most \<open>2^29\<close> bodies, \<open>integrateGravitation_AOS\<close> updates
  each body's velocity to \<open>(v + f * invMass * dt) * damping\<close> and its position to
  \<open>p + v' * dt\<close>, component by component, and leaves the mass and inverse-mass
  slots unchanged.\<close>

theorem integrateGravitation_AOS_step:
  assumes "N \<le> 2 ^ 29" "length ppos = 4 * N" "length pvel = 4 * N" "length pforce = 3 * N"
  shows "\<exists>ppos' pvel'. integrateGravitation_AOS ppos pvel pforce dt damping N = Some (ppos', pvel') \<and>
           (\<forall>k<N. ppos' ! (4 * k + 3) = ppos ! (4 * k + 3) \<and> pvel' ! (4 * k + 3) = pvel ! (4 * k + 3)) \<and>
           (\<forall>k<N. \<forall>c<3. pvel' ! (4 * k + c) = (pvel ! (4 * k + c) + (pforce ! (3 * k + c) * pvel ! (4 * k + 3)) * dt) * damping \<and>
                        ppos' ! (4 * k + c) = ppos ! (4 * k + c) + pvel' ! (4 * k + c) * dt)"
proof -
  let ?r = "for_loop 0 N (integrate_body dt damping pforce) (ppos, pvel)"
  have res: "integrateGravitation_AOS ppos pvel pforce dt damping N = Some (fst ?r, snd ?r)"
    using integrateGravitation_AOS_result [of N ppos pvel pforce dt damping] assms by simp
  have nth: "(\<forall>j. (4 * N \<le> j \<or> j mod 4 = 3) \<longrightarrow> fst ?r ! j = ppos ! j \<and> snd ?r ! j = pvel ! j) \<and>
      (\<forall>k<N. \<forall>c<3. snd ?r ! (4 * k + c) = (pvel ! (4 * k + c) + (pforce ! (3 * k + c) * pvel ! (4 * k + 3)) * dt) * damping \<and>
                   fst ?r ! (4 * k + c) = ppos ! (4 * k + c) + snd ?r ! (4 * k + c) * dt)"
    using assms(2,3) by (intro integrate_for_loop_nth) simp_all
  have "(4 * k + 3) mod 4 = 3" for k :: nat by presburger
  then show ?thesis using res nth by blast
qed

theorem integrateGravitation_AOS_step_witness:
  "\<exists>ppos' pvel'. integrateGravitation_AOS [1, 2, 3, 5 :: int] [1, 1, 1, 2] [1, 0, -1] 1 1 1 = Some (ppos', pvel') \<and>
     ppos' ! 3 = 5 \<and> pvel' ! 0 = 3 \<and> ppos' ! 0 = 4"
proof -
  obtain ppos' pvel' where r: "integrateGravitation_AOS [1, 2, 3, 5 :: int] [1, 1, 1, 2] [1, 0, -1] 1 1 1 = Some (ppos', pvel')"
    and m: "\<forall>k<1. ppos' ! (4 * k + 3) = [1, 2, 3, 5 :: int] ! (4 * k + 3) \<and> pvel' ! (4 * k + 3) = [1, 1, 1, 2 :: int] ! (4 * k + 3)"
    and v: "\<forall>k<1. \<forall>c<3. pvel' ! (4 * k + c) = ([1, 1, 1, 2 :: int] ! (4 * k + c) + ([1, 0, -1 :: int] ! (3 * k + c) * [1, 1, 1, 2 :: int] ! (4 * k + 3)) * 1) * 1 \<and>
                  ppos' ! (4 * k + c) = [1, 2, 3, 5 :: int] ! (4 * k + c) + pvel' ! (4 * k + c) * 1"
    using integrateGravitation_AOS_step [of 1 "[1, 2, 3, 5 :: int]" "[1, 1, 1, 2]" "[1, 0, -1]" 1 1] by auto
  have "ppos' ! 3 = 5" using m by auto
  moreover have "pvel' ! 0 = 3" "ppos' ! 0 = 4" using v by (auto dest: spec [of _ 0])
  ultimately show ?thesis using r by blast
qed


end
