(* ===== verification/NbodyInit.thy ===== *)
theory NbodyInit
  imports NbodyForces
begin

text \<open>
  The initialisation of the N-body program (\<open>src/unnamed/part_000\<close>): the
  random bodies (\<open>randomVector\<close>, \<open>randomUnitBodies\<close>, lines 205--226), the
  allocation of the host and device buffers in \<open>main\<close> (lines 670--696), the
  mass arrays filled from the bodies (lines 699--702), the per-GPU start-up
  \<open>initializeGPU\<close> (lines 556--567) and the unused overload of \<open>relError\<close>
  (lines 228--234).

  Allocations are blocks of a heap, numbered in allocation order; the global
  pointers are block numbers.  A checked \<open>cudaHostAlloc\<close> or \<open>cudaMalloc\<close> fails
  as the environment says, and then \<open>main\<close> returns 1; \<open>new float[n]\<close> always
  succeeds.  Fresh blocks hold whatever the allocator left there.  \<open>rand()\<close> is
  a sequence indexed by the number of calls made, and the rejection loop of
  \<open>randomVector\<close> is a \<open>partial_function (option)\<close>: it does not return when
  no later triple of values lies in the unit ball.
\<close>

section \<open>randomVector and randomUnitBodies\<close>

text \<open>\<open>rand() / (float) RAND_MAX * 2 - 1\<close>.\<close>

definition rand_unit :: "nat \<Rightarrow> nat \<Rightarrow> 'f::field" where
  "rand_unit rand_max x = of_nat x / of_nat rand_max * 2 - 1"

text \<open>\<open>randomVector\<close> (lines 205--215): draws three values until their squared
  length is at most 1; the state is the number of \<open>rand()\<close> calls made.\<close>

partial_function (option) randomVector ::
  "(nat \<Rightarrow> nat) \<Rightarrow> nat \<Rightarrow> nat \<Rightarrow> ('f::linordered_field list \<times> nat) option" where
  "randomVector rand rand_max r =
     (let v0 = rand_unit rand_max (rand r);
          v1 = rand_unit rand_max (rand (r + 1));
          v2 = rand_unit rand_max (rand (r + 2));
          lenSqr = v0 * v0 + v1 * v1 + v2 * v2
      in if lenSqr > 1 then randomVector rand rand_max (r + 3) else Some ([v0, v1, v2], r + 3))"

declare randomVector.simps [code]

text \<open>One body of \<open>randomUnitBodies\<close> (lines 220--225): position and velocity
  from \<open>randomVector\<close>, unit mass and unit inverse mass.\<close>

definition unit_body ::
  "(nat \<Rightarrow> nat) \<Rightarrow> nat \<Rightarrow> nat \<Rightarrow> 'f::linordered_field list \<times> 'f list \<times> nat \<Rightarrow> ('f list \<times> 'f list \<times> nat) option" where
  "unit_body rand rand_max i s =
     (case s of (pos, vel, r) \<Rightarrow>
        case randomVector rand rand_max r of None \<Rightarrow> None | Some (p, r) \<Rightarrow>
        case randomVector rand rand_max r of None \<Rightarrow> None | Some (v, r) \<Rightarrow>
        Some ((write_list pos (4 * i) p)[4 * i + 3 := 1], (write_list vel (4 * i) v)[4 * i + 3 := 1], r))"

text \<open>\<open>for (i = 0; i < N; i++)\<close> over a body that may not return.\<close>

function for_loop_opt :: "nat \<Rightarrow> nat \<Rightarrow> (nat \<Rightarrow> 's \<Rightarrow> 's option) \<Rightarrow> 's \<Rightarrow> 's option" where
  "for_loop_opt i N body s =
     (if i < N then (case body i s of None \<Rightarrow> None | Some s' \<Rightarrow> for_loop_opt (Suc i) N body s') else Some s)"
  by pat_completeness auto
termination by (relation "measure (\<lambda>(i, N, _, _). N - i)") auto

declare for_loop_opt.simps [simp del]

definition randomUnitBodies ::
  "(nat \<Rightarrow> nat) \<Rightarrow> nat \<Rightarrow> nat \<Rightarrow> 'f::linordered_field list \<times> 'f list \<times> nat \<Rightarrow> ('f list \<times> 'f list \<times> nat) option" where
  "randomUnitBodies rand rand_max N = for_loop_opt 0 N (unit_body rand rand_max)"

section \<open>The allocation of the buffers\<close>

type_synonym 'f heap = "'f list list"

record host_ptrs =
  p_hostAOS_PosMass :: nat
  p_hostSOA_Pos :: "nat list"
  p_hostSOA_Force :: "nat list"
  p_hostAOS_Force :: nat
  p_hostAOS_Force_Golden :: nat
  p_hostAOS_VelInvMass :: nat
  p_hostSOA_Mass :: nat
  p_hostSOA_InvMass :: nat
  p_dptrAOS_PosMass :: "nat option"
  p_dptrAOS_Force :: "nat option"

text \<open>\<open>new float[n]\<close>: a fresh block, numbered after the existing ones.\<close>

definition new_float :: "(nat \<Rightarrow> nat \<Rightarrow> 'f) \<Rightarrow> nat \<Rightarrow> 'f heap \<Rightarrow> nat \<times> 'f heap" where
  "new_float garbage n hp = (length hp, hp @ [map (garbage (length hp)) [0..<n]])"

text \<open>\<open>CUDART_CHECK( cudaHostAlloc( &p, n*sizeof(float), ... ) )\<close> and
  \<open>CUDART_CHECK( cudaMalloc( &p, n*sizeof(float) ) )\<close>: the \<open>k\<close>-th checked call
  succeeds when \<open>ok k\<close>; a failure goes to \<open>Error\<close> (\<open>None\<close>).\<close>

definition cuda_alloc :: "(nat \<Rightarrow> bool) \<Rightarrow> (nat \<Rightarrow> nat \<Rightarrow> 'f) \<Rightarrow> nat \<Rightarrow> 'f heap \<times> nat \<Rightarrow> (nat \<times> 'f heap \<times> nat) option" where
  "cuda_alloc ok garbage n st =
     (case st of (hp, k) \<Rightarrow> if ok k then (case new_float garbage n hp of (p, hp') \<Rightarrow> Some (p, hp', Suc k)) else None)"

text \<open>\<open>for (i = 0; i < 3; i++)\<close> allocating \<open>g_hostSOA_Pos[i]\<close> and
  \<open>g_hostSOA_Force[i]\<close>, with \<open>cudaHostAlloc\<close> (lines 671--674) and with \<open>new\<close> (lines 686--689).\<close>

fun soa_allocs_cuda ::
  "(nat \<Rightarrow> bool) \<Rightarrow> (nat \<Rightarrow> nat \<Rightarrow> 'f) \<Rightarrow> nat \<Rightarrow> nat \<Rightarrow> nat list \<times> nat list \<times> 'f heap \<times> nat \<Rightarrow>
   (nat list \<times> nat list \<times> 'f heap \<times> nat) option" where
  "soa_allocs_cuda ok garbage N 0 acc = Some acc"
| "soa_allocs_cuda ok garbage N (Suc i) (ps, fs, hp, k) =
     (case cuda_alloc ok garbage N (hp, k) of None \<Rightarrow> None | Some (p, hp, k) \<Rightarrow>
      case cuda_alloc ok garbage N (hp, k) of None \<Rightarrow> None | Some (f, hp, k) \<Rightarrow>
      soa_allocs_cuda ok garbage N i (ps @ [p], fs @ [f], hp, k))"

fun soa_allocs_new ::
  "(nat \<Rightarrow> nat \<Rightarrow> 'f) \<Rightarrow> nat \<Rightarrow> nat \<Rightarrow> nat list \<times> nat list \<times> 'f heap \<Rightarrow> nat list \<times> nat list \<times> 'f heap" where
  "soa_allocs_new garbage N 0 acc = acc"
| "soa_allocs_new garbage N (Suc i) (ps, fs, hp) =
     (case new_float garbage N hp of (p, hp) \<Rightarrow>
      case new_float garbage N hp of (f, hp) \<Rightarrow>
      soa_allocs_new garbage N i (ps @ [p], fs @ [f], hp))"

text \<open>The CUDA branch (lines 670--682): fourteen checked allocations.\<close>

definition alloc_cuda :: "(nat \<Rightarrow> bool) \<Rightarrow> (nat \<Rightarrow> nat \<Rightarrow> 'f) \<Rightarrow> nat \<Rightarrow> (host_ptrs \<times> 'f heap) option" where
  "alloc_cuda ok garbage N =
     (case cuda_alloc ok garbage (4 * N) ([], 0) of None \<Rightarrow> None | Some (pPM, hp, k) \<Rightarrow>
      case soa_allocs_cuda ok garbage N 3 ([], [], hp, k) of None \<Rightarrow> None | Some (pPos, pForce, hp, k) \<Rightarrow>
      case cuda_alloc ok garbage (3 * N) (hp, k) of None \<Rightarrow> None | Some (pF, hp, k) \<Rightarrow>
      case cuda_alloc ok garbage (3 * N) (hp, k) of None \<Rightarrow> None | Some (pG, hp, k) \<Rightarrow>
      case cuda_alloc ok garbage (4 * N) (hp, k) of None \<Rightarrow> None | Some (pV, hp, k) \<Rightarrow>
      case cuda_alloc ok garbage N (hp, k) of None \<Rightarrow> None | Some (pM, hp, k) \<Rightarrow>
      case cuda_alloc ok garbage N (hp, k) of None \<Rightarrow> None | Some (pI, hp, k) \<Rightarrow>
      case cuda_alloc ok garbage (4 * N) (hp, k) of None \<Rightarrow> None | Some (dPM, hp, k) \<Rightarrow>
      case cuda_alloc ok garbage (3 * N) (hp, k) of None \<Rightarrow> None | Some (dF, hp, k) \<Rightarrow>
      Some (\<lparr>p_hostAOS_PosMass = pPM, p_hostSOA_Pos = pPos, p_hostSOA_Force = pForce, p_hostAOS_Force = pF,
              p_hostAOS_Force_Golden = pG, p_hostAOS_VelInvMass = pV, p_hostSOA_Mass = pM,
              p_hostSOA_InvMass = pI, p_dptrAOS_PosMass = Some dPM, p_dptrAOS_Force = Some dF\<rparr>, hp))"

text \<open>The branch without CUDA (lines 684--696), which allocates
  \<open>g_hostSOA_Mass\<close> twice.\<close>

definition alloc_new :: "(nat \<Rightarrow> nat \<Rightarrow> 'f) \<Rightarrow> nat \<Rightarrow> host_ptrs \<times> 'f heap" where
  "alloc_new garbage N =
     (case new_float garbage (4 * N) [] of (pPM, hp) \<Rightarrow>
      case soa_allocs_new garbage N 3 ([], [], hp) of (pPos, pForce, hp) \<Rightarrow>
      case new_float garbage N hp of (pM0, hp) \<Rightarrow>
      case new_float garbage (3 * N) hp of (pF, hp) \<Rightarrow>
      case new_float garbage (3 * N) hp of (pG, hp) \<Rightarrow>
      case new_float garbage (4 * N) hp of (pV, hp) \<Rightarrow>
      case new_float garbage N hp of (pM, hp) \<Rightarrow>
      case new_float garbage N hp of (pI, hp) \<Rightarrow>
      (\<lparr>p_hostAOS_PosMass = pPM, p_hostSOA_Pos = pPos, p_hostSOA_Force = pForce, p_hostAOS_Force = pF,
         p_hostAOS_Force_Golden = pG, p_hostAOS_VelInvMass = pV, p_hostSOA_Mass = pM,
         p_hostSOA_InvMass = pI, p_dptrAOS_PosMass = None, p_dptrAOS_Force = None\<rparr>, hp))"

definition nbody_alloc :: "bool \<Rightarrow> (nat \<Rightarrow> bool) \<Rightarrow> (nat \<Rightarrow> nat \<Rightarrow> 'f) \<Rightarrow> nat \<Rightarrow> (host_ptrs \<times> 'f heap) option" where
  "nbody_alloc cuda ok garbage N = (if cuda then alloc_cuda ok garbage N else Some (alloc_new garbage N))"

text \<open>The buffers the globals point to.\<close>

definition host_of :: "'f heap \<Rightarrow> host_ptrs \<Rightarrow> 'f nbody_host" where
  "host_of hp p =
     \<lparr>hostAOS_PosMass = hp ! p_hostAOS_PosMass p, hostAOS_VelInvMass = hp ! p_hostAOS_VelInvMass p,
      hostAOS_Force = hp ! p_hostAOS_Force p, hostAOS_Force_Golden = hp ! p_hostAOS_Force_Golden p,
      hostSOA_Pos = map (\<lambda>q. hp ! q) (p_hostSOA_Pos p), hostSOA_Force = map (\<lambda>q. hp ! q) (p_hostSOA_Force p),
      hostSOA_Mass = hp ! p_hostSOA_Mass p, hostSOA_InvMass = hp ! p_hostSOA_InvMass p,
      dptrAOS_PosMass = (case p_dptrAOS_PosMass p of None \<Rightarrow> [] | Some q \<Rightarrow> hp ! q),
      dptrAOS_Force = (case p_dptrAOS_Force p of None \<Rightarrow> [] | Some q \<Rightarrow> hp ! q)\<rparr>"

section \<open>The masses and the start of the simulation\<close>

text \<open>\<open>g_hostSOA_Mass[i] = g_hostAOS_PosMass[4*i+3]; g_hostSOA_InvMass[i] = 1.0f /
  g_hostSOA_Mass[i];\<close> (lines 700--701).\<close>

definition init_mass_body :: "nat \<Rightarrow> 'f::{one,inverse} nbody_host \<Rightarrow> 'f nbody_host" where
  "init_mass_body i h =
     (let h = h\<lparr>hostSOA_Mass := (hostSOA_Mass h)[i := hostAOS_PosMass h ! (4 * i + 3)]\<rparr>
      in h\<lparr>hostSOA_InvMass := (hostSOA_InvMass h)[i := 1 / hostSOA_Mass h ! i]\<rparr>)"

text \<open>Allocation, random bodies and masses, in the order of \<open>main\<close>: \<open>Inl 1\<close>
  when an allocation fails, \<open>None\<close> when \<open>randomVector\<close> does not return.\<close>

definition nbody_init ::
  "bool \<Rightarrow> (nat \<Rightarrow> bool) \<Rightarrow> (nat \<Rightarrow> nat \<Rightarrow> 'f) \<Rightarrow> (nat \<Rightarrow> nat) \<Rightarrow> nat \<Rightarrow> nat \<Rightarrow> nat \<Rightarrow>
   (int + 'f::linordered_field nbody_host \<times> nat) option" where
  "nbody_init cuda ok garbage rand rand_max N r =
     (case nbody_alloc cuda ok garbage N of
        None \<Rightarrow> Some (Inl 1)
      | Some (p, hp) \<Rightarrow>
          let h = host_of hp p in
          case randomUnitBodies rand rand_max N (hostAOS_PosMass h, hostAOS_VelInvMass h, r) of
            None \<Rightarrow> None
          | Some (pos, vel, r) \<Rightarrow>
              Some (Inr (for_loop 0 N init_mass_body (h\<lparr>hostAOS_PosMass := pos, hostAOS_VelInvMass := vel\<rparr>), r)))"

section \<open>initializeGPU and the unused relError\<close>

text \<open>\<open>struct gpuInit_struct\<close> (lines 549--554): the device number and the
  status \<open>initializeGPU\<close> reports, \<open>None\<close> standing for \<open>cudaSuccess\<close>.\<close>

record 'e gpuInit_struct =
  iGPU :: nat
  status :: "'e option"

text \<open>\<open>initializeGPU\<close> (lines 556--567): \<open>cudaSetDevice(p->iGPU)\<close>,
  \<open>cudaSetDeviceFlags\<close>, \<open>cudaFree(0)\<close>, each checked; the first failure goes
  to \<open>Error\<close>, and \<open>p->status\<close> receives the status of the last call made.
  \<open>cuda i k\<close> is the outcome of the \<open>k\<close>-th call on device \<open>i\<close>.\<close>

definition initializeGPU :: "(nat \<Rightarrow> nat \<Rightarrow> 'e option) \<Rightarrow> 'e gpuInit_struct \<Rightarrow> 'e gpuInit_struct" where
  "initializeGPU cuda p =
     (let st = (case cuda (iGPU p) 0 of Some e \<Rightarrow> Some e | None \<Rightarrow>
                case cuda (iGPU p) 1 of Some e \<Rightarrow> Some e | None \<Rightarrow>
                case cuda (iGPU p) 2 of Some e \<Rightarrow> Some e | None \<Rightarrow> None)
      in p\<lparr>status := st\<rparr>)"

text \<open>The first \<open>relError\<close> (lines 228--234), \<open>fabsf(a-b)/b\<close>; its template
  parameter cannot be deduced, so the call of line 523 never selects it.\<close>

definition relError_fabsf :: "'f::{abs,minus,zero,inverse} \<Rightarrow> 'f \<Rightarrow> 'f" where
  "relError_fabsf a b = (if a = b then 0 else \<bar>a - b\<bar> / b)"

section \<open>Predicates of the proofs\<close>

text \<open>The blocks the globals point to, and the blocks no global points to.\<close>

definition ptr_list :: "host_ptrs \<Rightarrow> nat list" where
  "ptr_list p =
     [p_hostAOS_PosMass p] @ p_hostSOA_Pos p @ p_hostSOA_Force p @
     [p_hostAOS_Force p, p_hostAOS_Force_Golden p, p_hostAOS_VelInvMass p, p_hostSOA_Mass p, p_hostSOA_InvMass p] @
     (case p_dptrAOS_PosMass p of None \<Rightarrow> [] | Some q \<Rightarrow> [q]) @ (case p_dptrAOS_Force p of None \<Rightarrow> [] | Some q \<Rightarrow> [q])"

definition leaked :: "'f heap \<Rightarrow> host_ptrs \<Rightarrow> nat list" where
  "leaked hp p = filter (\<lambda>b. b \<notin> set (ptr_list p)) [0..<length hp]"

text \<open>A heap of fresh blocks of the given sizes, in allocation order.\<close>

definition blocks :: "(nat \<Rightarrow> nat \<Rightarrow> 'f) \<Rightarrow> nat list \<Rightarrow> 'f heap" where
  "blocks garbage L = map (\<lambda>b. map (garbage b) [0..<L ! b]) [0..<length L]"

text \<open>A point of the closed unit ball.\<close>

definition in_ball :: "'f::linordered_field list \<Rightarrow> bool" where
  "in_ball v \<longleftrightarrow> v ! 0 * v ! 0 + v ! 1 * v ! 1 + v ! 2 * v ! 2 \<le> 1"

text \<open>Bodies \<open>0..i-1\<close> of an AOS array of \<open>N\<close> bodies: a point of the ball
  and a fourth component 1.\<close>

definition unit_bodies :: "nat \<Rightarrow> nat \<Rightarrow> 'f::linordered_field list \<Rightarrow> bool" where
  "unit_bodies N i xs \<longleftrightarrow>
     length xs = 4 * N \<and> (\<forall>j<i. in_ball (map (\<lambda>c. xs ! (4 * j + c)) [0, 1, 2]) \<and> xs ! (4 * j + 3) = 1)"

section \<open>The allocation in closed form\<close>

lemma soa_shape_3 [simp]: "soa_shape N [a, b, c] \<longleftrightarrow> length a = N \<and> length b = N \<and> length c = N"
  by (auto simp: soa_shape_def numeral_3_eq_3 All_less_Suc)

lemma blocks_simps [simp]:
  "length (blocks garbage L) = length L" "i < length L \<Longrightarrow> length (blocks garbage L ! i) = L ! i"
  by (simp_all add: blocks_def)

lemma blocks_snoc: "blocks garbage L @ [map (garbage (length L)) [0..<n]] = blocks garbage (L @ [n])"
  by (simp add: blocks_def nth_append cong: map_cong)

lemma new_float_blocks:
  "new_float garbage n (blocks garbage L) = (length L, blocks garbage (L @ [n]))"
  by (simp add: new_float_def blocks_snoc)

lemma new_float_Nil: "new_float garbage n [] = (0, blocks garbage [n])"
  by (simp add: new_float_def blocks_def)

lemma soa_allocs_new_3:
  "soa_allocs_new garbage N 3 ([], [], blocks garbage L) =
     ([length L, length L + 2, length L + 4], [length L + 1, length L + 3, length L + 5],
      blocks garbage (L @ [N, N, N, N, N, N]))"
  by (simp add: numeral_3_eq_3 new_float_blocks)

lemma soa_allocs_cuda_3:
  "soa_allocs_cuda ok garbage N 3 ([], [], blocks garbage L, k) = Some y \<Longrightarrow>
   y = ([length L, length L + 2, length L + 4], [length L + 1, length L + 3, length L + 5],
        blocks garbage (L @ [N, N, N, N, N, N]), k + 6)"
  by (auto simp: numeral_3_eq_3 cuda_alloc_def new_float_blocks split: if_splits)

lemma alloc_new_eq:
  "alloc_new garbage N =
     (\<lparr>p_hostAOS_PosMass = 0, p_hostSOA_Pos = [1, 3, 5], p_hostSOA_Force = [2, 4, 6], p_hostAOS_Force = 8,
       p_hostAOS_Force_Golden = 9, p_hostAOS_VelInvMass = 10, p_hostSOA_Mass = 11, p_hostSOA_InvMass = 12,
       p_dptrAOS_PosMass = None, p_dptrAOS_Force = None\<rparr>,
      blocks garbage [4 * N, N, N, N, N, N, N, N, 3 * N, 3 * N, 4 * N, N, N])"
  by (simp add: alloc_new_def new_float_Nil soa_allocs_new_3 new_float_blocks)

lemma alloc_cuda_Some:
  "alloc_cuda ok garbage N = Some x \<Longrightarrow>
   x = (\<lparr>p_hostAOS_PosMass = 0, p_hostSOA_Pos = [1, 3, 5], p_hostSOA_Force = [2, 4, 6], p_hostAOS_Force = 7,
         p_hostAOS_Force_Golden = 8, p_hostAOS_VelInvMass = 9, p_hostSOA_Mass = 10, p_hostSOA_InvMass = 11,
         p_dptrAOS_PosMass = Some 12, p_dptrAOS_Force = Some 13\<rparr>,
        blocks garbage [4 * N, N, N, N, N, N, N, 3 * N, 3 * N, 4 * N, N, N, 4 * N, 3 * N])"
  by (auto simp: alloc_cuda_def cuda_alloc_def new_float_Nil new_float_blocks
      dest!: soa_allocs_cuda_3 [where L = "[4 * N]", simplified] split: if_splits option.splits)

lemma nbody_alloc_host_wf:
  assumes "nbody_alloc cuda ok garbage N = Some (p, hp)"
  shows "host_wf N (host_of hp p)"
proof (cases cuda)
  case True
  then have "alloc_cuda ok garbage N = Some (p, hp)" using assms by (simp add: nbody_alloc_def)
  from alloc_cuda_Some [OF this] show ?thesis by (simp add: host_of_def host_wf_def)
next
  case False
  then have "(p, hp) = alloc_new garbage N" using assms by (simp add: nbody_alloc_def)
  then show ?thesis by (simp add: alloc_new_eq host_of_def host_wf_def)
qed


text \<open>C36: the allocation of \<open>main\<close>, with CUDA (when every checked call
  succeeds) or with \<open>new\<close>, gives buffers of the sizes the force routines need
  (\<open>host_wf\<close>), the globals point to distinct blocks, and every one of them
  is an allocated block.\<close>

theorem nbody_alloc_wf:
  assumes "nbody_alloc cuda ok garbage N = Some (p, hp)"
  shows "host_wf N (host_of hp p) \<and> distinct (ptr_list p) \<and> (\<forall>q\<in>set (ptr_list p). q < length hp)"
proof (cases cuda)
  case True
  then have "alloc_cuda ok garbage N = Some (p, hp)" using assms by (simp add: nbody_alloc_def)
  from alloc_cuda_Some [OF this] show ?thesis
    by (simp add: host_of_def host_wf_def ptr_list_def)
next
  case False
  then have "(p, hp) = alloc_new garbage N"
    using assms by (simp add: nbody_alloc_def)
  then show ?thesis
    by (simp add: alloc_new_eq host_of_def host_wf_def ptr_list_def)
qed

theorem nbody_alloc_wf_witness:
  "host_wf 1 (host_of (snd (alloc_new (\<lambda>_ _. 0 :: rat) 1)) (fst (alloc_new (\<lambda>_ _. 0 :: rat) 1))) \<and>
   distinct (ptr_list (fst (alloc_new (\<lambda>_ _. 0 :: rat) 1))) \<and>
   p_hostSOA_Mass (fst (alloc_new (\<lambda>_ _. 0 :: rat) 1)) < length (snd (alloc_new (\<lambda>_ _. 0 :: rat) 1))"
  using nbody_alloc_wf [where cuda = False and ok = "\<lambda>_. True" and garbage = "\<lambda>_ _. 0 :: rat" and N = 1
      and p = "fst (alloc_new (\<lambda>_ _. 0 :: rat) 1)" and hp = "snd (alloc_new (\<lambda>_ _. 0 :: rat) 1)"]
  by (simp add: nbody_alloc_def ptr_list_def)

text \<open>C37: the branch without CUDA allocates \<open>g_hostSOA_Mass\<close> twice
  (lines 690 and 694): exactly one block of \<open>N\<close> floats, the first one, is
  left without a pointer, while the CUDA branch leaks nothing.\<close>

theorem alloc_new_leaks_mass:
  "leaked (snd (alloc_new garbage N)) (fst (alloc_new garbage N)) = [7] \<and>
   length (snd (alloc_new garbage N) ! 7) = N \<and>
   (alloc_cuda ok garbage N = Some (p, hp) \<longrightarrow> leaked hp p = [])"
proof -
  have c: "alloc_cuda ok garbage N = Some (p, hp) \<longrightarrow> leaked hp p = []"
  proof
    assume "alloc_cuda ok garbage N = Some (p, hp)"
    from alloc_cuda_Some [OF this] show "leaked hp p = []"
      by (simp add: leaked_def ptr_list_def upt_rec)
  qed
  have "leaked (snd (alloc_new garbage N)) (fst (alloc_new garbage N)) = [7] \<and>
        length (snd (alloc_new garbage N) ! 7) = N"
    by (simp add: alloc_new_eq leaked_def ptr_list_def upt_rec)
  then show ?thesis using c by blast
qed

theorem alloc_new_leaks_mass_witness:
  "alloc_cuda (\<lambda>_. True) (\<lambda>_ _. 0 :: rat) 1 =
     Some (fst (the (alloc_cuda (\<lambda>_. True) (\<lambda>_ _. 0 :: rat) 1)), snd (the (alloc_cuda (\<lambda>_. True) (\<lambda>_ _. 0 :: rat) 1))) \<and>
   leaked (snd (alloc_new (\<lambda>_ _. 0 :: rat) 1)) (fst (alloc_new (\<lambda>_ _. 0 :: rat) 1)) = [7] \<and>
   leaked (snd (the (alloc_cuda (\<lambda>_. True) (\<lambda>_ _. 0 :: rat) 1))) (fst (the (alloc_cuda (\<lambda>_. True) (\<lambda>_ _. 0 :: rat) 1))) = []"
proof -
  have e: "alloc_cuda (\<lambda>_. True) (\<lambda>_ _. 0 :: rat) 1 =
     Some (fst (the (alloc_cuda (\<lambda>_. True) (\<lambda>_ _. 0 :: rat) 1)), snd (the (alloc_cuda (\<lambda>_. True) (\<lambda>_ _. 0 :: rat) 1)))"
    by code_simp
  show ?thesis
    using alloc_new_leaks_mass [where ok = "\<lambda>_. True" and garbage = "\<lambda>_ _. 0 :: rat" and N = 1
        and p = "fst (the (alloc_cuda (\<lambda>_. True) (\<lambda>_ _. 0 :: rat) 1))"
        and hp = "snd (the (alloc_cuda (\<lambda>_. True) (\<lambda>_ _. 0 :: rat) 1))"] e
    by blast
qed

section \<open>What randomVector and randomUnitBodies return\<close>

lemma randomVector_step:
  "(randomVector rand rand_max r :: ('f::linordered_field list \<times> nat) option) =
     (if in_ball (map (\<lambda>j. rand_unit rand_max (rand (r + j))) [0, 1, 2] :: 'f list)
      then Some (map (\<lambda>j. rand_unit rand_max (rand (r + j))) [0, 1, 2], r + 3)
      else randomVector rand rand_max (r + 3))"
  by (subst randomVector.simps) (auto simp: in_ball_def Let_def)

lemma randomVector_sound_raw:
  assumes "randomVector rand rand_max r = Some (res :: 'f::linordered_field list \<times> nat)"
  shows "in_ball (fst res) \<and> length (fst res) = 3"
proof (rule randomVector.raw_induct [where P = "\<lambda>rand rand_max r res. in_ball (fst res) \<and> length (fst res) = 3", OF _ assms])
  fix f :: "(nat \<Rightarrow> nat) \<Rightarrow> nat \<Rightarrow> nat \<Rightarrow> ('f list \<times> nat) option" and rand rand_max r res
  assume IH: "\<And>rand rand_max r res. f rand rand_max r = Some res \<Longrightarrow> in_ball (fst res) \<and> length (fst res) = 3"
    and eq: "(let v0 = rand_unit rand_max (rand r); v1 = rand_unit rand_max (rand (r + 1));
               v2 = rand_unit rand_max (rand (r + 2)); lenSqr = v0 * v0 + v1 * v1 + v2 * v2
              in if 1 < lenSqr then f rand rand_max (r + 3) else Some ([v0, v1, v2], r + 3)) = Some res"
  show "in_ball (fst res) \<and> length (fst res) = 3"
  proof (cases "(1 :: 'f) < rand_unit rand_max (rand r) * rand_unit rand_max (rand r) +
      rand_unit rand_max (rand (r + 1)) * rand_unit rand_max (rand (r + 1)) +
      rand_unit rand_max (rand (r + 2)) * rand_unit rand_max (rand (r + 2))")
    case True
    then show ?thesis using eq IH by (simp add: Let_def del: One_nat_def)
  next
    case False
    then show ?thesis using eq by (auto simp: Let_def in_ball_def not_less)
  qed
qed

lemma randomVector_sound:
  "randomVector rand rand_max r = Some (v :: 'f::linordered_field list, r') \<Longrightarrow> in_ball v \<and> length v = 3"
  using randomVector_sound_raw by fastforce

lemma randomVector_live:
  "in_ball (map (\<lambda>j. rand_unit rand_max (rand (r + 3 * k + j))) [0, 1, 2] :: 'f::linordered_field list) \<Longrightarrow>
   \<exists>v r'. randomVector rand rand_max r = Some (v :: 'f list, r') \<and> r' \<le> r + 3 * k + 3"
proof (induction k arbitrary: r)
  case 0
  then show ?case by (subst randomVector_step) auto
next
  case (Suc k)
  have "in_ball (map (\<lambda>j. rand_unit rand_max (rand (r + 3 + 3 * k + j))) [0, 1, 2] :: 'f list)"
    using Suc.prems by (simp add: add.assoc)
  from Suc.IH [OF this] obtain v r' where "randomVector rand rand_max (r + 3) = Some (v :: 'f list, r')"
    "r' \<le> r + 3 + 3 * k + 3" by blast
  then show ?case by (subst randomVector_step) auto
qed

text \<open>C38: \<open>randomVector\<close> returns as soon as some later triple of
  \<open>rand()\<close> values lies in the closed unit ball, after at most that many calls,
  and what it returns is a point of the ball.\<close>

theorem randomVector_returns:
  assumes "in_ball (map (\<lambda>j. rand_unit rand_max (rand (r + 3 * k + j))) [0, 1, 2] :: 'f::linordered_field list)"
  shows "\<exists>v r'. randomVector rand rand_max r = Some (v :: 'f list, r') \<and> in_ball v \<and> length v = 3 \<and>
           r' \<le> r + 3 * k + 3"
  using randomVector_live [OF assms] randomVector_sound by blast

theorem randomVector_returns_witness:
  "in_ball (map (\<lambda>j. rand_unit 2 ((\<lambda>_. 1) (0 + 3 * 0 + j))) [0 :: nat, 1, 2] :: rat list) \<and>
   (\<exists>v r'. randomVector (\<lambda>_. 1) 2 0 = Some (v :: rat list, r') \<and> in_ball v \<and> r' \<le> 3)"
proof -
  have "randomVector (\<lambda>_. 1) 2 0 = Some ([0, 0, 0] :: rat list, 3)"
    by (subst randomVector_step) (simp add: in_ball_def rand_unit_def)
  then show ?thesis
    using randomVector_returns [of 2 "\<lambda>_. 1" 0 0] by (simp add: in_ball_def rand_unit_def)
qed

lemma for_loop_opt_inv:
  assumes step: "\<And>i s s'. i < N \<Longrightarrow> P i s \<Longrightarrow> body i s = Some s' \<Longrightarrow> P (Suc i) s'"
  shows "P i s \<Longrightarrow> i \<le> N \<Longrightarrow> for_loop_opt i N body s = Some s' \<Longrightarrow> P N s'"
proof (induction "N - i" arbitrary: i s)
  case 0
  then show ?case by (simp add: for_loop_opt.simps)
next
  case (Suc d)
  then have i: "i < N" by simp
  with Suc.prems(3) obtain t where t: "body i s = Some t" and rest: "for_loop_opt (Suc i) N body t = Some s'"
    by (auto simp: for_loop_opt.simps split: option.splits)
  have "P (Suc i) t" by (rule step [OF i Suc.prems(1) t])
  then show ?case using Suc.hyps(1) [of "Suc i" t] Suc.hyps(2) i rest by simp
qed

lemma in_ball_nth3: "length p = 3 \<Longrightarrow> in_ball (map (\<lambda>c. (p @ [x]) ! c) [0, 1, 2]) = in_ball p"
  by (simp add: in_ball_def nth_append)

lemma body_write_nth:
  assumes "length p = 3" "4 * i + 4 \<le> length xs" "c < 4" "j \<le> i"
  shows "(write_list xs (4 * i) p)[4 * i + 3 := 1] ! (4 * j + c) =
           (if j < i then xs ! (4 * j + c) else (p @ [1]) ! c)"
proof (cases "j < i")
  case True
  then have "4 * j + c < 4 * i" using assms(3) by simp
  then show ?thesis using True by (simp add: nth_write_list_outside)
next
  case False
  then have j: "j = i" using assms(4) by simp
  show ?thesis
  proof (cases "c = 3")
    case True
    then show ?thesis using j assms(1,2) by (simp add: nth_append)
  next
    case False
    then have "c < 3" using assms(3) by simp
    then show ?thesis using j assms(1,2) nth_write_list_inside [of "4 * i" p xs c]
      by (simp add: nth_append)
  qed
qed

lemma unit_bodies_write:
  assumes "i < N" "unit_bodies N i xs" "in_ball p" "length p = 3"
  shows "unit_bodies N (Suc i) ((write_list xs (4 * i) p)[4 * i + 3 := 1])"
proof -
  have len: "4 * i + 4 \<le> length xs" using assms(1,2) by (simp add: unit_bodies_def)
  have nth: "\<And>j c. j \<le> i \<Longrightarrow> c < 4 \<Longrightarrow> (write_list xs (4 * i) p)[4 * i + 3 := 1] ! (4 * j + c) =
               (if j < i then xs ! (4 * j + c) else (p @ [1]) ! c)"
    using body_write_nth [OF assms(4) len] by blast
  show ?thesis unfolding unit_bodies_def
  proof (intro conjI allI impI)
    show "length ((write_list xs (4 * i) p)[4 * i + 3 := 1]) = 4 * N" using assms(2) by (simp add: unit_bodies_def)
  next
    fix j assume "j < Suc i"
    then have j: "j \<le> i" by simp
    have m: "map (\<lambda>c. (write_list xs (4 * i) p)[4 * i + 3 := 1] ! (4 * j + c)) [0, 1, 2] =
               map (\<lambda>c. if j < i then xs ! (4 * j + c) else (p @ [1]) ! c) [0, 1, 2]"
      by (rule map_cong [OF refl], rule nth [OF j]) auto
    show "in_ball (map (\<lambda>c. (write_list xs (4 * i) p)[4 * i + 3 := 1] ! (4 * j + c)) [0, 1, 2])"
      unfolding m using assms(2,3) in_ball_nth3 [OF assms(4), of 1]
      by (cases "j < i") (simp_all add: unit_bodies_def del: list.map)
    show "(write_list xs (4 * i) p)[4 * i + 3 := 1] ! (4 * j + 3) = 1"
      using nth [OF j, of 3] assms(2,4) j by (cases "j < i") (simp_all add: unit_bodies_def nth_append)
  qed
qed

lemma unit_body_inv:
  assumes "i < N" "unit_bodies N i pos" "unit_bodies N i vel"
    "unit_body rand rand_max i (pos, vel, r) = Some (pos', vel', r')"
  shows "unit_bodies N (Suc i) pos' \<and> unit_bodies N (Suc i) vel'"
  using assms(4) unit_bodies_write [OF assms(1,2)] unit_bodies_write [OF assms(1,3)]
  by (auto simp: unit_body_def split: option.splits dest!: randomVector_sound)

lemma randomUnitBodies_inv:
  assumes "randomUnitBodies rand rand_max N (pos, vel, r) = Some (pos', vel', r')"
    "length pos = 4 * N" "length vel = 4 * N"
  shows "unit_bodies N N pos' \<and> unit_bodies N N vel'"
proof -
  let ?P = "\<lambda>i (s :: 'a list \<times> 'a list \<times> nat). unit_bodies N i (fst s) \<and> unit_bodies N i (fst (snd s))"
  have "?P N (pos', vel', r')"
  proof (rule for_loop_opt_inv [where P = ?P])
    show "?P 0 (pos, vel, r)" using assms(2,3) by (simp add: unit_bodies_def)
    show "for_loop_opt 0 N (unit_body rand rand_max) (pos, vel, r) = Some (pos', vel', r')"
      using assms(1) by (simp add: randomUnitBodies_def)
  next
    fix i s s' assume "i < N" "?P i s" "unit_body rand rand_max i s = Some s'"
    then show "?P (Suc i) s'" using unit_body_inv [of i N "fst s" "fst (snd s)"]
      by (cases s, cases s') auto
  qed simp
  then show ?thesis by simp
qed

section \<open>The initialised bodies and masses\<close>

lemma init_mass_prefix:
  assumes "length (hostSOA_Mass h) = N" "length (hostSOA_InvMass h) = N" "M \<le> N"
  shows "for_loop 0 M init_mass_body h =
           h\<lparr>hostSOA_Mass := map (\<lambda>j. if j < M then hostAOS_PosMass h ! (4 * j + 3) else hostSOA_Mass h ! j) [0..<N],
             hostSOA_InvMass := map (\<lambda>j. if j < M then 1 / hostAOS_PosMass h ! (4 * j + 3) else hostSOA_InvMass h ! j) [0..<N]\<rparr>"
  using assms(3)
proof (induction M)
  case 0
  have "hostSOA_Mass h = map (\<lambda>j. hostSOA_Mass h ! j) [0..<N]"
    "hostSOA_InvMass h = map (\<lambda>j. hostSOA_InvMass h ! j) [0..<N]"
    using assms(1,2) by (simp_all add: list_eq_iff_nth_eq)
  then show ?case by simp
next
  case (Suc M)
  then have M: "M < N" by simp
  show ?case
    unfolding for_loop_0_Suc Suc.IH [OF Suc_leD [OF Suc.prems]]
    using M by (simp add: init_mass_body_def Let_def map_prefix_update del: upt_Suc)
qed

lemma nbody_init_shape:
  assumes "nbody_init cuda ok garbage rand rand_max N r = Some (Inr (h, r'))"
  shows "\<exists>p hp pos vel. nbody_alloc cuda ok garbage N = Some (p, hp) \<and>
           unit_bodies N N pos \<and> unit_bodies N N vel \<and> host_wf N (host_of hp p) \<and>
           h = (host_of hp p)\<lparr>hostAOS_PosMass := pos, hostAOS_VelInvMass := vel, hostSOA_Mass := replicate N 1,
                 hostSOA_InvMass := replicate N 1\<rparr>"
proof -
  obtain p hp where alloc: "nbody_alloc cuda ok garbage N = Some (p, hp)"
    using assms by (cases "nbody_alloc cuda ok garbage N") (auto simp: nbody_init_def)
  define h0 where "h0 = host_of hp p"
  obtain pos vel where rub: "randomUnitBodies rand rand_max N (hostAOS_PosMass h0, hostAOS_VelInvMass h0, r) = Some (pos, vel, r')"
    and h: "h = for_loop 0 N init_mass_body (h0\<lparr>hostAOS_PosMass := pos, hostAOS_VelInvMass := vel\<rparr>)"
    using assms alloc by (auto simp: nbody_init_def h0_def Let_def split: option.splits)
  have wf0: "host_wf N h0" using nbody_alloc_host_wf [OF alloc] by (simp add: h0_def)
  have ub: "unit_bodies N N pos \<and> unit_bodies N N vel"
    using randomUnitBodies_inv [OF rub] wf0 by (simp add: host_wf_def)
  have ones: "map (\<lambda>j. if j < N then pos ! (4 * j + 3) else hostSOA_Mass h0 ! j) [0..<N] = replicate N 1"
    "map (\<lambda>j. if j < N then 1 / pos ! (4 * j + 3) else hostSOA_InvMass h0 ! j) [0..<N] = replicate N 1"
    using ub by (auto simp: unit_bodies_def list_eq_iff_nth_eq)
  define h1 where "h1 = h0\<lparr>hostAOS_PosMass := pos, hostAOS_VelInvMass := vel\<rparr>"
  have sel: "hostAOS_PosMass h1 = pos" "hostSOA_Mass h1 = hostSOA_Mass h0" "hostSOA_InvMass h1 = hostSOA_InvMass h0"
    by (simp_all add: h1_def)
  have "for_loop 0 N init_mass_body h1 = h1\<lparr>hostSOA_Mass := replicate N 1, hostSOA_InvMass := replicate N 1\<rparr>"
    using init_mass_prefix [of h1 N N] wf0 unfolding sel ones by (simp add: host_wf_def)
  then have "h = h0\<lparr>hostAOS_PosMass := pos, hostAOS_VelInvMass := vel, hostSOA_Mass := replicate N 1,
              hostSOA_InvMass := replicate N 1\<rparr>"
    by (simp add: h h1_def)
  then show ?thesis using alloc ub wf0 unfolding h0_def by blast
qed


lemma nbody_init_host_wf:
  "nbody_init cuda ok garbage rand rand_max N r = Some (Inr (h, r')) \<Longrightarrow> host_wf N h"
  by (drule nbody_init_shape) (auto simp: host_wf_def unit_bodies_def)

text \<open>The initialisation returns when the allocation succeeds and every
  triple of \<open>rand()\<close> values lies in the unit ball: each \<open>randomVector\<close> then
  accepts its first draw.\<close>

lemma randomVector_accept:
  "in_ball (map (\<lambda>j. rand_unit rand_max (rand (r + j))) [0, 1, 2] :: 'f::linordered_field list) \<Longrightarrow>
   randomVector rand rand_max r = Some (map (\<lambda>j. rand_unit rand_max (rand (r + j))) [0, 1, 2] :: 'f list, r + 3)"
  by (subst randomVector_step) simp

lemma for_loop_opt_Some:
  "(\<And>i s. i < N \<Longrightarrow> \<exists>s'. body i s = Some s') \<Longrightarrow> \<exists>s'. for_loop_opt i N body s = Some s'"
proof (induction "N - i" arbitrary: i s)
  case 0
  then show ?case by (simp add: for_loop_opt.simps)
next
  case (Suc d)
  then have i: "i < N" by simp
  obtain t where t: "body i s = Some t" using Suc.prems i by blast
  have d: "d = N - Suc i" using Suc.hyps(2) by simp
  obtain s' where "for_loop_opt (Suc i) N body t = Some s'"
    using Suc.hyps(1) [OF d Suc.prems] by blast
  then show ?case using i t by (simp add: for_loop_opt.simps)
qed

lemma nbody_init_returns:
  assumes alloc: "nbody_alloc cuda ok garbage N \<noteq> None"
    and ball: "\<And>j. in_ball (map (\<lambda>i. rand_unit rand_max (rand (j + i))) [0, 1, 2] :: 'f::linordered_field list)"
  shows "\<exists>h r'. nbody_init cuda ok garbage rand rand_max N r = Some (Inr (h :: 'f nbody_host, r'))"
proof -
  have "\<And>i s. \<exists>s'. unit_body rand rand_max i (s :: 'f list \<times> 'f list \<times> nat) = Some s'"
    using ball by (auto simp: unit_body_def randomVector_accept split: prod.splits)
  then have "\<And>s. \<exists>s'. randomUnitBodies rand rand_max N (s :: 'f list \<times> 'f list \<times> nat) = Some s'"
    unfolding randomUnitBodies_def by (rule for_loop_opt_Some)
  then show ?thesis using alloc
    by (force simp: nbody_init_def Let_def split: option.splits prod.splits)
qed

lemma alloc_cuda_succeeds: "alloc_cuda (\<lambda>_. True) garbage N \<noteq> None"
  by (simp add: alloc_cuda_def cuda_alloc_def new_float_Nil new_float_blocks numeral_3_eq_3)

text \<open>C39: when the initialisation of \<open>main\<close> completes, the buffers have
  the shape the simulation needs, every body has position and velocity in the
  unit ball and unit mass in both layouts, and the SOA masses and inverse
  masses are all 1.\<close>

theorem nbody_init_bodies:
  assumes "nbody_init cuda ok garbage rand rand_max N r = Some (Inr (h, r'))"
  shows "host_wf N h \<and> hostSOA_Mass h = replicate N 1 \<and> hostSOA_InvMass h = replicate N 1 \<and>
         (\<forall>i<N. in_ball (map (\<lambda>c. hostAOS_PosMass h ! (4 * i + c)) [0, 1, 2]) \<and> hostAOS_PosMass h ! (4 * i + 3) = 1 \<and>
                in_ball (map (\<lambda>c. hostAOS_VelInvMass h ! (4 * i + c)) [0, 1, 2]) \<and> hostAOS_VelInvMass h ! (4 * i + 3) = 1)"
proof -
  obtain p hp pos vel where "unit_bodies N N pos" "unit_bodies N N vel" "host_wf N (host_of hp p)"
    and "h = (host_of hp p)\<lparr>hostAOS_PosMass := pos, hostAOS_VelInvMass := vel, hostSOA_Mass := replicate N 1,
                 hostSOA_InvMass := replicate N 1\<rparr>"
    using nbody_init_shape [OF assms] by blast
  then show ?thesis by (simp add: host_wf_def unit_bodies_def)
qed

theorem nbody_init_bodies_witness:
  "nbody_init False (\<lambda>_. True) (\<lambda>_ _. 0) (\<lambda>_. 1) 2 1 0 =
     Some (Inr (\<lparr>hostAOS_PosMass = [0, 0, 0, 1], hostAOS_VelInvMass = [0, 0, 0, 1],
                 hostAOS_Force = [0, 0, 0], hostAOS_Force_Golden = [0, 0, 0],
                 hostSOA_Pos = [[0], [0], [0]], hostSOA_Force = [[0], [0], [0]],
                 hostSOA_Mass = [1], hostSOA_InvMass = [1], dptrAOS_PosMass = [], dptrAOS_Force = []\<rparr> :: rat nbody_host, 6)) \<and>
   hostSOA_Mass (\<lparr>hostAOS_PosMass = [0, 0, 0, 1], hostAOS_VelInvMass = [0, 0, 0, 1],
                 hostAOS_Force = [0, 0, 0], hostAOS_Force_Golden = [0, 0, 0],
                 hostSOA_Pos = [[0], [0], [0]], hostSOA_Force = [[0], [0], [0]],
                 hostSOA_Mass = [1], hostSOA_InvMass = [1], dptrAOS_PosMass = [], dptrAOS_Force = []\<rparr> :: rat nbody_host) =
     replicate 1 1"
proof -
  have e: "nbody_init False (\<lambda>_. True) (\<lambda>_ _. 0) (\<lambda>_. 1) 2 1 0 =
     Some (Inr (\<lparr>hostAOS_PosMass = [0, 0, 0, 1], hostAOS_VelInvMass = [0, 0, 0, 1],
                 hostAOS_Force = [0, 0, 0], hostAOS_Force_Golden = [0, 0, 0],
                 hostSOA_Pos = [[0], [0], [0]], hostSOA_Force = [[0], [0], [0]],
                 hostSOA_Mass = [1], hostSOA_InvMass = [1], dptrAOS_PosMass = [], dptrAOS_Force = []\<rparr> :: rat nbody_host, 6))"
    by code_simp
  show ?thesis using nbody_init_bodies [OF e] e by simp
qed

section \<open>The unused relError\<close>

text \<open>C40: the unused overload \<open>relError(float, float)\<close> returns a negative
  error whenever the reference value is negative, the opposite of the
  overload \<open>relError(T, T)\<close> that the check of line 523 calls.\<close>

theorem relError_fabsf_negative:
  assumes "b < 0" "a \<noteq> (b :: 'f::linordered_field)"
  shows "relError_fabsf a b < 0 \<and> relError a b = - relError_fabsf a b"
proof -
  have pos: "0 < \<bar>a - b\<bar>" using assms(2) by simp
  have f: "relError_fabsf a b = \<bar>a - b\<bar> / b" using assms(2) by (simp add: relError_fabsf_def)
  have neg: "\<bar>a - b\<bar> / b < 0" using pos assms(1) by (simp add: divide_pos_neg)
  have "relError a b = \<bar>(a - b) / b\<bar>" using assms(2) by (simp add: relError_def Let_def abs_if)
  also have "\<dots> = - (\<bar>a - b\<bar> / b)" using assms(1) by (simp add: abs_divide)
  finally show ?thesis using f neg by simp
qed

theorem relError_fabsf_negative_witness:
  "relError_fabsf 1 (-2 :: rat) = - 3 / 2 \<and> relError 1 (-2 :: rat) = 3 / 2 \<and> relError_fabsf 1 (-2 :: rat) < 0"
  using relError_fabsf_negative [of "-2 :: rat" 1] by (simp add: relError_fabsf_def)

end
