(* ===== verification/Timing.thy ===== *)
theory Timing
  imports Prelude
begin

text \<open>
  The timing harness \<open>TimeSequentialKernelKernel\<close> (\<open>src/unnamed/part_000\<close>,
  lines 51--140): it creates two CUDA events, allocates two pinned host buffers
  and two device buffers, fills the input with \<open>rand()\<close>, and for every cycle
  count of the shmoo range uploads the input, launches \<open>AddKernel\<close>, downloads
  the output, checks \<open>hostOut[i] == hostIn[i] + *cycles*0xcc\<close> and stores the
  elapsed time through \<open>times\<close>.  Every failing \<open>CUDART_CHECK\<close> jumps to the
  label \<open>Error\<close>, which destroys the events and frees the non-null buffers.

  The state is explicit: pointers are \<open>option\<close>s (\<open>None\<close> the null pointer),
  event handles carry whether they were set, and the resources acquired and
  released are logged in order.  The outcome of every checked CUDA call, the
  values of \<open>rand()\<close>, the contents of fresh allocations, the effect of
  \<open>AddKernel\<close> (its header is not part of the sources) and the elapsed times are
  the environment.  A step ends in \<open>Next\<close> (fall through), \<open>Goto_Error\<close> (a
  failed check) or \<open>Return\<close> (the early \<open>return false\<close> of the check loop).
\<close>

section \<open>State, environment and control flow\<close>

datatype event = Ev_uninit | Ev_null | Ev_handle nat

datatype resource = R_event nat | R_hostIn | R_hostOut | R_deviceIn | R_deviceOut

record 'f timing_state =
  calls :: nat
  events :: "event list"
  hostIn :: "int32 list option"
  hostOut :: "int32 list option"
  deviceIn :: "int32 list option"
  deviceOut :: "int32 list option"
  rand_calls :: nat
  times_written :: "'f list"
  allocated :: "resource list"
  released :: "resource list"
  destroyed :: "event list"

record 'f timing_env =
  cuda_success :: "nat \<Rightarrow> bool"
  rand_value :: "nat \<Rightarrow> nat"
  garbage :: "resource \<Rightarrow> nat \<Rightarrow> int32"
  add_kernel :: "nat \<Rightarrow> int \<Rightarrow> nat \<Rightarrow> int32 list \<Rightarrow> int32 list \<Rightarrow> int32 list"
  elapsed :: "nat \<Rightarrow> 'f"

datatype 's flow = Next 's | Goto_Error 's | Return bool 's

definition bindf :: "'s flow \<Rightarrow> ('s \<Rightarrow> 's flow) \<Rightarrow> 's flow" where
  "bindf m f = (case m of Next s \<Rightarrow> f s | Goto_Error s \<Rightarrow> Goto_Error s | Return b s \<Rightarrow> Return b s)"

fun run_steps :: "('s \<Rightarrow> 's flow) list \<Rightarrow> 's \<Rightarrow> 's flow" where
  "run_steps [] s = Next s"
| "run_steps (f # fs) s = bindf (f s) (run_steps fs)"

text \<open>\<open>CUDART_CHECK( call )\<close> (chError.h): the call is the next one of the
  environment's sequence; on failure control goes to \<open>Error\<close>.\<close>

definition CUDART_CHECK ::
  "'f timing_env \<Rightarrow> ('f timing_state \<Rightarrow> 'f timing_state) \<Rightarrow> 'f timing_state \<Rightarrow> 'f timing_state flow" where
  "CUDART_CHECK env call s =
     (let s' = s\<lparr>calls := Suc (calls s)\<rparr>
      in if cuda_success env (calls s) then Next (call s') else Goto_Error s')"

section \<open>The operations of TimeSequentialKernelKernel\<close>

definition numEvents :: nat where
  "numEvents = 2"

text \<open>A successful \<open>cudaEventCreate\<close>, \<open>cudaMallocHost\<close> or \<open>cudaMalloc\<close>: the
  pointer or handle is set and the resource is acquired.\<close>

definition alloc :: "'f timing_env \<Rightarrow> resource \<Rightarrow> nat \<Rightarrow> 'f timing_state \<Rightarrow> 'f timing_state" where
  "alloc env r N s =
     (let buf = Some (map (garbage env r) [0..<N]);
          s = s\<lparr>allocated := allocated s @ [r]\<rparr>
      in case r of
           R_event i \<Rightarrow> s\<lparr>events := (events s)[i := Ev_handle i]\<rparr>
         | R_hostIn \<Rightarrow> s\<lparr>hostIn := buf\<rparr> | R_hostOut \<Rightarrow> s\<lparr>hostOut := buf\<rparr>
         | R_deviceIn \<Rightarrow> s\<lparr>deviceIn := buf\<rparr> | R_deviceOut \<Rightarrow> s\<lparr>deviceOut := buf\<rparr>)"

text \<open>\<open>events[i] = NULL; CUDART_CHECK( cudaEventCreate( &events[i] ) );\<close>
  (lines 68--71).\<close>

definition create_event :: "'f timing_env \<Rightarrow> nat \<Rightarrow> 'f timing_state \<Rightarrow> 'f timing_state flow" where
  "create_event env i s = CUDART_CHECK env (alloc env (R_event i) 0) (s\<lparr>events := (events s)[i := Ev_null]\<rparr>)"

text \<open>\<open>hostIn[i] = rand();\<close> (lines 79--81).\<close>

definition fill_body :: "'f timing_env \<Rightarrow> nat \<Rightarrow> 'f timing_state \<Rightarrow> 'f timing_state" where
  "fill_body env i s =
     s\<lparr>hostIn := map_option (\<lambda>h. h[i := word_of_nat (rand_value env (rand_calls s))]) (hostIn s),
       rand_calls := Suc (rand_calls s)\<rparr>"

text \<open>\<open>cudaMemcpyAsync( dst, src, N*sizeof(int), ... )\<close>: the destination buffer
  receives the source buffer.\<close>

definition copy_buf :: "int32 list option \<Rightarrow> int32 list option \<Rightarrow> int32 list option" where
  "copy_buf src dst = (case (src, dst) of (Some x, Some _) \<Rightarrow> Some x | _ \<Rightarrow> dst)"

text \<open>The launch \<open>AddKernel<<<numBlocks, 256>>>( deviceOut, deviceIn, N, 0xcc,
  *cycles, 0, kernelData, unrollFactor )\<close> (lines 92--93); it is not checked.\<close>

definition launch_add :: "'f timing_env \<Rightarrow> nat \<Rightarrow> nat \<Rightarrow> int \<Rightarrow> 'f timing_state \<Rightarrow> 'f timing_state" where
  "launch_add env numBlocks unrollFactor c s =
     s\<lparr>deviceOut := (case (deviceIn s, deviceOut s) of
                      (Some din, Some dout) \<Rightarrow> Some (add_kernel env numBlocks c unrollFactor din dout)
                    | _ \<Rightarrow> deviceOut s)\<rparr>"

text \<open>The check loop (lines 100--106): it returns \<open>false\<close> at the first index where
  \<open>hostOut[i] != hostIn[i] + *cycles*0xcc\<close>, computed at \<open>int\<close> width
  (\<open>0xcc = 204\<close>).\<close>

definition verify :: "nat \<Rightarrow> int \<Rightarrow> 'f timing_state \<Rightarrow> bool" where
  "verify N c s =
     (case (hostIn s, hostOut s) of
        (Some hin, Some hout) \<Rightarrow> list_all (\<lambda>i. hout ! i = hin ! i + word_of_int c * 204) [0..<N]
      | _ \<Rightarrow> False)"

text \<open>One iteration of the shmoo loop (lines 85--111).\<close>

definition shmoo_iteration ::
  "'f timing_env \<Rightarrow> nat \<Rightarrow> nat \<Rightarrow> nat \<Rightarrow> int \<Rightarrow> 'f timing_state \<Rightarrow> 'f timing_state flow" where
  "shmoo_iteration env N unrollFactor numBlocks c =
     run_steps
       [CUDART_CHECK env id,
        CUDART_CHECK env (\<lambda>s. s\<lparr>deviceIn := copy_buf (hostIn s) (deviceIn s)\<rparr>),
        (\<lambda>s. Next (launch_add env numBlocks unrollFactor c s)),
        CUDART_CHECK env id,
        CUDART_CHECK env (\<lambda>s. s\<lparr>hostOut := copy_buf (deviceOut s) (hostOut s)\<rparr>),
        CUDART_CHECK env id,
        (\<lambda>s. if verify N c s then Next s else Return False s),
        CUDART_CHECK env (\<lambda>s. s\<lparr>times_written := times_written s @ [elapsed env (length (times_written s))]\<rparr>)]"

fun shmoo_loop ::
  "'f timing_env \<Rightarrow> nat \<Rightarrow> nat \<Rightarrow> nat \<Rightarrow> int list \<Rightarrow> 'f timing_state \<Rightarrow> 'f timing_state flow" where
  "shmoo_loop env N unrollFactor numBlocks [] s = Next s"
| "shmoo_loop env N unrollFactor numBlocks (c # cs) s =
     bindf (shmoo_iteration env N unrollFactor numBlocks c s) (shmoo_loop env N unrollFactor numBlocks cs)"

text \<open>The code after the label \<open>Error\<close> (lines 122--139): \<open>cudaEventDestroy\<close> on
  both events, whatever they hold, then \<open>cudaFree\<close> / \<open>cudaFreeHost\<close> on the
  non-null buffers.\<close>

definition destroy_event :: "event \<Rightarrow> 'f timing_state \<Rightarrow> 'f timing_state" where
  "destroy_event e s =
     s\<lparr>destroyed := destroyed s @ [e],
       released := released s @ (case e of Ev_handle i \<Rightarrow> [R_event i] | _ \<Rightarrow> [])\<rparr>"

definition free_if :: "resource \<Rightarrow> int32 list option \<Rightarrow> 'f timing_state \<Rightarrow> 'f timing_state" where
  "free_if r p s = (if p \<noteq> None then s\<lparr>released := released s @ [r]\<rparr> else s)"

definition cleanup :: "'f timing_state \<Rightarrow> 'f timing_state" where
  "cleanup s =
     (let s = fold destroy_event (events s) s;
          s = free_if R_deviceIn (deviceIn s) s;
          s = free_if R_deviceOut (deviceOut s) s;
          s = free_if R_hostOut (hostOut s) s
      in free_if R_hostIn (hostIn s) s)"

text \<open>The state on entry: \<open>r\<close> calls of \<open>rand()\<close> were made before, the event
  array is uninitialised and the buffer pointers are 0.\<close>

definition timing_state0 :: "nat \<Rightarrow> 'f timing_state" where
  "timing_state0 r =
     \<lparr>calls = 0, events = replicate numEvents Ev_uninit, hostIn = None, hostOut = None, deviceIn = None,
      deviceOut = None, rand_calls = r, times_written = [], allocated = [], released = [], destroyed = []\<rparr>"

text \<open>The four allocations (lines 72--75).\<close>

definition alloc_steps :: "'f timing_env \<Rightarrow> nat \<Rightarrow> ('f timing_state \<Rightarrow> 'f timing_state flow) list" where
  "alloc_steps env N =
     [CUDART_CHECK env (alloc env R_hostIn N),
      CUDART_CHECK env (alloc env R_hostOut N),
      CUDART_CHECK env (alloc env R_deviceIn N),
      CUDART_CHECK env (alloc env R_deviceOut N)]"

text \<open>The rest of the body up to the label \<open>Error\<close> (lines 76--118).  The
  shmoo range is the list of cycle counts the iterator \<open>chShmooIterator\<close>
  visits; the \<open>cudaGetSymbolAddress\<close>, \<open>cudaMemset\<close>, \<open>cudaDeviceSynchronize\<close>
  and final \<open>cudaMemcpy\<close> calls change nothing the model observes.\<close>

definition main_steps ::
  "'f timing_env \<Rightarrow> nat \<Rightarrow> int list \<Rightarrow> nat \<Rightarrow> nat \<Rightarrow> ('f timing_state \<Rightarrow> 'f timing_state flow) list" where
  "main_steps env N cyclesRange unrollFactor numBlocks =
     [CUDART_CHECK env id,
      CUDART_CHECK env id,
      (\<lambda>s. Next (for_loop 0 N (fill_body env) s)),
      CUDART_CHECK env id,
      shmoo_loop env N unrollFactor numBlocks cyclesRange,
      CUDART_CHECK env id]"

text \<open>The body up to the label \<open>Error\<close> (lines 58--120).\<close>

definition timing_body ::
  "'f timing_env \<Rightarrow> nat \<Rightarrow> int list \<Rightarrow> nat \<Rightarrow> nat \<Rightarrow> 'f timing_state \<Rightarrow> 'f timing_state flow" where
  "timing_body env N cyclesRange unrollFactor numBlocks =
     run_steps (map (create_event env) [0..<numEvents] @ alloc_steps env N @
                main_steps env N cyclesRange unrollFactor numBlocks)"

text \<open>\<open>ret = true\<close> falls through into \<open>Error\<close>; a failed check reaches it with
  \<open>ret = false\<close>; the early \<open>return false\<close> skips it.\<close>

definition TimeSequentialKernelKernel ::
  "'f timing_env \<Rightarrow> nat \<Rightarrow> nat \<Rightarrow> int list \<Rightarrow> nat \<Rightarrow> nat \<Rightarrow> bool \<times> 'f timing_state" where
  "TimeSequentialKernelKernel env r N cyclesRange unrollFactor numBlocks =
     (case timing_body env N cyclesRange unrollFactor numBlocks (timing_state0 r) of
        Next s \<Rightarrow> (True, cleanup s)
      | Goto_Error s \<Rightarrow> (False, cleanup s)
      | Return b s \<Rightarrow> (b, s))"

section \<open>Predicates of the proofs\<close>

text \<open>The resources acquired and not yet released.\<close>

definition live :: "'f timing_state \<Rightarrow> resource list" where
  "live s = filter (\<lambda>r. r \<notin> set (released s)) (allocated s)"

text \<open>\<open>AddKernel\<close> adds \<open>cycles * 0xcc\<close> to every element, as the check expects.\<close>

definition add_kernel_correct :: "'f timing_env \<Rightarrow> bool" where
  "add_kernel_correct env \<longleftrightarrow>
     (\<forall>nb c uf din dout. length dout = length din \<longrightarrow>
        add_kernel env nb c uf din dout = map (\<lambda>x. x + word_of_int c * 204) din)"

text \<open>A resource is held when its pointer or handle is set.\<close>

fun holds :: "'f timing_state \<Rightarrow> resource \<Rightarrow> bool" where
  "holds s (R_event i) = (i < length (events s) \<and> events s ! i = Ev_handle i)"
| "holds s R_hostIn = (hostIn s \<noteq> None)"
| "holds s R_hostOut = (hostOut s \<noteq> None)"
| "holds s R_deviceIn = (deviceIn s \<noteq> None)"
| "holds s R_deviceOut = (deviceOut s \<noteq> None)"

text \<open>A state the code after \<open>Error\<close> can clean up, with buffers of \<open>N\<close> ints.\<close>

definition cleanable :: "nat \<Rightarrow> 'f timing_state \<Rightarrow> bool" where
  "cleanable N s \<longleftrightarrow>
     released s = [] \<and> destroyed s = [] \<and> length (events s) = numEvents \<and> Ev_uninit \<notin> set (events s) \<and>
     (\<forall>r\<in>set (allocated s). holds s r) \<and>
     list_all (\<lambda>p. case p of None \<Rightarrow> True | Some b \<Rightarrow> length b = N)
       [hostIn s, hostOut s, deviceIn s, deviceOut s]"

definition all_alloc :: "'f timing_state \<Rightarrow> bool" where
  "all_alloc s \<longleftrightarrow> hostIn s \<noteq> None \<and> hostOut s \<noteq> None \<and> deviceIn s \<noteq> None \<and> deviceOut s \<noteq> None"

text \<open>A flow that does not take the early return: its state satisfies \<open>E\<close>
  when it goes to \<open>Error\<close> and \<open>Q\<close> when it falls through.\<close>

fun flow_ok :: "('s \<Rightarrow> bool) \<Rightarrow> ('s \<Rightarrow> bool) \<Rightarrow> 's flow \<Rightarrow> bool" where
  "flow_ok E Q (Next s) = Q s"
| "flow_ok E Q (Goto_Error s) = E s"
| "flow_ok E Q (Return b s) = False"

fun flow_state :: "'s flow \<Rightarrow> 's" where
  "flow_state (Next s) = s"
| "flow_state (Goto_Error s) = s"
| "flow_state (Return b s) = s"

text \<open>The stores through \<open>times\<close> so far are the first measurements, in order.\<close>

definition times_prefix :: "'f timing_env \<Rightarrow> 'f timing_state \<Rightarrow> bool" where
  "times_prefix env s \<longleftrightarrow> times_written s = map (elapsed env) [0..<length (times_written s)]"

section \<open>Lemmas: control flow, preservation and cleanup\<close>

lemma bindf_simps [simp]:
  "bindf (Next s) f = f s" "bindf (Goto_Error s) f = Goto_Error s" "bindf (Return b s) f = Return b s"
  by (simp_all add: bindf_def)

lemma run_steps_append: "run_steps (xs @ ys) s = bindf (run_steps xs s) (run_steps ys)"
  by (induction xs arbitrary: s) (auto simp: bindf_def split: flow.splits)

lemma flow_ok_bindf:
  "flow_ok E Q m \<Longrightarrow> (\<And>s. Q s \<Longrightarrow> flow_ok E R (f s)) \<Longrightarrow> flow_ok E R (bindf m f)"
  by (cases m) simp_all

lemma flow_ok_mono:
  "flow_ok E Q m \<Longrightarrow> (\<And>s. Q s \<Longrightarrow> R s) \<Longrightarrow> flow_ok E R m"
  by (cases m) simp_all

lemma run_steps_ok:
  "(\<And>f s. f \<in> set fs \<Longrightarrow> P s \<Longrightarrow> flow_ok E P (f s)) \<Longrightarrow> P s \<Longrightarrow> flow_ok E P (run_steps fs s)"
  by (induction fs arbitrary: s) (auto intro: flow_ok_bindf)

lemma CUDART_CHECK_ok:
  "E (s\<lparr>calls := Suc (calls s)\<rparr>) \<Longrightarrow> (cuda_success env (calls s) \<Longrightarrow> Q (call (s\<lparr>calls := Suc (calls s)\<rparr>))) \<Longrightarrow>
   flow_ok E Q (CUDART_CHECK env call s)"
  by (simp add: CUDART_CHECK_def Let_def)

lemma run_steps_state:
  "(\<And>f s. f \<in> set fs \<Longrightarrow> P s \<Longrightarrow> P (flow_state (f s))) \<Longrightarrow> P s \<Longrightarrow> P (flow_state (run_steps fs s))"
proof (induction fs arbitrary: s)
  case (Cons f fs)
  have f: "P (flow_state (f s))" using Cons.prems by simp
  have r: "P (flow_state (run_steps fs t))" if "P t" for t
    using Cons.IH [OF _ that] Cons.prems(1) by simp
  show ?case using f r by (cases "f s") simp_all
qed simp

lemma fold_destroy_event:
  "released (fold destroy_event es s) =
     released s @ concat (map (\<lambda>e. case e of Ev_handle i \<Rightarrow> [R_event i] | _ \<Rightarrow> []) es) \<and>
   destroyed (fold destroy_event es s) = destroyed s @ es \<and>
   events (fold destroy_event es s) = events s \<and> allocated (fold destroy_event es s) = allocated s \<and>
   hostIn (fold destroy_event es s) = hostIn s \<and> hostOut (fold destroy_event es s) = hostOut s \<and>
   deviceIn (fold destroy_event es s) = deviceIn s \<and> deviceOut (fold destroy_event es s) = deviceOut s \<and>
   times_written (fold destroy_event es s) = times_written s \<and> calls (fold destroy_event es s) = calls s"
  by (induction es arbitrary: s) (simp_all add: destroy_event_def)

lemma free_if_fields [simp]:
  "released (free_if r p s) = released s @ (if p \<noteq> None then [r] else [])"
  "destroyed (free_if r p s) = destroyed s" "allocated (free_if r p s) = allocated s"
  "events (free_if r p s) = events s" "times_written (free_if r p s) = times_written s" "calls (free_if r p s) = calls s"
  "hostIn (free_if r p s) = hostIn s" "hostOut (free_if r p s) = hostOut s"
  "deviceIn (free_if r p s) = deviceIn s" "deviceOut (free_if r p s) = deviceOut s"
  by (simp_all add: free_if_def)

lemma cleanup_fields:
  "destroyed (cleanup s) = destroyed s @ events s" "allocated (cleanup s) = allocated s"
  "times_written (cleanup s) = times_written s" "hostIn (cleanup s) = hostIn s" "calls (cleanup s) = calls s"
  by (simp_all add: cleanup_def Let_def fold_destroy_event)

lemma cleanup_releases:
  assumes "cleanable N s"
  shows "live (cleanup s) = [] \<and> destroyed (cleanup s) = events s"
proof -
  have h: "\<forall>r\<in>set (allocated s). holds s r" "released s = []" "destroyed s = []"
    using assms by (simp_all add: cleanable_def)
  have "r \<in> set (released (cleanup s))" if r: "r \<in> set (allocated s)" for r
  proof (cases r)
    case (R_event i)
    then have "i < length (events s)" "events s ! i = Ev_handle i" using h(1) r by auto
    then have "Ev_handle i \<in> set (events s)" by (metis nth_mem)
    then show ?thesis using R_event by (force simp: cleanup_def Let_def fold_destroy_event)
  qed (use h(1) r in \<open>auto simp: cleanup_def Let_def fold_destroy_event\<close>)
  then show ?thesis using h(3) by (auto simp: live_def cleanup_fields filter_empty_conv)
qed

lemma holds_upd [simp]:
  "holds (s\<lparr>calls := k\<rparr>) r = holds s r" "holds (s\<lparr>rand_calls := k\<rparr>) r = holds s r"
  "holds (s\<lparr>times_written := t\<rparr>) r = holds s r" "holds (s\<lparr>allocated := a\<rparr>) r = holds s r"
  "holds (s\<lparr>hostIn := p\<rparr>) r = (if r = R_hostIn then p \<noteq> None else holds s r)"
  "holds (s\<lparr>hostOut := p\<rparr>) r = (if r = R_hostOut then p \<noteq> None else holds s r)"
  "holds (s\<lparr>deviceIn := p\<rparr>) r = (if r = R_deviceIn then p \<noteq> None else holds s r)"
  "holds (s\<lparr>deviceOut := p\<rparr>) r = (if r = R_deviceOut then p \<noteq> None else holds s r)"
  by (cases r; simp)+

lemma cleanable_upd [simp]:
  "cleanable N (s\<lparr>calls := k\<rparr>) = cleanable N s" "cleanable N (s\<lparr>rand_calls := k\<rparr>) = cleanable N s"
  "cleanable N (s\<lparr>times_written := t\<rparr>) = cleanable N s"
  by (simp_all add: cleanable_def)

lemma all_alloc_upd [simp]:
  "all_alloc (s\<lparr>calls := k\<rparr>) = all_alloc s" "all_alloc (s\<lparr>rand_calls := k\<rparr>) = all_alloc s"
  "all_alloc (s\<lparr>times_written := t\<rparr>) = all_alloc s"
  by (simp_all add: all_alloc_def)

lemma length_map_option_update:
  "(case map_option (\<lambda>h. h[i := v]) p of None \<Rightarrow> True | Some b \<Rightarrow> length b = N) =
   (case p of None \<Rightarrow> True | Some b \<Rightarrow> length b = N)"
  by (cases p) simp_all

lemma fill_preserves:
  "cleanable N s \<and> all_alloc s \<Longrightarrow> cleanable N (fill_body env i s) \<and> all_alloc (fill_body env i s)"
  by (auto simp: fill_body_def cleanable_def all_alloc_def length_map_option_update)

lemma for_loop_fill_preserves:
  "cleanable N s \<and> all_alloc s \<Longrightarrow> cleanable N (for_loop 0 k (fill_body env) s) \<and> all_alloc (for_loop 0 k (fill_body env) s)"
  by (induction k) (simp, metis for_loop_0_Suc fill_preserves)

lemma alloc_buffers_ok:
  assumes "cleanable N s"
  shows "flow_ok (cleanable N) (\<lambda>s. cleanable N s \<and> all_alloc s)
           (run_steps (alloc_steps env N) s)"
  using assms
  by (auto simp: alloc_steps_def CUDART_CHECK_def Let_def alloc_def cleanable_def all_alloc_def)

lemma buffers_of:
  assumes "cleanable N s" "all_alloc s"
  obtains hin hout din dout where "hostIn s = Some hin" "hostOut s = Some hout" "deviceIn s = Some din"
    "deviceOut s = Some dout" "length hin = N" "length hout = N" "length din = N" "length dout = N"
  using assms by (auto simp: cleanable_def all_alloc_def)

lemma shmoo_iteration_ok:
  assumes k: "add_kernel_correct env" and s: "cleanable N s" "all_alloc s"
  shows "flow_ok (cleanable N) (\<lambda>s. cleanable N s \<and> all_alloc s) (shmoo_iteration env N uf nb c s)"
proof -
  obtain hin hout din dout where b: "hostIn s = Some hin" "hostOut s = Some hout" "deviceIn s = Some din"
    "deviceOut s = Some dout" "length hin = N" "length hout = N" "length din = N" "length dout = N"
    using buffers_of [OF s] .
  have a: "add_kernel env nb c uf hin dout = map (\<lambda>x. x + word_of_int c * 204) hin"
    using k b by (simp add: add_kernel_correct_def)
  show ?thesis
    using s b a
    by (simp add: shmoo_iteration_def CUDART_CHECK_def Let_def copy_buf_def launch_add_def verify_def
        list_all_iff cleanable_def all_alloc_def)
qed

lemma shmoo_loop_ok:
  "add_kernel_correct env \<Longrightarrow> cleanable N s \<and> all_alloc s \<Longrightarrow>
   flow_ok (cleanable N) (\<lambda>s. cleanable N s \<and> all_alloc s) (shmoo_loop env N uf nb cs s)"
proof (induction cs arbitrary: s)
  case (Cons c cs)
  show ?case
    using Cons.prems(2) unfolding shmoo_loop.simps
    by (intro flow_ok_bindf [OF shmoo_iteration_ok [OF Cons.prems(1)]] Cons.IH [OF Cons.prems(1)]) simp_all
qed simp

lemma create_events_ok:
  assumes "cuda_success env 0"
  shows "flow_ok (cleanable N) (cleanable N) (run_steps (map (create_event env) [0..<numEvents]) (timing_state0 r))"
  using assms
  by (simp add: numEvents_def upt_rec create_event_def CUDART_CHECK_def Let_def alloc_def timing_state0_def
      cleanable_def numeral_2_eq_2)

lemma main_steps_ok:
  assumes "add_kernel_correct env" "cleanable N s \<and> all_alloc s"
  shows "flow_ok (cleanable N) (\<lambda>s. cleanable N s \<and> all_alloc s) (run_steps (main_steps env N cs uf nb) s)"
proof (rule run_steps_ok [where P = "\<lambda>s. cleanable N s \<and> all_alloc s", OF _ assms(2)])
  fix f and t :: "'a timing_state"
  assume f: "f \<in> set (main_steps env N cs uf nb)" and t: "cleanable N t \<and> all_alloc t"
  show "flow_ok (cleanable N) (\<lambda>s. cleanable N s \<and> all_alloc s) (f t)"
    using f t shmoo_loop_ok [OF assms(1) t] for_loop_fill_preserves [OF t]
    by (auto simp: main_steps_def intro!: CUDART_CHECK_ok)
qed

lemma timing_body_ok:
  assumes "add_kernel_correct env" "cuda_success env 0"
  shows "flow_ok (cleanable N) (cleanable N) (timing_body env N cs uf nb (timing_state0 r))"
  unfolding timing_body_def run_steps_append
  by (rule flow_ok_bindf [OF create_events_ok [OF assms(2)]], rule flow_ok_bindf [OF alloc_buffers_ok],
      assumption, rule flow_ok_mono [OF main_steps_ok [OF assms(1)]]) simp_all

text \<open>C30: when \<open>AddKernel\<close> computes what the check expects and the first
  \<open>cudaEventCreate\<close> succeeds, every path of \<open>TimeSequentialKernelKernel\<close>, the
  normal one and every failed \<open>CUDART_CHECK\<close>, releases every event and buffer it
  acquired, and destroys only events it created or set to \<open>NULL\<close>.\<close>

theorem TimeSequentialKernelKernel_releases:
  assumes "add_kernel_correct env" "cuda_success env 0"
  shows "live (snd (TimeSequentialKernelKernel env r N cs uf nb)) = [] \<and>
         Ev_uninit \<notin> set (destroyed (snd (TimeSequentialKernelKernel env r N cs uf nb)))"
proof -
  have ok: "flow_ok (cleanable N) (cleanable N) (timing_body env N cs uf nb (timing_state0 r))"
    using timing_body_ok [OF assms] .
  have u: "Ev_uninit \<notin> set (events s)" if "cleanable N s" for s :: "'a timing_state"
    using that by (simp add: cleanable_def)
  show ?thesis
    using ok cleanup_releases u unfolding TimeSequentialKernelKernel_def
    by (cases "timing_body env N cs uf nb (timing_state0 r)") auto
qed

theorem TimeSequentialKernelKernel_releases_witness:
  "live (snd (TimeSequentialKernelKernel
     \<lparr>cuda_success = (\<lambda>k. k \<noteq> 3), rand_value = (\<lambda>k. k), garbage = (\<lambda>_ _. 0),
      add_kernel = (\<lambda>nb c uf din dout. map (\<lambda>x. x + word_of_int c * 204) din), elapsed = (\<lambda>k. k :: nat)\<rparr>
     0 2 [1] 1 1)) = []"
  using TimeSequentialKernelKernel_releases [of "\<lparr>cuda_success = (\<lambda>k. k \<noteq> 3), rand_value = (\<lambda>k. k),
      garbage = (\<lambda>_ _. 0), add_kernel = (\<lambda>nb c uf din dout. map (\<lambda>x. x + word_of_int c * 204) din),
      elapsed = (\<lambda>k. k :: nat)\<rparr>" 0 2 "[1]" 1 1]
  by (simp add: add_kernel_correct_def)

lemma for_loop_fill:
  assumes "hostIn s = Some h" "k \<le> length h"
  shows "for_loop 0 k (fill_body env) s =
           s\<lparr>hostIn := Some (map (\<lambda>i. if i < k then word_of_nat (rand_value env (rand_calls s + i)) else h ! i)
                                [0..<length h]),
             rand_calls := rand_calls s + k\<rparr>"
  using assms(2)
proof (induction k)
  case 0
  then show ?case using assms(1) by (simp add: map_nth)
next
  case (Suc k)
  then have "k < length h" by simp
  then show ?case
    using Suc by (simp add: fill_body_def map_prefix_update)
qed

lemma shmoo_iteration_success:
  assumes ok: "\<forall>k. cuda_success env k" and k: "add_kernel_correct env" and s: "cleanable N s" "all_alloc s"
  shows "\<exists>s'. shmoo_iteration env N uf nb c s = Next s' \<and> cleanable N s' \<and> all_alloc s' \<and>
           hostIn s' = hostIn s \<and> allocated s' = allocated s \<and> events s' = events s \<and>
           rand_calls s' = rand_calls s \<and> calls s' = calls s + 6 \<and>
           times_written s' = times_written s @ [elapsed env (length (times_written s))]"
proof -
  obtain hin hout din dout where b: "hostIn s = Some hin" "hostOut s = Some hout" "deviceIn s = Some din"
    "deviceOut s = Some dout" "length hin = N" "length hout = N" "length din = N" "length dout = N"
    using buffers_of [OF s] .
  have a: "add_kernel env nb c uf hin dout = map (\<lambda>x. x + word_of_int c * 204) hin"
    using k b by (simp add: add_kernel_correct_def)
  show ?thesis
    using ok s b a
    by (simp add: shmoo_iteration_def CUDART_CHECK_def Let_def copy_buf_def launch_add_def verify_def
        list_all_iff cleanable_def all_alloc_def)
qed

lemma shmoo_loop_success:
  assumes ok: "\<forall>k. cuda_success env k" and k: "add_kernel_correct env"
  shows "cleanable N s \<Longrightarrow> all_alloc s \<Longrightarrow>
         \<exists>s'. shmoo_loop env N uf nb cs s = Next s' \<and> cleanable N s' \<and> all_alloc s' \<and>
           hostIn s' = hostIn s \<and> allocated s' = allocated s \<and> events s' = events s \<and>
           rand_calls s' = rand_calls s \<and> calls s' = calls s + 6 * length cs \<and>
           times_written s' = times_written s @ map (\<lambda>j. elapsed env (length (times_written s) + j)) [0..<length cs]"
proof (induction cs arbitrary: s)
  case (Cons c cs)
  obtain s1 where s1: "shmoo_iteration env N uf nb c s = Next s1" "cleanable N s1" "all_alloc s1"
    "hostIn s1 = hostIn s" "allocated s1 = allocated s" "events s1 = events s" "rand_calls s1 = rand_calls s"
    "calls s1 = calls s + 6" "times_written s1 = times_written s @ [elapsed env (length (times_written s))]"
    using shmoo_iteration_success [OF ok k Cons.prems] by blast
  obtain s2 where s2: "shmoo_loop env N uf nb cs s1 = Next s2" "cleanable N s2" "all_alloc s2"
    "hostIn s2 = hostIn s1" "allocated s2 = allocated s1" "events s2 = events s1" "rand_calls s2 = rand_calls s1"
    "calls s2 = calls s1 + 6 * length cs"
    "times_written s2 = times_written s1 @ map (\<lambda>j. elapsed env (length (times_written s1) + j)) [0..<length cs]"
    using Cons.IH [OF s1(2,3)] by blast
  have "map (\<lambda>j. elapsed env (length (times_written s) + j)) [0..<Suc (length cs)] =
        elapsed env (length (times_written s)) # map (\<lambda>j. elapsed env (Suc (length (times_written s)) + j)) [0..<length cs]"
    by (simp add: map_upt_Suc del: upt_Suc)
  then show ?case using s1 s2 by simp
qed simp

lemma create_events_success:
  assumes "cuda_success env 0" "cuda_success env 1"
  shows "run_steps (map (create_event env) [0..<numEvents]) (timing_state0 r) =
           Next ((timing_state0 r)\<lparr>calls := 2, events := [Ev_handle 0, Ev_handle 1],
                                    allocated := [R_event 0, R_event 1]\<rparr>)"
  using assms
  by (simp add: numEvents_def upt_rec create_event_def CUDART_CHECK_def Let_def alloc_def timing_state0_def
      numeral_2_eq_2)

lemma alloc_steps_success:
  assumes "cuda_success env (calls s)" "cuda_success env (Suc (calls s))" "cuda_success env (Suc (Suc (calls s)))"
    "cuda_success env (Suc (Suc (Suc (calls s))))"
  shows "run_steps (alloc_steps env N) s =
           Next (s\<lparr>calls := Suc (Suc (Suc (Suc (calls s)))),
                   hostIn := Some (map (garbage env R_hostIn) [0..<N]),
                   hostOut := Some (map (garbage env R_hostOut) [0..<N]),
                   deviceIn := Some (map (garbage env R_deviceIn) [0..<N]),
                   deviceOut := Some (map (garbage env R_deviceOut) [0..<N]),
                   allocated := allocated s @ [R_hostIn, R_hostOut, R_deviceIn, R_deviceOut]\<rparr>)"
  using assms by (simp add: alloc_steps_def CUDART_CHECK_def Let_def alloc_def)

lemma setup_success:
  assumes ok: "\<forall>k. cuda_success env k"
  shows "\<exists>s. run_steps (map (create_event env) [0..<numEvents] @ alloc_steps env N) (timing_state0 r) = Next s \<and>
           cleanable N s \<and> all_alloc s \<and> calls s = 6 \<and> rand_calls s = r \<and> times_written s = [] \<and>
           events s = [Ev_handle 0, Ev_handle 1] \<and>
           allocated s = [R_event 0, R_event 1, R_hostIn, R_hostOut, R_deviceIn, R_deviceOut] \<and>
           deviceOut s = Some (map (garbage env R_deviceOut) [0..<N])"
proof -
  let ?s = "(timing_state0 r)\<lparr>calls := 6, events := [Ev_handle 0, Ev_handle 1],
              hostIn := Some (map (garbage env R_hostIn) [0..<N]), hostOut := Some (map (garbage env R_hostOut) [0..<N]),
              deviceIn := Some (map (garbage env R_deviceIn) [0..<N]),
              deviceOut := Some (map (garbage env R_deviceOut) [0..<N]),
              allocated := [R_event 0, R_event 1, R_hostIn, R_hostOut, R_deviceIn, R_deviceOut]\<rparr>"
  have "run_steps (map (create_event env) [0..<numEvents] @ alloc_steps env N) (timing_state0 r) = Next ?s"
    using ok by (simp add: run_steps_append create_events_success alloc_steps_success)
  moreover have "cleanable N ?s"
    by (auto simp: cleanable_def timing_state0_def numEvents_def)
  ultimately show ?thesis by (simp add: all_alloc_def timing_state0_def)
qed

lemma main_steps_unfold:
  assumes "\<forall>k. cuda_success env k"
  shows "run_steps (main_steps env N cs uf nb) s =
           bindf (shmoo_loop env N uf nb cs
                    ((for_loop 0 N (fill_body env) (s\<lparr>calls := Suc (Suc (calls s))\<rparr>))\<lparr>calls := Suc (Suc (Suc (calls s)))\<rparr>))
                 (run_steps [CUDART_CHECK env id])"
proof -
  have c: "calls (for_loop 0 k (fill_body env) t) = calls t" for k t
    by (induction k) (simp_all add: fill_body_def)
  show ?thesis using assms by (simp add: main_steps_def CUDART_CHECK_def Let_def c)
qed

lemma fill_state:
  assumes "cleanable N s" "all_alloc s"
  shows "for_loop 0 N (fill_body env) s =
           s\<lparr>hostIn := Some (map (\<lambda>i. word_of_nat (rand_value env (rand_calls s + i))) [0..<N]),
             rand_calls := rand_calls s + N\<rparr>"
proof -
  obtain h where h: "hostIn s = Some h" "length h = N" using assms by (auto simp: cleanable_def all_alloc_def)
  show ?thesis using for_loop_fill [OF h(1), of N env] h(2) by simp
qed

lemma cleanable_fill_result:
  "cleanable N s \<Longrightarrow> all_alloc s \<Longrightarrow> length h = N \<Longrightarrow>
   cleanable N (s\<lparr>hostIn := Some h, rand_calls := k\<rparr>) \<and> all_alloc (s\<lparr>hostIn := Some h, rand_calls := k\<rparr>)"
  by (simp add: cleanable_def all_alloc_def)

text \<open>C31: when every CUDA call succeeds and \<open>AddKernel\<close> is correct, the
  function returns true, fills the input with the next \<open>N\<close> values of
  \<open>rand()\<close>, stores one elapsed time per cycle count of the range, in order,
  makes \<open>10 + 6 * |range|\<close> checked CUDA calls and releases everything it
  acquired.\<close>

theorem TimeSequentialKernelKernel_success:
  assumes ok: "\<forall>k. cuda_success env k" and k: "add_kernel_correct env"
  shows "\<exists>s. TimeSequentialKernelKernel env r N cs uf nb = (True, s) \<and>
           times_written s = map (elapsed env) [0..<length cs] \<and>
           hostIn s = Some (map (\<lambda>i. word_of_nat (rand_value env (r + i))) [0..<N]) \<and>
           calls s = 10 + 6 * length cs \<and> live s = [] \<and> destroyed s = [Ev_handle 0, Ev_handle 1]"
proof -
  obtain s1 where s1: "run_steps (map (create_event env) [0..<numEvents] @ alloc_steps env N) (timing_state0 r) = Next s1"
    "cleanable N s1" "all_alloc s1" "calls s1 = 6" "rand_calls s1 = r" "times_written s1 = []"
    "events s1 = [Ev_handle 0, Ev_handle 1]"
    using setup_success [OF ok] by blast
  let ?h = "map (\<lambda>i. word_of_nat (rand_value env (r + i))) [0..<N]"
  let ?t = "s1\<lparr>hostIn := Some ?h, rand_calls := r + N, calls := 9\<rparr>"
  have fl: "(for_loop 0 N (fill_body env) (s1\<lparr>calls := Suc (Suc (calls s1))\<rparr>))\<lparr>calls := Suc (Suc (Suc (calls s1)))\<rparr> = ?t"
    using fill_state [of N "s1\<lparr>calls := Suc (Suc (calls s1))\<rparr>" env] s1(2-5) by simp
  have f: "cleanable N ?t" "all_alloc ?t" "hostIn ?t = Some ?h" "calls ?t = 9" "times_written ?t = []"
    "events ?t = events s1"
    using cleanable_fill_result [OF s1(2,3), of ?h "r + N"] s1(6) by simp_all
  obtain s2 where s2: "shmoo_loop env N uf nb cs ?t = Next s2" "cleanable N s2" "hostIn s2 = hostIn ?t"
    "events s2 = events ?t" "calls s2 = calls ?t + 6 * length cs"
    "times_written s2 = times_written ?t @ map (\<lambda>j. elapsed env (length (times_written ?t) + j)) [0..<length cs]"
    using shmoo_loop_success [OF ok k f(1,2)] by blast
  let ?s = "s2\<lparr>calls := Suc (calls s2)\<rparr>"
  have "timing_body env N cs uf nb (timing_state0 r) =
          bindf (run_steps (map (create_event env) [0..<numEvents] @ alloc_steps env N) (timing_state0 r))
                (run_steps (main_steps env N cs uf nb))"
    unfolding timing_body_def by (metis append_assoc run_steps_append)
  then have body: "timing_body env N cs uf nb (timing_state0 r) = Next ?s"
    using s1(1) s2(1) ok by (simp add: main_steps_unfold [OF ok] fl CUDART_CHECK_def)
  have c: "cleanable N ?s" using s2(2) by simp
  show ?thesis
    using cleanup_releases [OF c] s2 f s1(7)
    by (simp add: TimeSequentialKernelKernel_def body cleanup_fields)
qed

theorem TimeSequentialKernelKernel_success_witness:
  "\<exists>s. TimeSequentialKernelKernel
     \<lparr>cuda_success = (\<lambda>_. True), rand_value = (\<lambda>k. k), garbage = (\<lambda>_ _. 0),
      add_kernel = (\<lambda>nb c uf din dout. map (\<lambda>x. x + word_of_int c * 204) din), elapsed = (\<lambda>k. 10 + k :: nat)\<rparr>
     0 2 [1, 2] 1 1 = (True, s) \<and> times_written s = [10, 11] \<and> live s = []"
  using TimeSequentialKernelKernel_success [of "\<lparr>cuda_success = (\<lambda>_. True), rand_value = (\<lambda>k. k),
      garbage = (\<lambda>_ _. 0), add_kernel = (\<lambda>nb c uf din dout. map (\<lambda>x. x + word_of_int c * 204) din),
      elapsed = (\<lambda>k. 10 + k :: nat)\<rparr>" 0 2 "[1, 2]" 1 1]
  by (auto simp: add_kernel_correct_def upt_rec)

text \<open>C32: if the first \<open>cudaEventCreate\<close> fails, the code after \<open>Error\<close> calls
  \<open>cudaEventDestroy\<close> on \<open>events[1]\<close>, which was never initialised: the loop sets
  \<open>events[i] = NULL\<close> only just before creating event \<open>i\<close>.\<close>

theorem TimeSequentialKernelKernel_first_event_fails:
  assumes "\<not> cuda_success env 0"
  shows "\<exists>s. TimeSequentialKernelKernel env r N cs uf nb = (False, s) \<and> destroyed s = [Ev_null, Ev_uninit] \<and>
           allocated s = [] \<and> calls s = 1"
  using assms
  by (simp add: TimeSequentialKernelKernel_def timing_body_def numEvents_def upt_rec create_event_def
      CUDART_CHECK_def Let_def timing_state0_def cleanup_def destroy_event_def free_if_def numeral_2_eq_2)

theorem TimeSequentialKernelKernel_first_event_fails_witness:
  "\<exists>s. TimeSequentialKernelKernel
     \<lparr>cuda_success = (\<lambda>k. k \<noteq> 0), rand_value = (\<lambda>k. k), garbage = (\<lambda>_ _. 0),
      add_kernel = (\<lambda>nb c uf din dout. din), elapsed = (\<lambda>k. k :: nat)\<rparr>
     0 2 [1] 1 1 = (False, s) \<and> destroyed s = [Ev_null, Ev_uninit]"
  using TimeSequentialKernelKernel_first_event_fails [of "\<lparr>cuda_success = (\<lambda>k. k \<noteq> 0), rand_value = (\<lambda>k. k),
      garbage = (\<lambda>_ _. 0), add_kernel = (\<lambda>nb c uf din dout. din), elapsed = (\<lambda>k. k :: nat)\<rparr>" 0 2 "[1]" 1 1]
  by auto

lemma flow_state_bindf:
  "flow_state (bindf m f) = (case m of Next s \<Rightarrow> flow_state (f s) | _ \<Rightarrow> flow_state m)"
  by (cases m) simp_all

lemma bindf_assoc: "bindf (bindf m f) g = bindf m (\<lambda>s. bindf (f s) g)"
  by (cases m) simp_all

lemma run_steps_fun:
  "run_steps (xs @ ys) = (\<lambda>s. bindf (run_steps xs s) (run_steps ys))"
  "run_steps (f # fs) = (\<lambda>s. bindf (f s) (run_steps fs))"
  by (simp_all add: fun_eq_iff run_steps_append)

lemma snd_TimeSequentialKernelKernel:
  "times_written (snd (TimeSequentialKernelKernel env r N cs uf nb)) =
   times_written (flow_state (timing_body env N cs uf nb (timing_state0 r)))"
  by (cases "timing_body env N cs uf nb (timing_state0 r)")
     (simp_all add: TimeSequentialKernelKernel_def cleanup_fields)

lemma shmoo_iteration_times:
  "times_prefix env s \<Longrightarrow>
   times_prefix env (flow_state (shmoo_iteration env N uf nb c s)) \<and>
   length (times_written (flow_state (shmoo_iteration env N uf nb c s))) \<le> Suc (length (times_written s))"
  by (simp add: shmoo_iteration_def CUDART_CHECK_def Let_def launch_add_def times_prefix_def)

lemma shmoo_loop_times:
  "times_prefix env s \<Longrightarrow> length (times_written s) + length cs \<le> B \<Longrightarrow>
   times_prefix env (flow_state (shmoo_loop env N uf nb cs s)) \<and>
   length (times_written (flow_state (shmoo_loop env N uf nb cs s))) \<le> B"
proof (induction cs arbitrary: s)
  case (Cons c cs)
  have i: "times_prefix env (flow_state (shmoo_iteration env N uf nb c s))"
    "length (times_written (flow_state (shmoo_iteration env N uf nb c s))) \<le> Suc (length (times_written s))"
    using shmoo_iteration_times [OF Cons.prems(1)] by simp_all
  show ?case
  proof (cases "shmoo_iteration env N uf nb c s")
    case (Next t)
    then show ?thesis using i Cons.IH [of t] Cons.prems(2) by simp
  qed (use i Cons.prems(2) in simp_all)
qed simp

lemma main_steps_split:
  "main_steps env N cs uf nb =
     [CUDART_CHECK env id, CUDART_CHECK env id, (\<lambda>s. Next (for_loop 0 N (fill_body env) s)), CUDART_CHECK env id] @
     [shmoo_loop env N uf nb cs, CUDART_CHECK env id]"
  by (simp add: main_steps_def)

lemma for_loop_fill_times: "times_written (for_loop 0 k (fill_body env) s) = times_written s"
  by (induction k) (simp_all add: fill_body_def)

text \<open>whatever the CUDA calls and the kernel do, the function stores at most
  one elapsed time per cycle count of the shmoo range through \<open>times\<close>, the
  \<open>k\<close>-th store being the \<open>k\<close>-th measurement: a \<open>times\<close> array as long as the range
  is never overrun.\<close>

lemma TimeSequentialKernelKernel_times_bound:
  "length (times_written (snd (TimeSequentialKernelKernel env r N cs uf nb))) \<le> length cs \<and>
   times_written (snd (TimeSequentialKernelKernel env r N cs uf nb)) =
     map (elapsed env) [0..<length (times_written (snd (TimeSequentialKernelKernel env r N cs uf nb)))]"
proof -
  let ?pre = "map (create_event env) [0..<numEvents] @ alloc_steps env N @
              [CUDART_CHECK env id, CUDART_CHECK env id, (\<lambda>s. Next (for_loop 0 N (fill_body env) s)), CUDART_CHECK env id]"
  have body: "timing_body env N cs uf nb (timing_state0 r) =
                bindf (run_steps ?pre (timing_state0 r))
                      (\<lambda>s. bindf (shmoo_loop env N uf nb cs s) (run_steps [CUDART_CHECK env id]))"
    unfolding timing_body_def main_steps_split by (simp add: run_steps_fun bindf_assoc)
  have pre: "times_written (flow_state (run_steps ?pre (timing_state0 r))) = []"
    by (rule run_steps_state [where P = "\<lambda>s. times_written s = []"])
       (auto simp: timing_state0_def create_event_def alloc_steps_def CUDART_CHECK_def alloc_def Let_def
          for_loop_fill_times split: resource.split)
  have "times_prefix env (flow_state (timing_body env N cs uf nb (timing_state0 r))) \<and>
        length (times_written (flow_state (timing_body env N cs uf nb (timing_state0 r)))) \<le> length cs"
  proof (cases "run_steps ?pre (timing_state0 r)")
    case (Next s)
    then have s: "times_prefix env s" "length (times_written s) + length cs \<le> length cs"
      using pre by (simp_all add: times_prefix_def)
    show ?thesis
      using shmoo_loop_times [OF s, of N uf nb] Next
      by (cases "shmoo_loop env N uf nb cs s") (simp_all add: body CUDART_CHECK_def Let_def times_prefix_def)
  qed (use pre in \<open>simp_all add: body times_prefix_def\<close>)
  then show ?thesis by (simp add: snd_TimeSequentialKernelKernel times_prefix_def)
qed

text \<open>C33: if \<open>AddKernel\<close>'s output fails the check in the first iteration,
  the early \<open>return false\<close> skips the code after \<open>Error\<close>: both events and all
  four buffers stay allocated.\<close>

theorem TimeSequentialKernelKernel_mismatch_leaks:
  assumes ok: "\<forall>k. cuda_success env k"
    and bad: "\<exists>i<N. add_kernel env nb c uf (map (\<lambda>i. word_of_nat (rand_value env (r + i))) [0..<N])
                      (map (garbage env R_deviceOut) [0..<N]) ! i \<noteq>
                    word_of_nat (rand_value env (r + i)) + word_of_int c * 204"
  shows "\<exists>s. TimeSequentialKernelKernel env r N (c # cs) uf nb = (False, s) \<and>
           live s = [R_event 0, R_event 1, R_hostIn, R_hostOut, R_deviceIn, R_deviceOut] \<and> destroyed s = []"
proof -
  obtain s1 where s1: "run_steps (map (create_event env) [0..<numEvents] @ alloc_steps env N) (timing_state0 r) = Next s1"
    "cleanable N s1" "all_alloc s1" "calls s1 = 6" "rand_calls s1 = r" "times_written s1 = []"
    "allocated s1 = [R_event 0, R_event 1, R_hostIn, R_hostOut, R_deviceIn, R_deviceOut]"
    "deviceOut s1 = Some (map (garbage env R_deviceOut) [0..<N])"
    using setup_success [OF ok] by blast
  let ?h = "map (\<lambda>i. word_of_nat (rand_value env (r + i))) [0..<N]"
  let ?t = "s1\<lparr>hostIn := Some ?h, rand_calls := r + N, calls := 9\<rparr>"
  have fl: "(for_loop 0 N (fill_body env) (s1\<lparr>calls := Suc (Suc (calls s1))\<rparr>))\<lparr>calls := Suc (Suc (Suc (calls s1)))\<rparr> = ?t"
    using fill_state [of N "s1\<lparr>calls := Suc (Suc (calls s1))\<rparr>" env] s1(2-5) by simp
  obtain din hout where b: "deviceIn s1 = Some din" "hostOut s1 = Some hout"
    using s1(3) by (auto simp: all_alloc_def)
  have rs: "released s1 = []" "destroyed s1 = []" using s1(2) by (simp_all add: cleanable_def)
  have nv: "\<not> list_all (\<lambda>i. add_kernel env nb c uf ?h (map (garbage env R_deviceOut) [0..<N]) ! i =
                             ?h ! i + word_of_int c * 204) [0..<N]"
    using bad by (auto simp: list_all_iff)
  have it: "\<exists>t. shmoo_iteration env N uf nb c ?t = Return False t \<and> allocated t = allocated s1 \<and>
               released t = [] \<and> destroyed t = []"
    using ok b s1(8) rs nv
    by (simp add: shmoo_iteration_def CUDART_CHECK_def Let_def copy_buf_def launch_add_def verify_def)
  then obtain t where t: "shmoo_iteration env N uf nb c ?t = Return False t" "allocated t = allocated s1"
    "released t = []" "destroyed t = []" by blast
  have "timing_body env N (c # cs) uf nb (timing_state0 r) =
          bindf (run_steps (map (create_event env) [0..<numEvents] @ alloc_steps env N) (timing_state0 r))
                (run_steps (main_steps env N (c # cs) uf nb))"
    unfolding timing_body_def by (metis append_assoc run_steps_append)
  then have "timing_body env N (c # cs) uf nb (timing_state0 r) = Return False t"
    using s1(1) t(1) ok by (simp add: main_steps_unfold [OF ok] fl)
  then show ?thesis using t s1(7) by (simp add: TimeSequentialKernelKernel_def live_def)
qed

theorem TimeSequentialKernelKernel_mismatch_leaks_witness:
  "\<exists>s. TimeSequentialKernelKernel
     \<lparr>cuda_success = (\<lambda>_. True), rand_value = (\<lambda>k. k), garbage = (\<lambda>_ _. 0),
      add_kernel = (\<lambda>nb c uf din dout. din), elapsed = (\<lambda>k. k :: nat)\<rparr>
     0 1 [1] 1 1 = (False, s) \<and> length (live s) = 6"
  using TimeSequentialKernelKernel_mismatch_leaks [where env = "\<lparr>cuda_success = (\<lambda>_. True), rand_value = (\<lambda>k. k),
      garbage = (\<lambda>_ _. 0), add_kernel = (\<lambda>nb c uf din dout. din), elapsed = (\<lambda>k. k :: nat)\<rparr>"
      and r = 0 and N = 1 and c = 1 and cs = "[]" and uf = 1 and nb = 1]
  by auto

end
