(* ===== verification/Spec2Isabelle.thy ===== *)
theory Spec2Isabelle
  imports Harness NbodyInit Timing
begin

text \<open>
  \<^bold>\<open>Verification of two programs of the CUDA Handbook sources.\<close>

  \<^bold>\<open>The block-scan microbenchmark\<close> (\<open>src/scan/warp/testScanBlock.cu\<close>) tests
  parallel prefix scans on a GPU against a sequential CPU oracle:
  \<^item> the CPU oracle \<open>ScanExclusiveCPUPeriodic\<close> / \<open>ScanInclusiveCPUPeriodic\<close>
    (a scan that restarts every \<open>period\<close> elements) and its dispatchers
    \<open>ScanCPU32\<close>, \<open>ScanCPUBlock\<close>;
  \<^item> the warp-scan primitives and the block scan (headers \<open>scanWarp*.cuh\<close>,
    \<open>scanZeroPad.cuh\<close>, \<open>scanBlock.cuh\<close>, not among the sources: modelled from the
    specification, sections 4.1 and 4.2);
  \<^item> the kernels \<open>ScanGPUWarp\<close>, \<open>ScanGPUBlock\<close>, \<open>ScanGPUBlockShuffle\<close> and their
    launchers, one segment per block in a block-strided loop;
  \<^item> \<open>RandomArray\<close>, the harness \<open>TestScanBlock\<close> and \<open>main\<close>, which compare the
    GPU output with the oracle's for every thread count.

  \<^bold>\<open>The N-body program\<close> (\<open>src/unnamed/part_000\<close>): \<open>main\<close> reads the options and
  the device, allocates the body buffers, draws random unit bodies, and loops one
  time step per frame; \<open>ComputeGravitation\<close> converts the bodies between the AOS
  and SOA layouts, runs the selected force algorithm, cross-checks it against
  golden forces with \<open>relError\<close> and integrates; the space bar rotates the
  algorithm.  In the same file, \<open>TimeSequentialKernelKernel\<close> times a kernel over
  a range of cycle counts and checks its output.

  \<^bold>\<open>Theories.\<close>
  \<^item> \<open>Prelude\<close>: \<open>int32\<close> (\<open>32 word\<close>, the C \<open>int\<close>, wrapping), the flat \<open>store\<close>,
    the abstract scans \<open>incl_scan\<close>, \<open>excl_scan\<close> and the segmented
    \<open>periodic\<close>, \<open>write_list\<close>, the C \<open>for\<close> loop \<open>for_loop\<close> (a terminating
    \<^theory_text>\<open>function\<close>, measure \<open>N - i\<close>) and the list lemmas all components use.
  \<^item> \<open>CpuScan\<close> (testScanBlock.cu lines 60--123): the oracles over one store with
    \<open>out\<close>/\<open>in\<close> as base addresses (aliasing explicit), an access past a buffer as
    \<open>None\<close>; the outer loop (\<open>i += period\<close>, never checked non-zero) is a
    \<^theory_text>\<open>partial_function (option)\<close> and C1--C2 prove that it returns.  C1--C4:
    correctness, the overrun for a partial segment, idempotence.
  \<^item> \<open>WarpScan\<close>, \<open>BlockScan\<close>: Hillis--Steele rounds in lockstep for the three warp
    strategies, each equal to \<open>incl_scan\<close>; the sequential (non-lockstep) round as
    a counterexample; the block scan as four whole-block steps, parameterised by
    the warp scan and proved equal to \<open>incl_scan\<close> for any warp scan meeting its
    contract.
  \<^item> \<open>GpuScan\<close> (lines 133--402): every kernel body as a segment function and
    the grid as the step relation \<open>grid_step\<close> over blocks in any order, with
    rule induction for its invariant.  The \<open>Warp2\<close> kernels take the warp scans
    of the absent \<open>scanWarp2.cuh\<close> as parameters.  C5--C10: the kernels agree
    with each other and with the periodic scan, every schedule terminates, and
    the stride bug makes block \<open>b\<close> scan every segment from \<open>b\<close> on; C29: the
    \<open>Warp2\<close> launchers compute the per-warp scan for any warp scan meeting its
    contract.
  \<^item> \<open>Harness\<close> (lines 125--131 and 404--546): \<open>RandomArray\<close>, \<open>TestScanBlock\<close> as a relation
    over the environment (allocation and CUDA outcomes, fresh memory, \<open>rand()\<close>),
    and \<open>main\<close>'s doubling thread-count loop, a \<^theory_text>\<open>partial_function (option)\<close>
    at 32-bit width.  C11--C17.
  \<^item> \<open>NbodyMain\<close>: the algorithm enum (a \<open>datatype\<close> with its integer values
    and a \<open>linorder\<close> instance that compares them as C does), the set-up of the
    algorithm globals and the frame loop as the inductive reachability relation
    \<open>nbody_reach\<close>, with invariants by rule induction.  C18--C22.
  \<^item> \<open>NbodyForces\<close>: \<open>ComputeGravitation\<close> in full, with the force algorithms as
    the parameters \<open>force_impls\<close> and their contract \<open>impls_compute\<close>; the
    refinement of the whole step to the abstract update with the force field
    (C23), \<open>integrateGravitation_AOS\<close> with its \<open>int\<close> index (C25, C26), the layout
    round trip, the running maximum and \<open>relError\<close> (C27--C29).
  \<^item> \<open>NbodyInit\<close>: \<open>randomVector\<close> (rejection sampling, a
    \<^theory_text>\<open>partial_function (option)\<close>: it returns only if some later triple
    lies in the ball, C38), \<open>randomUnitBodies\<close> over \<open>for_loop_opt\<close>, the buffer
    allocation of \<open>main\<close> in both branches as a heap of numbered blocks, the mass
    loop, \<open>initializeGPU\<close> and the unused \<open>relError\<close> overload.  C36--C40: the
    shapes and distinctness of the buffers, the leaked mass array, the
    initialised bodies and masses, the sign of the unused overload.
  \<^item> \<open>Timing\<close> (lines 51--140): \<open>TimeSequentialKernelKernel\<close> with explicit state
    (pointers as options, event handles, a log of acquired and released
    resources) and the outcome of every \<open>CUDART_CHECK\<close> as a flow value
    \<open>Next\<close> / \<open>Goto_Error\<close> / \<open>Return\<close>, composed by \<open>bindf\<close>.  C30--C33:
    release of all resources, the success path, the uninitialised event on the
    first failure, the leak on a wrong result.
  \<^item> This theory: \<open>main\<close> of the N-body program as the composition of the
    components: one iteration of the simulation loop (\<open>nbody_loop_body\<close>,
    \<open>NbodyMain\<close> and \<open>NbodyForces\<close>), the loop itself (\<open>nbody_loop\<close>, a
    \<^theory_text>\<open>partial_function (option)\<close> over the key stream, since
    \<open>while (!bStop)\<close> need not end), and \<open>nbody_main\<close>: set-up, allocation and
    initialisation (\<open>NbodyInit\<close>), the loop, \<open>return 0\<close> and the \<open>Error\<close>
    exit.  C24: the \<open>--nocpu\<close> exit without CUDA; C34: \<open>main\<close> returns 0
    after the first \<open>q\<close>; C35: the loop invariant.

  \<^bold>\<open>Bounds and fuel.\<close>  No fuel is used.  Loops whose bound the code fixes
  are terminating functions; loops the code does not bound (the oracle's outer
  loop, the scan harness's thread-count doubling, \<open>randomVector\<close>, the N-body
  frame loop) are partial functions into \<open>option\<close>, and the theorems say when
  they return (\<open>Some\<close>: C1, C2, C14, C34, C38) and when they do not (C15).  Widths: C \<open>int\<close> is \<open>int32\<close> where the code computes with it
  (indices, test input, thread counts); the N-body \<open>int\<close> index \<open>4*i\<close> is at
  32 bits, and the results hold for at most \<open>2^29\<close> bodies, the largest count
  for which that index does not wrap (C26 shows the wrap beyond it).

  \<^bold>\<open>Not modelled.\<close>  The body of \<open>scanWarp2.cuh\<close> (absent from the
  sources and the specification: the \<open>Warp2\<close> kernels are modelled over it as
  a parameter); the interleaving of threads inside a block between barriers (whole-block
  steps model it); the N-body force kernels and CPU force routines (their
  headers are absent; they are parameters with a contract); floats beyond the
  field operations the code uses (no rounding, no NaN); the worker-thread pool
  of \<open>chThread.h\<close> (\<open>g_CPUThreadPool\<close>, \<open>g_GPUThreadPool\<close>: only whether it
  starts, \<open>pools_ok\<close>), the byte size \<open>4*g_N*sizeof(float)\<close> of the allocations
  (a block of \<open>4*g_N\<close> floats is allocated whatever its byte size), timers,
  printing, \<open>kbhit\<close>/\<open>getch\<close> beyond the key read, and \<open>CH_ASSERT\<close>.
\<close>


section \<open>The simulation loop of the N-body program\<close>

text \<open>One iteration of the \<open>while (!bStop)\<close> loop of \<open>main\<close> (part_000, lines
  706--748): the time step \<open>ComputeGravitation\<close> with the current algorithm and
  cross-check flag and the globals \<open>g_dt\<close>, \<open>g_damping\<close>; a step that returns
  false ends the program with \<open>exit(1)\<close> (\<open>nbody_frame\<close> with \<open>ok\<close> false), one
  that faults is \<open>None\<close>; otherwise the key handler runs.  The result is the
  exit code, or the next globals and host buffers with \<open>bStop\<close>.\<close>

definition nbody_loop_body ::
  "'f::{zero,one,plus,minus,uminus,times,inverse,ord} force_impls \<Rightarrow> bool \<Rightarrow> 'f \<Rightarrow> 'f \<Rightarrow> char option \<Rightarrow>
   nbody_globals \<times> 'f nbody_host \<Rightarrow> (int + (nbody_globals \<times> 'f nbody_host) \<times> bool) option" where
  "nbody_loop_body impls gpu_ok dt damping key gh =
     (case gh of (g, h) \<Rightarrow>
        case ComputeGravitation impls gpu_ok g dt damping (g_Algorithm g) (g_bCrossCheck g) h of
          Fault \<Rightarrow> None
        | Returned_false \<Rightarrow> Some (map_sum id (\<lambda>(g', stop). ((g', h), stop)) (nbody_frame g False key))
        | Returned_true (_, h') \<Rightarrow> Some (map_sum id (\<lambda>(g', stop). ((g', h'), stop)) (nbody_frame g True key)))"

text \<open>The globals \<open>g_dt = 0.016f\<close> and \<open>g_damping = 0.995f\<close> (lines 260--261),
  which \<open>ComputeGravitation\<close> passes to \<open>integrateGravitation_AOS\<close>.\<close>

definition g_dt :: "'f::field" where
  "g_dt = 16 / 1000"

definition g_damping :: "'f::field" where
  "g_damping = 995 / 1000"

text \<open>The loop \<open>while (!bStop)\<close> (lines 704--751), frame \<open>k\<close> reading the key
  \<open>key_at k\<close> (\<open>None\<close> when \<open>kbhit\<close> reports none).  It need not end, so it is a
  partial function: \<open>None\<close> when it never stops (or a step faults), \<open>Inl\<close> the
  status of an \<open>exit\<close>, \<open>Inr\<close> the state when \<open>bStop\<close> becomes true.\<close>

partial_function (option) nbody_loop ::
  "'f::{zero,one,plus,minus,uminus,times,inverse,ord} force_impls \<Rightarrow> bool \<Rightarrow> 'f \<Rightarrow> 'f \<Rightarrow>
   (nat \<Rightarrow> char option) \<Rightarrow> nat \<Rightarrow> nbody_globals \<times> 'f nbody_host \<Rightarrow>
   (int + nbody_globals \<times> 'f nbody_host) option" where
  "nbody_loop impls gpu_ok dt damping key_at k gh =
     (case nbody_loop_body impls gpu_ok dt damping (key_at k) gh of
        None \<Rightarrow> None
      | Some (Inl code) \<Rightarrow> Some (Inl code)
      | Some (Inr (gh', bStop)) \<Rightarrow>
          if bStop then Some (Inr gh') else nbody_loop impls gpu_ok dt damping key_at (Suc k) gh')"

declare nbody_loop.simps [code]

text \<open>\<open>main\<close> (lines 569--759): the set-up (\<open>nbody_setup\<close>), the allocation,
  random bodies and masses (\<open>nbody_init\<close>, after \<open>srand(7)\<close>: \<open>rand\<close> is the
  sequence that seed gives), the loop, \<open>return 0\<close> after it, and the label
  \<open>Error\<close>, which returns 1.  Every \<open>CUDART_CHECK\<close>ed call succeeds as
  \<open>cuda_calls_ok env\<close> says, and the force algorithms can use the GPU when CUDA
  is present and its calls succeed.  The result is the exit status, \<open>None\<close>
  when \<open>main\<close> does not return.\<close>

definition nbody_main ::
  "nbody_env \<Rightarrow> (nat \<Rightarrow> nat \<Rightarrow> 'f) \<Rightarrow> (nat \<Rightarrow> nat) \<Rightarrow> nat \<Rightarrow> 'f::linordered_field force_impls \<Rightarrow>
   (nat \<Rightarrow> char option) \<Rightarrow> int option" where
  "nbody_main env fresh rand rand_max impls key_at =
     (case nbody_setup env of
        Inl code \<Rightarrow> Some code
      | Inr g \<Rightarrow>
          (case nbody_init (g_bCUDAPresent g) (\<lambda>_. cuda_calls_ok env) fresh rand rand_max (unat (g_N g)) 0 of
             None \<Rightarrow> None
           | Some (Inl code) \<Rightarrow> Some code
           | Some (Inr (h, _)) \<Rightarrow>
               (case nbody_loop impls (g_bCUDAPresent g \<and> cuda_calls_ok env) g_dt g_damping key_at 0 (g, h) of
                  None \<Rightarrow> None
                | Some (Inl code) \<Rightarrow> Some code
                | Some (Inr _) \<Rightarrow> Some 0)))"

text \<open>C24: on a machine without CUDA, \<open>--nocpu\<close> does not stop the program at
  set-up (the check of line 607 is dead); the first press of the space bar then
  selects \<open>GPU_AOS\<close>, and the next iteration of the loop exits with status 1,
  whatever the bodies, the force implementations and the key pressed.\<close>

theorem nbody_nocpu_without_cuda_exits:
  assumes "pools_ok env" "\<not> (device_count_ok env \<and> 0 < numGPUs env)" "opt_nocpu env"
    "numGPUs env = 0 \<or> gpus_init_ok env"
  shows "\<exists>g. nbody_setup env = Inr g \<and> nbody_reach env (press_space 1 g) \<and>
             (\<forall>impls gpu_ok dt damping key h.
                nbody_loop_body impls gpu_ok dt damping key (press_space 1 g, h) = Some (Inl 1))"
proof -
  obtain g where g: "nbody_setup env = Inr g" "\<not> g_bCUDAPresent g" "nbody_reach env (press_space 1 g)"
    and p: "press_space 1 g = g\<lparr>g_Algorithm := alg GPU_AOS\<rparr>"
    using nbody_setup_nocpu_no_cuda [OF assms] by blast
  let ?g' = "g\<lparr>g_Algorithm := alg GPU_AOS\<rparr>"
  have a: "algorithm_of (g_Algorithm ?g') = Some GPU_AOS"
    using algorithm_of_alg [of GPU_AOS] by simp
  have "ComputeGravitation impls gpu_ok ?g' dt damping (g_Algorithm ?g') (g_bCrossCheck ?g') h = Returned_false"
    for impls :: "'a force_impls" and gpu_ok dt damping h
    by (rule ComputeGravitation_no_cuda_gpu [OF _ a]) (simp_all add: g(2) host_algorithm_def)
  then have "nbody_loop_body impls gpu_ok dt damping key (press_space 1 g, h) = Some (Inl 1)"
    for impls :: "'a force_impls" and gpu_ok dt damping key h
    unfolding p by (simp add: nbody_loop_body_def nbody_frame_def)
  then show ?thesis
    using g by blast
qed

theorem nbody_nocpu_without_cuda_exits_witness:
  "\<exists>g. nbody_setup \<lparr>pools_ok = True, device_count_ok = False, numGPUs = 0, sm_major = 0, gpus_init_ok = True,
      cuda_calls_ok = True, opt_nocrosscheck = False, opt_nocpu = True, opt_nosse = False, opt_numbodies = None\<rparr> = Inr g \<and>
     nbody_loop_body (\<lparr>aos_impl = \<lambda>_ _. [], soa_impl = \<lambda>_ _ _. [], gpu_impl = \<lambda>_ _ _. [],
       multi_impl = \<lambda>_ _ _. []\<rparr> :: real force_impls) True 1 1 (Some (CHR ''q''))
       (press_space 1 g, \<lparr>hostAOS_PosMass = [], hostAOS_VelInvMass = [], hostAOS_Force = [],
         hostAOS_Force_Golden = [], hostSOA_Pos = [], hostSOA_Force = [], hostSOA_Mass = [], hostSOA_InvMass = [],
         dptrAOS_PosMass = [], dptrAOS_Force = []\<rparr>) = Some (Inl 1)"
  using nbody_nocpu_without_cuda_exits [where 'a = real, of "\<lparr>pools_ok = True, device_count_ok = False, numGPUs = 0, sm_major = 0,
      gpus_init_ok = True, cuda_calls_ok = True, opt_nocrosscheck = False, opt_nocpu = True, opt_nosse = False,
      opt_numbodies = None\<rparr>"]
  by auto




lemma nbody_loop_body_runs:
  assumes reach: "nbody_reach env g" and wf: "host_wf N h" and F: "impls_compute F N impls"
    and N: "unat (g_N g) = N" "N \<le> 2 ^ 29" and cuda: "g_bCUDAPresent g"
  shows "\<exists>g' h' bStop. nbody_loop_body impls True dt damping key (g, h) = Some (Inr ((g', h'), bStop)) \<and>
           host_wf N h' \<and> g_N g' = g_N g \<and> g_bCUDAPresent g' \<and>
           (bStop \<longleftrightarrow> key = Some CHR ''q'' \<or> key = Some CHR ''Q'') \<and> (\<not> bStop \<longrightarrow> nbody_reach env g')"
proof -
  obtain a where a: "algorithm_of (g_Algorithm g) = Some a"
    using nbody_reach_algorithm [OF reach] by blast
  obtain err h' where c: "ComputeGravitation impls True g dt damping (g_Algorithm g) (g_bCrossCheck g) h =
      Returned_true (err, h')" and wf': "host_wf N h'"
    using ComputeGravitation_step [OF F wf N a, where cuda_ok = True and dt = dt and damping = damping
        and bCrossCheck = "g_bCrossCheck g"] cuda by blast
  obtain g' bStop where fr: "nbody_frame g True key = Inr (g', bStop)"
    by (cases key) (auto simp: nbody_frame_def intro: prod.exhaust)
  have f: "g_N g' = g_N g \<and> g_bCUDAPresent g' = g_bCUDAPresent g \<and>
           (bStop \<longleftrightarrow> key = Some CHR ''q'' \<or> key = Some CHR ''Q'')"
  proof (cases key)
    case (Some k)
    then have "key_press g k = (g', bStop)" using fr by (simp add: nbody_frame_def)
    then show ?thesis using key_press_fields [of g k] key_press_stop [of g k] Some by simp
  qed (use fr in \<open>simp add: nbody_frame_def\<close>)
  have "\<not> bStop \<longrightarrow> nbody_reach env g'"
    using fr by (auto intro: nbody_reach.frame [OF reach])
  then show ?thesis using c fr f wf' cuda by (simp add: nbody_loop_body_def)
qed

lemma nbody_loop_quits:
  assumes "nbody_reach env g" "host_wf N h" "impls_compute F N impls" "unat (g_N g) = N" "N \<le> 2 ^ 29"
    "g_bCUDAPresent g" "key_at n = Some CHR ''q''" "\<forall>j. k \<le> j \<longrightarrow> j < n \<longrightarrow>
       key_at j \<noteq> Some CHR ''q'' \<and> key_at j \<noteq> Some CHR ''Q''" "k \<le> n"
  shows "\<exists>g' h'. nbody_loop impls True dt damping key_at k (g, h) = Some (Inr (g', h')) \<and> host_wf N h'"
  using assms
proof (induction "n - k" arbitrary: k g h)
  case 0
  then have k: "k = n" by simp
  obtain g' h' bStop where r: "nbody_loop_body impls True dt damping (key_at k) (g, h) = Some (Inr ((g', h'), bStop))"
    and w: "host_wf N h'" and s: "bStop \<longleftrightarrow> key_at k = Some CHR ''q'' \<or> key_at k = Some CHR ''Q''"
    using nbody_loop_body_runs [OF "0.prems"(1-6)] by blast
  then show ?case using "0.prems"(7) k by (subst nbody_loop.simps) simp
next
  case (Suc d)
  then have k: "k < n" by simp
  obtain g' h' bStop where r: "nbody_loop_body impls True dt damping (key_at k) (g, h) = Some (Inr ((g', h'), bStop))"
    and w: "host_wf N h'" and gN: "g_N g' = g_N g" and cu: "g_bCUDAPresent g'"
    and s: "bStop \<longleftrightarrow> key_at k = Some CHR ''q'' \<or> key_at k = Some CHR ''Q''"
    and re: "\<not> bStop \<longrightarrow> nbody_reach env g'"
    using nbody_loop_body_runs [OF Suc.prems(1-6)] by blast
  have nb: "\<not> bStop" using s Suc.prems(8) k by simp
  have "\<exists>g'' h''. nbody_loop impls True dt damping key_at (Suc k) (g', h') = Some (Inr (g'', h'')) \<and> host_wf N h''"
    using Suc.hyps(1) [of "Suc k" g' h'] Suc.hyps(2) re nb w Suc.prems(3-9) gN cu k by simp
  then show ?case using r nb by (subst nbody_loop.simps) simp
qed


text \<open>C34: on a machine with CUDA whose calls all succeed, with at most \<open>2^29\<close>
  bodies, force algorithms that compute the same force field, and \<open>rand()\<close>
  values whose triples lie in the unit ball, \<open>main\<close> runs the simulation
  frame after frame until the first \<open>q\<close> and then returns 0.\<close>

theorem nbody_main_quits:
  assumes env: "pools_ok env" "device_count_ok env" "0 < numGPUs env" "gpus_init_ok env" "cuda_calls_ok env"
    and nb: "opt_numbodies env = Some kParticles" "unat (bodies_of kParticles) \<le> 2 ^ 29"
    and F: "impls_compute F (unat (bodies_of kParticles)) (impls :: 'f::linordered_field force_impls)"
    and ball: "\<And>j. in_ball (map (\<lambda>i. rand_unit rand_max (rand (j + i))) [0, 1, 2] :: 'f list)"
    and q: "key_at n = Some CHR ''q''"
    and nq: "\<forall>j<n. key_at j \<noteq> Some CHR ''q'' \<and> key_at j \<noteq> Some CHR ''Q''"
  shows "nbody_main env fresh rand rand_max impls key_at = Some 0"
proof -
  let ?N = "unat (bodies_of kParticles)"
  obtain g where g: "nbody_setup env = Inr g" "g_bCUDAPresent g" "g_N g = bodies_of kParticles"
    using nbody_setup_cuda [OF env nb(1)] by blast
  have "nbody_alloc True (\<lambda>_. cuda_calls_ok env) fresh ?N \<noteq> None"
    using alloc_cuda_succeeds env(5) by (simp add: nbody_alloc_def)
  then obtain h :: "'f nbody_host" and r' where
    i: "nbody_init True (\<lambda>_. cuda_calls_ok env) fresh rand rand_max ?N 0 = Some (Inr (h, r'))"
    using nbody_init_returns [OF _ ball] by blast
  have wf: "host_wf ?N h" using nbody_init_host_wf [OF i] .
  obtain g' h' where l: "nbody_loop impls True g_dt g_damping key_at 0 (g, h) = Some (Inr (g', h'))"
  proof -
    have gN: "unat (g_N g) = ?N" using g(3) by simp
    have nq0: "\<forall>j. 0 \<le> j \<longrightarrow> j < n \<longrightarrow> key_at j \<noteq> Some CHR ''q'' \<and> key_at j \<noteq> Some CHR ''Q''"
      using nq by simp
    show ?thesis
      using nbody_loop_quits [where k = 0 and dt = g_dt and damping = g_damping,
          OF nbody_reach.start [OF g(1)] wf F gN nb(2) g(2) q nq0] that by blast
  qed
  show ?thesis using g i l env(5) by (simp add: nbody_main_def)
qed

theorem nbody_main_quits_witness:
  "nbody_main \<lparr>pools_ok = True, device_count_ok = True, numGPUs = 1, sm_major = 3, gpus_init_ok = True,
      cuda_calls_ok = True, opt_nocrosscheck = False, opt_nocpu = False, opt_nosse = False, opt_numbodies = Some 0\<rparr>
     (\<lambda>_ _. 0) (\<lambda>_. 1) 2
     (\<lparr>aos_impl = \<lambda>_ _. [], soa_impl = \<lambda>_ _ _. [[], [], []], gpu_impl = \<lambda>_ _ _. [],
       multi_impl = \<lambda>_ _ _. []\<rparr> :: real force_impls) (\<lambda>_. Some CHR ''q'') = Some 0"
proof -
  have F: "impls_compute (\<lambda>_. []) (unat (bodies_of 0)) (\<lparr>aos_impl = \<lambda>_ _. [], soa_impl = \<lambda>_ _ _. [[], [], []],
       gpu_impl = \<lambda>_ _ _. [], multi_impl = \<lambda>_ _ _. []\<rparr> :: real force_impls)"
    by (simp add: impls_compute_def soa_of_aos3_def soa_pos_def soa_mass_def bodies_of_def)
  have ball: "\<And>j. in_ball (map (\<lambda>i. rand_unit 2 ((\<lambda>_. 1) (j + i))) [0, 1, 2] :: real list)"
    by (simp add: in_ball_def rand_unit_def)
  show ?thesis
    using nbody_main_quits [OF _ _ _ _ _ _ _ F ball, where n = 0] by (simp add: bodies_of_def)
qed

end
